theory Spec2Isabelle
  imports Complex_Main "HOL-Library.Word"
begin

unbundle bit_operations_syntax

section \<open>Floating-point arithmetic of the target\<close>

text \<open>
  The driver computes in \<open>float\<close> and, for the unit factors, in \<open>double\<close>. Neither type
  is declared in the repository, and the width of \<open>double\<close> depends on the board the
  sketch is built for (32 bits on AVR, 64 bits on ARM and ESP32). The driver's functions
  therefore take the arithmetic as a parameter: a record of the operations the source
  uses. Every operation of the source on a \<open>float\<close> or \<open>double\<close> is one field.

  \<^item> \<open>f_of_int\<close> is the conversion \<open>float(n)\<close> of an integer value \<open>n\<close>;
  \<^item> \<open>f_nan\<close> is the macro \<open>NAN\<close>;
  \<^item> \<open>d_of_f\<close> and \<open>f_of_d\<close> are the implicit conversions between \<open>float\<close> and
    \<open>double\<close>, \<open>d_lit\<close> reads a decimal literal as a \<open>double\<close>.
\<close>

record ('f, 'd) arith =
  f_add :: "'f \<Rightarrow> 'f \<Rightarrow> 'f"
  f_sub :: "'f \<Rightarrow> 'f \<Rightarrow> 'f"
  f_mul :: "'f \<Rightarrow> 'f \<Rightarrow> 'f"
  f_div :: "'f \<Rightarrow> 'f \<Rightarrow> 'f"
  f_of_int :: "int \<Rightarrow> 'f"
  f_nan :: "'f"
  d_of_f :: "'f \<Rightarrow> 'd"
  d_mul :: "'d \<Rightarrow> 'd \<Rightarrow> 'd"
  d_lit :: "rat \<Rightarrow> 'd"
  f_of_d :: "'d \<Rightarrow> 'f"

subsection \<open>IEEE 754 binary formats\<close>

text \<open>
  On every board \<open>float\<close> is IEEE 754 binary32, computed with rounding to nearest, ties
  to even. A value of a binary format is a finite number, an infinity or not-a-number.
  \<open>Finite s m\<close> is the number of magnitude \<open>m\<close> with sign bit \<open>s\<close>, so that there are two
  zeros; a single \<open>NaN\<close> stands for all not-a-numbers (payloads are not modelled).
\<close>

datatype fval = Finite bool rat | Infinite bool | NaN

definition val :: "fval \<Rightarrow> rat" where
  "val x = (case x of Finite s m \<Rightarrow> if s then - m else m | _ \<Rightarrow> 0)"

text \<open>Rounding a non-negative number to an integer: to nearest, a tie to the even one.\<close>

definition rhe :: "rat \<Rightarrow> int" where
  "rhe t = (let f = \<lfloor>t\<rfloor>; r = t - of_int f
            in if r < 1 / 2 then f else if 1 / 2 < r then f + 1
               else if even f then f else f + 1)"

text \<open>The number of binary digits of a natural number.\<close>

function bits :: "nat \<Rightarrow> nat" where
  "bits n = (if n = 0 then 0 else Suc (bits (n div 2)))"
  by pat_completeness auto
termination
  by (relation "measure id") auto

text \<open>
  A format is given by three numbers: the precision \<open>p\<close> (digits of the significand),
  the exponent \<open>w\<close> of its smallest positive number \<open>2^-w\<close>, and the exponent \<open>emax\<close> of
  the first power of two that overflows: \<open>24, 149, 128\<close> for binary32 and
  \<open>53, 1074, 1024\<close> for binary64.

  \<open>round_mag p w q\<close> rounds the magnitude \<open>q\<close>: in units of \<open>2^-w\<close> it is \<open>x\<close>; a number
  with more than \<open>p\<close> digits before the point loses the \<open>s\<close> digits in excess, so it is
  rounded to a multiple of \<open>2^s\<close>. \<open>round_to\<close> adds the sign and the overflow.
\<close>

definition round_mag :: "nat \<Rightarrow> nat \<Rightarrow> rat \<Rightarrow> rat" where
  "round_mag p w q =
     (let x = q * 2 ^ w; s = bits (nat \<lfloor>x\<rfloor>) - p
      in of_int (rhe (x / 2 ^ s)) * 2 ^ s / 2 ^ w)"

definition round_to :: "nat \<Rightarrow> nat \<Rightarrow> nat \<Rightarrow> bool \<Rightarrow> rat \<Rightarrow> fval" where
  "round_to p w emax s q =
     (let y = round_mag p w q in if 2 ^ emax \<le> y then Infinite s else Finite s y)"

definition round_val :: "nat \<Rightarrow> nat \<Rightarrow> nat \<Rightarrow> rat \<Rightarrow> fval" where
  "round_val p w emax v = round_to p w emax (v < 0) \<bar>v\<bar>"

text \<open>
  The operations: the exact result, rounded. An exact zero takes its sign from the
  operands; infinities and \<open>NaN\<close> follow the standard (\<open>inf - inf\<close>, \<open>0 * inf\<close>, \<open>0 / 0\<close>
  and \<open>inf / inf\<close> are \<open>NaN\<close>, a nonzero number divided by zero is an infinity).
\<close>

fun fneg :: "fval \<Rightarrow> fval" where
  "fneg (Finite s m) = Finite (\<not> s) m"
| "fneg (Infinite s) = Infinite (\<not> s)"
| "fneg NaN = NaN"

fun fadd :: "nat \<Rightarrow> nat \<Rightarrow> nat \<Rightarrow> fval \<Rightarrow> fval \<Rightarrow> fval" where
  "fadd p w emax (Finite s a) (Finite t b) =
     (let v = val (Finite s a) + val (Finite t b)
      in if v = 0 then Finite (s \<and> t) 0 else round_val p w emax v)"
| "fadd p w emax (Infinite s) (Infinite t) = (if s = t then Infinite s else NaN)"
| "fadd p w emax (Infinite s) (Finite t b) = Infinite s"
| "fadd p w emax (Finite s a) (Infinite t) = Infinite t"
| "fadd p w emax NaN y = NaN"
| "fadd p w emax x NaN = NaN"

definition fsub :: "nat \<Rightarrow> nat \<Rightarrow> nat \<Rightarrow> fval \<Rightarrow> fval \<Rightarrow> fval" where
  "fsub p w emax x y = fadd p w emax x (fneg y)"

fun fmul :: "nat \<Rightarrow> nat \<Rightarrow> nat \<Rightarrow> fval \<Rightarrow> fval \<Rightarrow> fval" where
  "fmul p w emax (Finite s a) (Finite t b) =
     (let v = val (Finite s a) * val (Finite t b)
      in if v = 0 then Finite (s \<noteq> t) 0 else round_val p w emax v)"
| "fmul p w emax (Infinite s) (Infinite t) = Infinite (s \<noteq> t)"
| "fmul p w emax (Infinite s) (Finite t b) = (if b = 0 then NaN else Infinite (s \<noteq> t))"
| "fmul p w emax (Finite s a) (Infinite t) = (if a = 0 then NaN else Infinite (s \<noteq> t))"
| "fmul p w emax NaN y = NaN"
| "fmul p w emax x NaN = NaN"

fun fdiv :: "nat \<Rightarrow> nat \<Rightarrow> nat \<Rightarrow> fval \<Rightarrow> fval \<Rightarrow> fval" where
  "fdiv p w emax (Finite s a) (Finite t b) =
     (if b = 0 then (if a = 0 then NaN else Infinite (s \<noteq> t))
      else if a = 0 then Finite (s \<noteq> t) 0
      else round_val p w emax (val (Finite s a) / val (Finite t b)))"
| "fdiv p w emax (Infinite s) (Infinite t) = NaN"
| "fdiv p w emax (Infinite s) (Finite t b) = Infinite (s \<noteq> t)"
| "fdiv p w emax (Finite s a) (Infinite t) = Finite (s \<noteq> t) 0"
| "fdiv p w emax NaN y = NaN"
| "fdiv p w emax x NaN = NaN"

definition fof_int :: "nat \<Rightarrow> nat \<Rightarrow> nat \<Rightarrow> int \<Rightarrow> fval" where
  "fof_int p w emax n = round_val p w emax (of_int n)"

text \<open>The conversion of a \<open>double\<close> to \<open>float\<close> rounds; the other direction is exact.\<close>

definition narrow :: "nat \<Rightarrow> nat \<Rightarrow> nat \<Rightarrow> fval \<Rightarrow> fval" where
  "narrow p w emax x = (case x of Finite s m \<Rightarrow> round_to p w emax s m | _ \<Rightarrow> x)"

text \<open>
  The arithmetic of a 32-bit board: \<open>float\<close> is binary32, \<open>double\<close> is binary64.
\<close>

definition ieee :: "(fval, fval) arith" where
  "ieee = \<lparr> f_add = fadd 24 149 128, f_sub = fsub 24 149 128, f_mul = fmul 24 149 128,
            f_div = fdiv 24 149 128, f_of_int = fof_int 24 149 128, f_nan = NaN,
            d_of_f = (\<lambda>x. x), d_mul = fmul 53 1074 1024, d_lit = round_val 53 1074 1024,
            f_of_d = narrow 24 149 128 \<rparr>"

text \<open>
  An arithmetic whose \<open>float\<close> is binary32, whatever its \<open>double\<close> is: this is the
  arithmetic of every board.
\<close>

definition binary32_floats :: "(fval, 'd) arith \<Rightarrow> bool" where
  "binary32_floats A \<longleftrightarrow>
     f_add A = fadd 24 149 128 \<and> f_sub A = fsub 24 149 128 \<and> f_mul A = fmul 24 149 128 \<and>
     f_div A = fdiv 24 149 128 \<and> f_of_int A = fof_int 24 149 128 \<and> f_nan A = NaN"

text \<open>
  What the properties say about a value: that it is finite, that it is a value of the
  format (a finite one is below the overflow threshold and rounding leaves it as it
  is), that it compares as negative or positive, and the comparison \<open>==\<close> of C.
\<close>

definition is_finite :: "fval \<Rightarrow> bool" where
  "is_finite x = (case x of Finite s m \<Rightarrow> True | _ \<Rightarrow> False)"

definition is_float :: "nat \<Rightarrow> nat \<Rightarrow> nat \<Rightarrow> fval \<Rightarrow> bool" where
  "is_float p w emax x =
     (case x of Finite s m \<Rightarrow> 0 \<le> m \<and> m < 2 ^ emax \<and> round_mag p w m = m | _ \<Rightarrow> True)"

definition is_float32 :: "fval \<Rightarrow> bool" where
  "is_float32 = is_float 24 149 128"

definition is_negative :: "fval \<Rightarrow> bool" where
  "is_negative x = (case x of Finite s m \<Rightarrow> s \<and> 0 < m | Infinite s \<Rightarrow> s | NaN \<Rightarrow> False)"

definition is_positive :: "fval \<Rightarrow> bool" where
  "is_positive x = (case x of Finite s m \<Rightarrow> \<not> s \<and> 0 < m | Infinite s \<Rightarrow> \<not> s | NaN \<Rightarrow> False)"

definition f_eq :: "fval \<Rightarrow> fval \<Rightarrow> bool" where
  "f_eq x y =
     (case x of
        Finite s a \<Rightarrow> (case y of Finite t b \<Rightarrow> val x = val y | _ \<Rightarrow> False)
      | Infinite s \<Rightarrow> (case y of Infinite t \<Rightarrow> s = t | _ \<Rightarrow> False)
      | NaN \<Rightarrow> False)"

section \<open>SparkFun\_MicroPressure.h\<close>

definition BUSY_FLAG :: "8 word" where "BUSY_FLAG = 0x20"
definition INTEGRITY_FLAG :: "8 word" where "INTEGRITY_FLAG = 0x04"
definition MATH_SAT_FLAG :: "8 word" where "MATH_SAT_FLAG = 0x01"

text \<open>
  \<open>enum Pressure_Units { PSI, PA, KPA, TORR, INHG, ATM, BAR, RAW }\<close>: an unscoped
  enumeration, modelled by the integer values of its enumerators, so that the final
  \<open>else\<close> of \<open>readPressure\<close> (a value that is none of the eight) is a branch of the model.
\<close>

type_synonym Pressure_Units = nat

definition PSI :: Pressure_Units where "PSI = 0"
definition PA :: Pressure_Units where "PA = 1"
definition KPA :: Pressure_Units where "KPA = 2"
definition TORR :: Pressure_Units where "TORR = 3"
definition INHG :: Pressure_Units where "INHG = 4"
definition ATM :: Pressure_Units where "ATM = 5"
definition BAR :: Pressure_Units where "BAR = 6"
definition RAW :: Pressure_Units where "RAW = 7"

lemmas units_defs = PSI_def PA_def KPA_def TORR_def INHG_def ATM_def BAR_def RAW_def

text \<open>
  The private fields of \<open>class SparkFun_MicroPressure\<close> that the constructor sets
  (\<open>_address\<close> and \<open>_i2cPort\<close> are set by \<open>begin\<close>; \<open>_zero\<close> is never used).
\<close>

record 'f MicroPressure =
  eoc :: "8 word"
  rst :: "8 word"
  minPsi :: 'f
  maxPsi :: 'f
  deltaPsi :: 'f
  calFactor :: 'f
  maxCounts :: "32 word"
  minCounts :: "32 word"
  deltaCounts :: "32 word"
  transfer_function :: char

section \<open>SparkFun\_MicroPressure.cpp: calibration\<close>

text \<open>The \<open>switch\<close> of the constructor (lines 47--65): \<open>(_minCounts, _maxCounts)\<close>.\<close>

definition select_counts :: "char \<Rightarrow> 32 word \<times> 32 word" where
  "select_counts tf =
     (if tf = CHR ''A'' then (1677722, 15099494)
      else if tf = CHR ''B'' then (419430, 3774874)
      else if tf = CHR ''C'' then (3355443, 13421773)
      else (1677722, 15099494))"

text \<open>The constructor (lines 22--69). \<open>float(_deltaCounts)\<close> converts the unsigned value.\<close>

definition SparkFun_MicroPressure ::
  "('f, 'd) arith \<Rightarrow> 8 word \<Rightarrow> 8 word \<Rightarrow> 'f \<Rightarrow> 'f \<Rightarrow> char \<Rightarrow> 'f MicroPressure" where
  "SparkFun_MicroPressure A eoc_pin rst_pin minimumPSI maximumPSI tf =
     (let mn = fst (select_counts tf);
          mx = snd (select_counts tf);
          dc = mx - mn;
          dp = f_sub A maximumPSI minimumPSI
      in \<lparr> eoc = eoc_pin, rst = rst_pin,
           minPsi = minimumPSI, maxPsi = maximumPSI, deltaPsi = dp,
           calFactor = f_div A dp (f_of_int A (uint dc)),
           maxCounts = mx, minCounts = mn, deltaCounts = dc,
           transfer_function = tf \<rparr>)"

text \<open>\<open>setZero\<close> (lines 118--123). The subtraction is \<open>uint32_t\<close> and wraps.\<close>

definition setZero :: "('f, 'd) arith \<Rightarrow> 32 word \<Rightarrow> 'f MicroPressure \<Rightarrow> 'f MicroPressure" where
  "setZero A zero st =
     (let st1 = st\<lparr>minCounts := zero\<rparr>;
          st2 = st1\<lparr>deltaCounts := maxCounts st1 - minCounts st1\<rparr>
      in st2\<lparr>calFactor := f_div A (deltaPsi st2) (f_of_int A (uint (deltaCounts st2)))\<rparr>)"

text \<open>\<open>setCalFac\<close> (lines 131--136).\<close>

definition setCalFac :: "('f, 'd) arith \<Rightarrow> 'f \<Rightarrow> 'f MicroPressure \<Rightarrow> 'f MicroPressure" where
  "setCalFac A calFac st =
     (let st1 = st\<lparr>calFactor := calFac\<rparr>;
          st2 = st1\<lparr>deltaPsi := f_mul A (calFactor st1) (f_of_int A (uint (deltaCounts st1)))\<rparr>
      in st2\<lparr>maxPsi := f_add A (minPsi st2) (deltaPsi st2)\<rparr>)"

section \<open>The bus, the pin and the clock\<close>

text \<open>
  \<open>TwoWire\<close>, \<open>digitalRead\<close> and \<open>delay\<close> belong to the Arduino core, not to the
  repository. Their model follows the documented interface: \<open>requestFrom(address, n)\<close>
  fills the receive buffer with at most \<open>n\<close> bytes that the sensor sends, \<open>read()\<close>
  takes the next byte of the buffer as an \<open>int\<close>, or returns \<open>-1\<close> when the buffer is
  empty. What the sensor sends and what the end-of-conversion pin shows is the
  environment: \<open>replies b k\<close> is the sensor's answer to the \<open>k\<close>-th request,
  \<open>eoc_level b k\<close> the level of the pin at the \<open>k\<close>-th sample.
\<close>

record bus =
  replies :: "nat \<Rightarrow> 8 word list"
  requests :: nat
  rxbuf :: "8 word list"
  sent :: "8 word list list"
  eoc_level :: "nat \<Rightarrow> bool"
  samples :: nat
  slept :: nat

definition transmit :: "8 word list \<Rightarrow> bus \<Rightarrow> bus" where
  "transmit bytes b = b\<lparr>sent := sent b @ [bytes]\<rparr>"

definition requestFrom :: "nat \<Rightarrow> bus \<Rightarrow> bus" where
  "requestFrom n b = b\<lparr>rxbuf := take n (replies b (requests b)), requests := requests b + 1\<rparr>"

definition wire_read :: "bus \<Rightarrow> int \<times> bus" where
  "wire_read b = (case rxbuf b of [] \<Rightarrow> (- 1, b) | x # xs \<Rightarrow> (uint x, b\<lparr>rxbuf := xs\<rparr>))"

definition digitalRead :: "bus \<Rightarrow> bool \<times> bus" where
  "digitalRead b = (eoc_level b (samples b), b\<lparr>samples := samples b + 1\<rparr>)"

definition delay :: "nat \<Rightarrow> bus \<Rightarrow> bus" where
  "delay ms b = b\<lparr>slept := slept b + ms\<rparr>"

section \<open>SparkFun\_MicroPressure.cpp: reading\<close>

text \<open>\<open>readStatus\<close> (lines 107--111): the \<open>int\<close> of \<open>read()\<close> is returned as \<open>uint8_t\<close>.\<close>

definition readStatus :: "bus \<Rightarrow> 8 word \<times> bus" where
  "readStatus b = (let (v, b1) = wire_read (requestFrom 1 b) in (word_of_int v, b1))"

text \<open>
  The two wait loops of \<open>readPressure\<close> (lines 161--164 and 169--173). Neither has a
  bound: a loop that never ends is the value \<open>None\<close>.
\<close>

partial_function (option) wait_eoc :: "bus \<Rightarrow> bus option" where
  "wait_eoc b =
     (if \<not> fst (digitalRead b) then wait_eoc (delay 1 (snd (digitalRead b)))
      else Some (snd (digitalRead b)))"

partial_function (option) wait_status :: "8 word \<Rightarrow> bus \<Rightarrow> bus option" where
  "wait_status status b =
     (if status AND BUSY_FLAG \<noteq> 0 \<and> status \<noteq> 0xFF
      then wait_status (fst (readStatus (delay 1 b))) (snd (readStatus (delay 1 b)))
      else Some b)"

text \<open>
  The loop that assembles the reading (lines 187--192), from \<open>i\<close> on. The \<open>int\<close> of
  \<open>read()\<close> is converted to \<open>uint32_t\<close> for the \<open>|=\<close>.
\<close>

function read_counts :: "nat \<Rightarrow> 32 word \<Rightarrow> bus \<Rightarrow> 32 word \<times> bus" where
  "read_counts i reading b =
     (if i < 3
      then (let (v, b1) = wire_read b;
                r1 = reading OR word_of_int v;
                r2 = (if i \<noteq> 2 then push_bit 8 r1 else r1)
            in read_counts (i + 1) r2 b1)
      else (reading, b))"
  by pat_completeness auto
termination
  by (relation "measure (\<lambda>(i, reading, b). 3 - i)") auto

text \<open>
  Line 200: counts to pressure. Both casts read the 32 bits as two's complement; the
  subtraction of two \<open>int32_t\<close> is modelled with the wrap-around of the targets' compiler
  (in C++ its overflow is undefined).
\<close>

definition int32_sub :: "int \<Rightarrow> int \<Rightarrow> int" where
  "int32_sub a b = signed_take_bit 31 (a - b)"

definition counts_to_pressure :: "('f, 'd) arith \<Rightarrow> 'f MicroPressure \<Rightarrow> 32 word \<Rightarrow> 'f" where
  "counts_to_pressure A st reading =
     f_add A (f_mul A (f_of_int A (int32_sub (sint reading) (sint (minCounts st)))) (calFactor st))
       (minPsi st)"

text \<open>
  Lines 202--209: the unit chain. A \<open>float\<close> times a \<open>double\<close> literal is a \<open>double\<close>
  product, converted back to \<open>float\<close> by the \<open>return\<close>.
\<close>

definition times_lit :: "('f, 'd) arith \<Rightarrow> 'f \<Rightarrow> rat \<Rightarrow> 'f" where
  "times_lit A pressure q = f_of_d A (d_mul A (d_of_f A pressure) (d_lit A q))"

definition convert_units :: "('f, 'd) arith \<Rightarrow> Pressure_Units \<Rightarrow> 'f \<Rightarrow> 'f" where
  "convert_units A units pressure =
     (if units = PSI then pressure
      else if units = PA then times_lit A pressure (68947573 / 10000)
      else if units = KPA then times_lit A pressure (689476 / 100000)
      else if units = TORR then times_lit A pressure (517149 / 10000)
      else if units = INHG then times_lit A pressure (203602 / 100000)
      else if units = ATM then times_lit A pressure (6805 / 100000)
      else if units = BAR then times_lit A pressure (6895 / 100000)
      else pressure)"

text \<open>Lines 176--210: what \<open>readPressure\<close> does once the wait is over.\<close>

definition fetch_pressure ::
  "('f, 'd) arith \<Rightarrow> 'f MicroPressure \<Rightarrow> Pressure_Units \<Rightarrow> bus \<Rightarrow> 'f \<times> bus" where
  "fetch_pressure A st units b =
     (let (v, b1) = wire_read (requestFrom 4 b);
          status = (word_of_int v :: 8 word)
      in if status AND INTEGRITY_FLAG \<noteq> 0 \<or> status AND MATH_SAT_FLAG \<noteq> 0
         then (f_nan A, b1)
         else (let (reading, b2) = read_counts 0 0 b1
               in if units = RAW then (f_of_int A (uint reading), b2)
                  else (convert_units A units (counts_to_pressure A st reading), b2)))"

text \<open>Lines 159--174: the wait, by pin if one is configured, by status byte otherwise.\<close>

definition wait_ready :: "'f MicroPressure \<Rightarrow> bus \<Rightarrow> bus option" where
  "wait_ready st b =
     (if eoc st \<noteq> - 1 then wait_eoc b
      else (let (status, b1) = readStatus b in wait_status status b1))"

text \<open>\<open>readPressure\<close> (lines 150--211); \<open>None\<close> when the wait never ends.\<close>

definition readPressure ::
  "('f, 'd) arith \<Rightarrow> 'f MicroPressure \<Rightarrow> Pressure_Units \<Rightarrow> bus \<Rightarrow> ('f \<times> bus) option" where
  "readPressure A st units b =
     map_option (fetch_pressure A st units) (wait_ready st (transmit [0xAA, 0x00, 0x00] b))"

text \<open>
  The header declares \<open>float readPressure(Pressure_Units units=PSI)\<close>: a call that
  names no unit.
\<close>

definition readPressure_default ::
  "('f, 'd) arith \<Rightarrow> 'f MicroPressure \<Rightarrow> bus \<Rightarrow> ('f \<times> bus) option" where
  "readPressure_default A st b = readPressure A st PSI b"

section \<open>Notions the properties are stated with\<close>

text \<open>The count that three bytes, most significant first, stand for.\<close>

definition be24 :: "8 word \<Rightarrow> 8 word \<Rightarrow> 8 word \<Rightarrow> 32 word" where
  "be24 m d l = push_bit 16 (ucast m) OR push_bit 8 (ucast d) OR ucast l"

text \<open>
  The status byte that the four-byte read of \<open>readPressure\<close> fetches from bus state \<open>b\<close>
  (lines 176--178): the first byte the sensor sends, \<open>0xFF\<close> when it sends nothing.
\<close>

definition frame_status :: "bus \<Rightarrow> 8 word" where
  "frame_status b = word_of_int (fst (wire_read (requestFrom 4 b)))"

text \<open>
  The status byte that the \<open>k\<close>-th next call of \<open>readStatus\<close> returns from bus state
  \<open>b\<close>, when nothing else uses the bus in between.
\<close>

definition polled :: "bus \<Rightarrow> nat \<Rightarrow> 8 word" where
  "polled b k = (case take 1 (replies b (requests b + k)) of [] \<Rightarrow> 0xFF | x # xs \<Rightarrow> x)"

text \<open>
  The calibration states a client can reach: the constructor, then any calls of
  \<open>setZero\<close> and of \<open>setCalFac\<close>. The pressure bounds and the factors are any values of
  binary32, infinities and \<open>NaN\<close> included.
\<close>

inductive reachable :: "(fval, 'd) arith \<Rightarrow> fval MicroPressure \<Rightarrow> bool" for A where
  constructed: "is_float32 lo \<Longrightarrow> is_float32 hi \<Longrightarrow>
                reachable A (SparkFun_MicroPressure A eoc_pin rst_pin lo hi tf)"
| zeroed: "reachable A st \<Longrightarrow> reachable A (setZero A z st)"
| calibrated: "is_float32 f \<Longrightarrow> reachable A st \<Longrightarrow> reachable A (setCalFac A f st)"

text \<open>
  How the fields of a reachable state depend on each other. The count span is the
  difference of the count bounds. Either the scale factor is the quotient of the spans
  (after the constructor and after \<open>setZero\<close>), or the pressure span is the product of
  scale factor and count span (after \<open>setCalFac\<close>); and either the pressure span is the
  difference of the bounds (as long as \<open>setCalFac\<close> was never called) or the maximum
  pressure is the sum of minimum pressure and pressure span.
\<close>

definition derived :: "(fval, 'd) arith \<Rightarrow> fval MicroPressure \<Rightarrow> bool" where
  "derived A st \<longleftrightarrow>
     is_float32 (minPsi st) \<and> deltaCounts st = maxCounts st - minCounts st \<and>
     (calFactor st = f_div A (deltaPsi st) (f_of_int A (uint (deltaCounts st))) \<and>
        deltaPsi st = f_sub A (maxPsi st) (minPsi st) \<or>
      calFactor st = f_div A (deltaPsi st) (f_of_int A (uint (deltaCounts st))) \<and>
        maxPsi st = f_add A (minPsi st) (deltaPsi st) \<or>
      deltaPsi st = f_mul A (calFactor st) (f_of_int A (uint (deltaCounts st))) \<and>
        maxPsi st = f_add A (minPsi st) (deltaPsi st))"

section \<open>Concrete inputs\<close>

text \<open>The sensor of the header's default arguments: no pins, 0 to 25 PSI, transfer function A.\<close>

definition default_sensor :: "fval MicroPressure" where
  "default_sensor =
     SparkFun_MicroPressure ieee (- 1) (- 1) (Finite False 0) (Finite False 25) CHR ''A''"

text \<open>
  A sensor that answers the requests with the frames of a list, one after the other,
  and keeps sending the last one; the end-of-conversion pin goes high at sample \<open>n\<close>.
\<close>

definition script :: "8 word list list \<Rightarrow> nat \<Rightarrow> 8 word list" where
  "script frames k =
     (if k < length frames then frames ! k else if frames = [] then [] else last frames)"

definition sensor_bus :: "8 word list list \<Rightarrow> nat \<Rightarrow> bus" where
  "sensor_bus frames n =
     \<lparr> replies = script frames, requests = 0, rxbuf = [], sent = [],
       eoc_level = (\<lambda>k. n \<le> k), samples = 0, slept = 0 \<rparr>"

section \<open>Facts on rounding\<close>

declare bits.simps [simp del]

lemma bits_0 [simp]: "bits 0 = 0"
  by (simp add: bits.simps)

lemma bits_1 [simp]: "bits (Suc 0) = Suc 0"
  by (simp add: bits.simps)

lemma bits_numeral [simp]: "bits (numeral k) = Suc (bits (numeral k div 2))"
  by (subst bits.simps) simp

lemma rhe_cases:
  "rhe t = \<lfloor>t\<rfloor> \<and> t - of_int \<lfloor>t\<rfloor> \<le> 1 / 2 \<or> rhe t = \<lfloor>t\<rfloor> + 1 \<and> 1 / 2 \<le> t - of_int \<lfloor>t\<rfloor>"
  by (auto simp add: rhe_def Let_def)

lemma rhe_error: "\<bar>of_int (rhe t) - t\<bar> \<le> 1 / 2"
proof -
  have "of_int \<lfloor>t\<rfloor> \<le> t" "t < of_int \<lfloor>t\<rfloor> + 1"
    by linarith+
  with rhe_cases [of t] show ?thesis
    by (auto simp add: abs_le_iff)
qed

lemma rhe_nonneg: "0 \<le> t \<Longrightarrow> 0 \<le> rhe t"
  using rhe_cases [of t] by (auto simp add: )

lemma rhe_pos: "1 / 2 < t \<Longrightarrow> 1 \<le> rhe t"
proof -
  assume t: "1 / 2 < t"
  then have f: "0 \<le> \<lfloor>t\<rfloor>" by simp
  show ?thesis
  proof (cases "1 \<le> \<lfloor>t\<rfloor>")
    case True
    with rhe_cases [of t] show ?thesis by auto
  next
    case False
    with f have "\<lfloor>t\<rfloor> = 0" by linarith
    with t rhe_cases [of t] show ?thesis by auto
  qed
qed

lemma bits_lower: "0 < n \<Longrightarrow> 2 ^ (bits n - 1) \<le> n"
proof (induction n rule: bits.induct)
  case (1 n)
  show ?case
  proof (cases "n div 2 = 0")
    case True
    with 1(2) have "n = 1" by (auto simp add: div_eq_0_iff)
    then show ?thesis by simp
  next
    case False
    with 1 have ih: "2 ^ (bits (n div 2) - 1) \<le> n div 2" by simp
    from False have "0 < bits (n div 2)"
      by (subst bits.simps) simp
    then have "bits n - 1 = Suc (bits (n div 2) - 1)"
      using 1(2) by (subst bits.simps) simp
    then have "(2::nat) ^ (bits n - 1) = 2 * 2 ^ (bits (n div 2) - 1)"
      by simp
    also have "\<dots> \<le> 2 * (n div 2)"
      using ih by simp
    also have "\<dots> \<le> n"
      by simp
    finally show ?thesis .
  qed
qed

lemma bits_upper: "n < 2 ^ bits n"
proof (induction n rule: bits.induct)
  case (1 n)
  show ?case
  proof (cases "n = 0")
    case True
    then show ?thesis by simp
  next
    case False
    with 1 have "n div 2 < 2 ^ bits (n div 2)" by simp
    then have "n < 2 * 2 ^ bits (n div 2)" by linarith
    then show ?thesis
      using False by (subst bits.simps) simp
  qed
qed


lemma round_mag_grid:
  assumes "0 \<le> q"
  shows "\<exists>k. 0 \<le> k \<and> round_mag p w q = of_int k / 2 ^ w"
proof -
  let ?x = "q * 2 ^ w"
  let ?s = "bits (nat \<lfloor>?x\<rfloor>) - p"
  have "0 \<le> ?x / 2 ^ ?s"
    using assms by simp
  then have "0 \<le> rhe (?x / 2 ^ ?s)"
    by (rule rhe_nonneg)
  then have "0 \<le> rhe (?x / 2 ^ ?s) * 2 ^ ?s"
    by simp
  moreover have "round_mag p w q = of_int (rhe (?x / 2 ^ ?s) * 2 ^ ?s) / 2 ^ w"
    by (simp add: round_mag_def Let_def)
  ultimately show ?thesis
    by blast
qed

lemma round_mag_nonneg: "0 \<le> q \<Longrightarrow> 0 \<le> round_mag p w q"
  using round_mag_grid [of q p w] by auto

lemma round_mag_zero [simp]: "round_mag p w 0 = 0"
  by (simp add: round_mag_def rhe_def)

lemma shift_lower:
  fixes x :: rat
  assumes "0 \<le> x" and "0 < bits (nat \<lfloor>x\<rfloor>) - p"
  shows "2 ^ (bits (nat \<lfloor>x\<rfloor>) - p) * 2 ^ p \<le> 2 * x"
proof -
  let ?n = "nat \<lfloor>x\<rfloor>"
  from assms(2) have b: "p < bits ?n" by simp
  then have "0 < ?n"
    by (cases "?n = 0") simp_all
  then have "2 ^ (bits ?n - 1) \<le> ?n"
    by (rule bits_lower)
  then have "(of_nat (2 ^ (bits ?n - 1)) :: rat) \<le> of_nat ?n"
    by (simp only: of_nat_le_iff)
  also have "\<dots> \<le> x"
    using assms(1) by (simp add: of_nat_nat) 
  finally have "(2 :: rat) ^ (bits ?n - 1) \<le> x"
    by simp
  moreover have "(2 :: rat) ^ (bits ?n - p) * 2 ^ p = 2 * 2 ^ (bits ?n - 1)"
  proof -
    have "(2 :: rat) ^ (bits ?n - p) * 2 ^ p = 2 ^ (bits ?n - p + p)"
      by (simp add: power_add)
    also have "bits ?n - p + p = Suc (bits ?n - 1)"
      using b by simp
    finally show ?thesis by simp
  qed
  ultimately show ?thesis by simp
qed

lemma round_mag_error:
  assumes "0 \<le> q"
  shows "\<bar>round_mag p w q - q\<bar> \<le> q / 2 ^ p + 1 / (2 * 2 ^ w)"
proof -
  let ?x = "q * 2 ^ w"
  let ?s = "bits (nat \<lfloor>?x\<rfloor>) - p"
  let ?k = "rhe (?x / 2 ^ ?s)"
  have x: "0 \<le> ?x" using assms by simp
  have "\<bar>of_int ?k - ?x / 2 ^ ?s\<bar> \<le> 1 / 2"
    by (rule rhe_error)
  then have "\<bar>of_int ?k - ?x / 2 ^ ?s\<bar> * 2 ^ ?s \<le> 1 / 2 * 2 ^ ?s"
    by (rule mult_right_mono) simp
  moreover have "\<bar>of_int ?k - ?x / 2 ^ ?s\<bar> * 2 ^ ?s = \<bar>of_int ?k * 2 ^ ?s - ?x\<bar>"
  proof -
    have "\<bar>of_int ?k - ?x / 2 ^ ?s\<bar> * 2 ^ ?s = \<bar>(of_int ?k - ?x / 2 ^ ?s) * 2 ^ ?s\<bar>"
      by (simp add: abs_mult)
    also have "(of_int ?k - ?x / 2 ^ ?s) * 2 ^ ?s = of_int ?k * 2 ^ ?s - ?x"
      by (simp add: algebra_simps)
    finally show ?thesis .
  qed
  ultimately have e: "\<bar>of_int ?k * 2 ^ ?s - ?x\<bar> \<le> 2 ^ ?s / 2"
    by simp
  have h: "(2 :: rat) ^ ?s / 2 \<le> ?x / 2 ^ p + 1 / 2"
  proof (cases "?s = 0")
    case True
    then show ?thesis using x by simp
  next
    case False
    then have "0 < ?s" by simp
    with x have "2 ^ ?s * 2 ^ p \<le> 2 * ?x"
      by (rule shift_lower)
    then have "(2 :: rat) ^ ?s * 2 ^ p / 2 ^ p \<le> 2 * ?x / 2 ^ p"
      by (rule divide_right_mono) simp
    then have "(2 :: rat) ^ ?s \<le> 2 * (?x / 2 ^ p)"
      by simp
    then show ?thesis by linarith
  qed
  from e h have "\<bar>of_int ?k * 2 ^ ?s - ?x\<bar> \<le> ?x / 2 ^ p + 1 / 2"
    by linarith
  then have "\<bar>of_int ?k * 2 ^ ?s - ?x\<bar> / 2 ^ w \<le> (?x / 2 ^ p + 1 / 2) / 2 ^ w"
    by (rule divide_right_mono) simp
  moreover have "\<bar>of_int ?k * 2 ^ ?s - ?x\<bar> / 2 ^ w = \<bar>round_mag p w q - q\<bar>"
  proof -
    have "\<bar>of_int ?k * 2 ^ ?s - ?x\<bar> / 2 ^ w = \<bar>(of_int ?k * 2 ^ ?s - ?x) / 2 ^ w\<bar>"
      by simp
    also have "(of_int ?k * 2 ^ ?s - ?x) / 2 ^ w = round_mag p w q - q"
      by (simp add: round_mag_def Let_def diff_divide_distrib)
    finally show ?thesis .
  qed
  moreover have "(?x / 2 ^ p + 1 / 2) / 2 ^ w = q / 2 ^ p + 1 / (2 * 2 ^ w)"
    by (simp add: add_divide_distrib)
  ultimately show ?thesis by simp
qed

lemma round_mag_pos:
  assumes "1 / 2 < q * 2 ^ w" and "0 < p"
  shows "0 < round_mag p w q"
proof -
  let ?x = "q * 2 ^ w"
  let ?s = "bits (nat \<lfloor>?x\<rfloor>) - p"
  have x: "0 \<le> ?x" using assms(1) by linarith
  have "1 / 2 < ?x / 2 ^ ?s"
  proof (cases "?s = 0")
    case True
    then show ?thesis using assms(1) by simp
  next
    case False
    then have "0 < ?s" by simp
    with x have "2 ^ ?s * 2 ^ p \<le> 2 * ?x"
      by (rule shift_lower)
    moreover have "(2 :: rat) \<le> 2 ^ p"
      using assms(2) by (cases p) simp_all
    then have "(2 :: rat) ^ ?s * 2 \<le> 2 ^ ?s * 2 ^ p"
      by (intro mult_left_mono) simp_all
    ultimately have "(2 :: rat) ^ ?s \<le> ?x"
      by linarith
    then have "1 \<le> ?x / 2 ^ ?s"
      by (simp add: le_divide_eq)
    then show ?thesis by linarith
  qed
  then have "1 \<le> rhe (?x / 2 ^ ?s)"
    by (rule rhe_pos)
  then have "(1 :: rat) \<le> of_int (rhe (?x / 2 ^ ?s))"
    by simp
  then have "0 < of_int (rhe (?x / 2 ^ ?s)) * (2 :: rat) ^ ?s / 2 ^ w"
    by (intro divide_pos_pos mult_pos_pos) simp_all
  then show ?thesis
    by (simp add: round_mag_def Let_def)
qed


lemma round_to_Finite:
  "round_to p w emax s q = Finite s' m \<Longrightarrow> s' = s \<and> m = round_mag p w q \<and> m < 2 ^ emax"
  by (auto simp add: round_to_def Let_def split: if_splits)

lemma round_val_error:
  assumes "round_val p w emax v = Finite s m"
  shows "\<bar>val (Finite s m) - v\<bar> \<le> \<bar>v\<bar> / 2 ^ p + 1 / (2 * 2 ^ w)"
proof -
  from assms have s: "s = (v < 0)" and m: "m = round_mag p w \<bar>v\<bar>"
    using round_to_Finite [of p w emax "v < 0" "\<bar>v\<bar>" s m] by (simp_all add: round_val_def)
  have e: "\<bar>m - \<bar>v\<bar>\<bar> \<le> \<bar>v\<bar> / 2 ^ p + 1 / (2 * 2 ^ w)"
    unfolding m by (rule round_mag_error) simp
  show ?thesis
  proof (cases "v < 0")
    case True
    then have "val (Finite s m) - v = - (m - \<bar>v\<bar>)"
      by (simp add: val_def s)
    then show ?thesis using e by simp
  next
    case False
    then have "val (Finite s m) - v = m - \<bar>v\<bar>"
      by (simp add: val_def s)
    then show ?thesis using e by simp
  qed
qed

lemma fadd_operands:
  "fadd p w emax x y = Finite s m \<Longrightarrow> \<exists>sx a sy b. x = Finite sx a \<and> y = Finite sy b"
  by (cases x; cases y) (simp_all split: if_splits)

lemma fmul_operands:
  "fmul p w emax x y = Finite s m \<Longrightarrow> \<exists>sx a sy b. x = Finite sx a \<and> y = Finite sy b"
  by (cases x; cases y) (simp_all split: if_splits)

lemma fadd_finite:
  assumes "fadd p w emax x y = Finite s m"
  shows "is_finite x \<and> is_finite y \<and>
         \<bar>val (Finite s m) - (val x + val y)\<bar> \<le> \<bar>val x + val y\<bar> / 2 ^ p + 1 / (2 * 2 ^ w)"
proof -
  from fadd_operands [OF assms] obtain sx a sy b where x: "x = Finite sx a" and y: "y = Finite sy b"
    by blast
  show ?thesis
  proof (cases "val x + val y = 0")
    case True
    with assms x y show ?thesis
      by (auto simp add: is_finite_def Let_def val_def)
  next
    case False
    with assms x y have "round_val p w emax (val x + val y) = Finite s m"
      by (simp add: Let_def)
    from round_val_error [OF this] x y show ?thesis
      by (simp add: is_finite_def)
  qed
qed

lemma fmul_finite:
  assumes "fmul p w emax x y = Finite s m"
  shows "is_finite x \<and> is_finite y \<and>
         \<bar>val (Finite s m) - val x * val y\<bar> \<le> \<bar>val x * val y\<bar> / 2 ^ p + 1 / (2 * 2 ^ w)"
proof -
  from fmul_operands [OF assms] obtain sx a sy b where x: "x = Finite sx a" and y: "y = Finite sy b"
    by blast
  show ?thesis
  proof (cases "val x * val y = 0")
    case True
    with assms x y show ?thesis
      by (auto simp add: is_finite_def Let_def val_def split: if_splits)
  next
    case False
    with assms x y have "round_val p w emax (val x * val y) = Finite s m"
      by (simp add: Let_def)
    from round_val_error [OF this] x y show ?thesis
      by (simp add: is_finite_def)
  qed
qed

lemma fdiv_finite:
  assumes "fdiv p w emax x y = Finite s m" and "is_finite y" and "val y \<noteq> 0"
  shows "is_finite x \<and>
         \<bar>val (Finite s m) - val x / val y\<bar> \<le> \<bar>val x / val y\<bar> / 2 ^ p + 1 / (2 * 2 ^ w)"
proof (cases x)
  case (Finite sx a)
  from assms(2) obtain sy b where y: "y = Finite sy b"
    by (cases y) (simp_all add: is_finite_def)
  with assms(3) have b: "b \<noteq> 0"
    by (auto simp add: val_def split: if_splits)
  show ?thesis
  proof (cases "a = 0")
    case True
    with assms(1) Finite y b show ?thesis
      by (auto simp add: is_finite_def val_def)
  next
    case False
    with assms(1) Finite y b have "round_val p w emax (val x / val y) = Finite s m"
      by simp
    from round_val_error [OF this] Finite show ?thesis
      by (simp add: is_finite_def)
  qed
next
  case (Infinite sx)
  with assms show ?thesis by (cases y) (simp_all add: is_finite_def)
next
  case NaN
  with assms show ?thesis by simp
qed


lemma bits_eqI:
  assumes "2 ^ (L - 1) \<le> n" and "n < 2 ^ L" and "0 < L"
  shows "bits n = L"
proof -
  have n: "0 < n"
    using assms(1) by (cases "n = 0") simp_all
  have "(2 :: nat) ^ (bits n - 1) \<le> n"
    using n by (rule bits_lower)
  then have "(2 :: nat) ^ (bits n - 1) < 2 ^ L"
    using assms(2) by (rule le_less_trans)
  then have a: "bits n - 1 < L"
    by (rule power_less_imp_less_exp [rotated]) simp
  have "(2 :: nat) ^ (L - 1) < 2 ^ bits n"
    using assms(1) bits_upper [of n] by (rule le_less_trans)
  then have b: "L - 1 < bits n"
    by (rule power_less_imp_less_exp [rotated]) simp
  from a b assms(3) show ?thesis
    by simp
qed

lemma rhe_eval:
  assumes "of_int f \<le> t" and "t < of_int f + 1"
    and "t - of_int f < 1 / 2 \<and> k = f \<or> 1 / 2 < t - of_int f \<and> k = f + 1 \<or>
         t - of_int f = 1 / 2 \<and> k = (if even f then f else f + 1)"
  shows "rhe t = k"
proof -
  have "\<lfloor>t\<rfloor> = f"
    using assms(1,2) by (rule floor_unique)
  then show ?thesis
    using assms(3) by (auto simp add: rhe_def Let_def)
qed

lemma round_mag_eval:
  assumes "of_int n \<le> q * 2 ^ w" and "q * 2 ^ w < of_int n + 1"
    and "bits (nat n) - p = s"
    and "of_int f \<le> q * 2 ^ w / 2 ^ s" and "q * 2 ^ w / 2 ^ s < of_int f + 1"
    and "q * 2 ^ w / 2 ^ s - of_int f < 1 / 2 \<and> k = f \<or>
         1 / 2 < q * 2 ^ w / 2 ^ s - of_int f \<and> k = f + 1 \<or>
         q * 2 ^ w / 2 ^ s - of_int f = 1 / 2 \<and> k = (if even f then f else f + 1)"
    and "y = of_int k * 2 ^ s / 2 ^ w"
  shows "round_mag p w q = y"
proof -
  have "\<lfloor>q * 2 ^ w\<rfloor> = n"
    using assms(1,2) by (rule floor_unique)
  moreover have "rhe (q * 2 ^ w / 2 ^ s) = k"
    using assms(4,5,6) by (rule rhe_eval)
  ultimately show ?thesis
    using assms(3,7) by (simp add: round_mag_def Let_def)
qed

lemma round_to_eval:
  assumes "of_int n \<le> q * 2 ^ w" and "q * 2 ^ w < of_int n + 1"
    and "bits (nat n) - p = s"
    and "of_int f \<le> q * 2 ^ w / 2 ^ s" and "q * 2 ^ w / 2 ^ s < of_int f + 1"
    and "q * 2 ^ w / 2 ^ s - of_int f < 1 / 2 \<and> k = f \<or>
         1 / 2 < q * 2 ^ w / 2 ^ s - of_int f \<and> k = f + 1 \<or>
         q * 2 ^ w / 2 ^ s - of_int f = 1 / 2 \<and> k = (if even f then f else f + 1)"
    and "y = of_int k * 2 ^ s / 2 ^ w"
    and "y < 2 ^ emax"
  shows "round_to p w emax sg q = Finite sg y"
  using round_mag_eval [OF assms(1-7)] assms(8) by (simp add: round_to_def Let_def)

lemma round_to_eval':
  assumes "of_int n \<le> q * 2 ^ w" and "q * 2 ^ w < of_int n + 1"
    and "2 ^ (L - 1) \<le> nat n" and "nat n < 2 ^ L" and "0 < L" and "L - p = s"
    and "of_int f \<le> q * 2 ^ w / 2 ^ s" and "q * 2 ^ w / 2 ^ s < of_int f + 1"
    and "q * 2 ^ w / 2 ^ s - of_int f < 1 / 2 \<and> k = f \<or>
         1 / 2 < q * 2 ^ w / 2 ^ s - of_int f \<and> k = f + 1 \<or>
         q * 2 ^ w / 2 ^ s - of_int f = 1 / 2 \<and> k = (if even f then f else f + 1)"
    and "y = of_int k * 2 ^ s / 2 ^ w"
    and "y < 2 ^ emax"
  shows "round_to p w emax sg q = Finite sg y"
proof -
  have "bits (nat n) = L"
    using assms(3-5) by (rule bits_eqI)
  with assms(6) have "bits (nat n) - p = s"
    by simp
  with assms(1,2) show ?thesis
    using assms(7-11) by (rule round_to_eval)
qed

lemma fadd_commute: "fadd p w emax x y = fadd p w emax y x"
  by (cases x; cases y) (auto simp add: Let_def add.commute)

lemma fmul_commute: "fmul p w emax x y = fmul p w emax y x"
  by (cases x; cases y) (auto simp add: Let_def mult.commute)

lemma val_fneg: "is_finite x \<Longrightarrow> val (fneg x) = - val x"
  by (cases x) (simp_all add: val_def is_finite_def)

lemma is_finite_fneg [simp]: "is_finite (fneg x) = is_finite x"
  by (cases x) (simp_all add: is_finite_def)

lemma fof_int_small:
  assumes "\<bar>n\<bar> < 2 ^ 31"
  shows "\<exists>m. fof_int 24 149 128 n = Finite (n < 0) m \<and>
             \<bar>m - of_int \<bar>n\<bar>\<bar> \<le> of_int \<bar>n\<bar> / 2 ^ 24 + 1 / (2 * 2 ^ 149)"
proof -
  let ?q = "of_int \<bar>n\<bar> :: rat"
  let ?m = "round_mag 24 149 ?q"
  have q: "0 \<le> ?q" by simp
  have e: "\<bar>?m - ?q\<bar> \<le> ?q / 2 ^ 24 + 1 / (2 * 2 ^ 149)"
    using q by (rule round_mag_error)
  have "\<bar>n\<bar> < 2147483648" using assms by simp
  then have "?q < of_int 2147483648"
    by (simp only: of_int_less_iff)
  then have "?q < 2147483648" by simp
  with e have "?m < 2 ^ 128"
    by (simp add: abs_le_iff)
  then have "round_to 24 149 128 (n < 0) ?q = Finite (n < 0) ?m"
    by (simp add: round_to_def Let_def)
  then have "fof_int 24 149 128 n = Finite (n < 0) ?m"
    by (simp add: fof_int_def round_val_def)
  with e show ?thesis by blast
qed

lemma float_min:
  assumes "is_float p w emax (Finite s m)" and "0 < m"
  shows "1 / 2 ^ w \<le> m"
proof -
  from assms(1) have m: "round_mag p w m = m" and "0 \<le> m"
    by (simp_all add: is_float_def)
  from round_mag_grid [OF \<open>0 \<le> m\<close>, of p w] m obtain k where k: "0 \<le> k" "m = of_int k / 2 ^ w"
    by auto
  with assms(2) have "k \<noteq> 0" by auto
  with k(1) have "1 \<le> k" by simp
  then have "(1 :: rat) \<le> of_int k" by simp
  then have "(1 :: rat) / 2 ^ w \<le> of_int k / 2 ^ w"
    by (rule divide_right_mono) simp
  with k(2) show ?thesis by simp
qed

lemma round_to_sign:
  "round_to p w emax s q = Finite s (round_mag p w q) \<or> round_to p w emax s q = Infinite s"
  by (simp add: round_to_def Let_def)

text \<open>A negative count difference times a positive scale factor.\<close>

lemma negative_offset:
  assumes "n < 0" and "- (2 ^ 31) < n" and "is_float 24 149 128 c" and "is_positive c"
  shows "is_negative (fmul 24 149 128 (fof_int 24 149 128 n) c)"
proof -
  from assms(1,2) have "\<bar>n\<bar> < 2 ^ 31" by simp
  from fof_int_small [OF this] assms(1) obtain y where
    F: "fof_int 24 149 128 n = Finite True y"
    and e: "\<bar>y - of_int \<bar>n\<bar>\<bar> \<le> of_int \<bar>n\<bar> / 2 ^ 24 + 1 / (2 * 2 ^ 149)"
    by auto
  from assms(1) have "1 \<le> \<bar>n\<bar>" by simp
  then have "(1 :: rat) \<le> of_int \<bar>n\<bar>"
    by (metis of_int_1 of_int_le_iff)
  with e have y: "1 / 2 < y"
    by (simp add: abs_le_iff)
  show ?thesis
  proof (cases c)
    case (Finite t m)
    with assms(4) have t: "\<not> t" and m: "0 < m"
      by (simp_all add: is_positive_def)
    from assms(3) Finite m have lo: "1 / 2 ^ 149 \<le> m"
      by (intro float_min) simp_all
    have "1 / 2 * (1 / 2 ^ 149) < y * m"
      using y lo by (intro mult_less_le_imp_less) simp_all
    then have big: "1 / 2 < y * m * 2 ^ 149"
      by (simp add: field_simps)
    from y m have v: "val (Finite True y) * val (Finite t m) = - (y * m)" "y * m \<noteq> 0" "0 < y * m"
      using t by (simp_all add: val_def)
    have "fmul 24 149 128 (Finite True y) (Finite t m) = round_to 24 149 128 True (y * m)"
      using v by (simp add: Let_def round_val_def)
    moreover have "0 < round_mag 24 149 (y * m)"
      using big by (intro round_mag_pos) simp_all
    ultimately show ?thesis
      using round_to_sign [of 24 149 128 True "y * m"] F Finite
      by (auto simp add: is_negative_def)
  next
    case (Infinite t)
    with assms(4) have "\<not> t" by (simp add: is_positive_def)
    with F Infinite y show ?thesis
      by (simp add: is_negative_def)
  next
    case NaN
    with assms(4) show ?thesis by (simp add: is_positive_def)
  qed
qed

text \<open>Zero counts times a finite factor, added to a float, is that float.\<close>

lemma zero_offset:
  assumes "is_finite c" and "is_float 24 149 128 a" and "a \<noteq> NaN"
  shows "f_eq (fadd 24 149 128 (fmul 24 149 128 (fof_int 24 149 128 0) c) a) a"
proof -
  have F: "fof_int 24 149 128 0 = Finite False 0"
    by (simp add: fof_int_def round_val_def round_to_def)
  from assms(1) obtain t m where c: "c = Finite t m"
    by (cases c) (simp_all add: is_finite_def)
  have z: "fmul 24 149 128 (fof_int 24 149 128 0) c = Finite t 0"
    by (simp add: F c val_def)
  show ?thesis
  proof (cases a)
    case (Finite s b)
    with assms(2) have b: "0 \<le> b" "b < 2 ^ 128" "round_mag 24 149 b = b"
      by (simp_all add: is_float_def)
    show ?thesis
    proof (cases "b = 0")
      case True
      then show ?thesis
        by (simp add: z Finite f_eq_def val_def)
    next
      case False
      with b(1) have "0 < b" by simp
      then have "fadd 24 149 128 (Finite t 0) (Finite s b) = round_to 24 149 128 s b"
        by (auto simp add: val_def round_val_def Let_def)
      also have "\<dots> = Finite s b"
        using b by (simp add: round_to_def Let_def)
      finally show ?thesis
        by (simp add: z Finite f_eq_def)
    qed
  next
    case (Infinite s)
    then show ?thesis by (simp add: z f_eq_def)
  next
    case NaN
    with assms(3) show ?thesis by simp
  qed
qed


section \<open>Accumulated rounding errors\<close>

lemma scale_back:
  fixes P D c K E :: rat
  assumes "0 < D" and "\<bar>c - P / D\<bar> \<le> \<bar>P / D\<bar> / K + E"
  shows "\<bar>D * c - P\<bar> \<le> \<bar>P\<bar> / K + D * E"
proof -
  have "D * \<bar>c - P / D\<bar> \<le> D * (\<bar>P / D\<bar> / K + E)"
    using assms by (intro mult_left_mono) simp_all
  moreover have "D * \<bar>c - P / D\<bar> = \<bar>D * c - P\<bar>"
  proof -
    have "D * \<bar>c - P / D\<bar> = \<bar>D * (c - P / D)\<bar>"
      using assms(1) by (simp add: abs_mult)
    also have "D * (c - P / D) = D * c - P"
      using assms(1) by (simp add: algebra_simps)
    finally show ?thesis .
  qed
  moreover have "D * (\<bar>P / D\<bar> / K + E) = \<bar>P\<bar> / K + D * E"
    using assms(1) by (simp add: algebra_simps abs_divide)
  ultimately show ?thesis by simp
qed

lemma tol_common:
  fixes p a e1 dc e2 mp ma e3 :: rat
  assumes "e1 \<le> p / 2 ^ 24 + 2 ^ 32 * (1 / (2 * 2 ^ 149))"
    and "dc \<le> p + e1"
    and "e2 \<le> dc / 2 ^ 24 + 1 / (2 * 2 ^ 149)"
    and "mp \<le> e1 + e2"
    and "ma \<le> mp + p + a"
    and "e3 \<le> ma / 2 ^ 24 + 1 / (2 * 2 ^ 149)"
    and "0 \<le> p" and "0 \<le> a"
  shows "e3 + mp \<le> 5 * p / 2 ^ 24 + a / 2 ^ 24 + 1 / 2 ^ 116"
proof -
  have 1: "e1 \<le> p / 2 ^ 24 + 1 / 2 ^ 118"
    using assms(1) by simp
  have 2: "dc \<le> p + p / 2 ^ 24 + 1 / 2 ^ 118"
    using 1 assms(2) by linarith
  have 3: "e2 \<le> p / 2 ^ 23 + 1 / 2 ^ 118"
    using 2 assms(3,7) by (simp; linarith)
  have 4: "mp \<le> 3 * p / 2 ^ 24 + 1 / 2 ^ 117"
    using 1 3 assms(4) by (simp; linarith)
  have 5: "ma \<le> 2 * p + a + 1 / 2 ^ 117"
    using 4 assms(5,7) by (simp; linarith)
  have 6: "e3 \<le> 2 * p / 2 ^ 24 + a / 2 ^ 24 + 1 / 2 ^ 117"
    using 5 assms(6) by (simp; linarith)
  show ?thesis
    using 4 6 by (simp; linarith)
qed

lemma tol_sum:
  fixes p a e1 dc e2 mp ma e3 ap e4 rb :: rat
  assumes "e1 \<le> p / 2 ^ 24 + 2 ^ 32 * (1 / (2 * 2 ^ 149))"
    and "dc \<le> p + e1"
    and "e2 \<le> dc / 2 ^ 24 + 1 / (2 * 2 ^ 149)"
    and "mp \<le> e1 + e2"
    and "ma \<le> mp + p + a"
    and "e3 \<le> ma / 2 ^ 24 + 1 / (2 * 2 ^ 149)"
    and "0 \<le> p" and "0 \<le> a"
    and "ap \<le> a + p"
    and "e4 \<le> ap / 2 ^ 24 + 1 / (2 * 2 ^ 149)"
    and "rb \<le> e3 + mp + e4"
  shows "rb \<le> (a + p) / 2 ^ 21 + 1 / 2 ^ 100"
proof -
  have c: "e3 + mp \<le> 5 * p / 2 ^ 24 + a / 2 ^ 24 + 1 / 2 ^ 116"
    using assms(1-8) by (rule tol_common)
  have "e4 \<le> a / 2 ^ 24 + p / 2 ^ 24 + 1 / 2 ^ 150"
    using assms(9,10) by (simp; linarith)
  with c assms(7,8,11) have "rb \<le> a / 2 ^ 21 + p / 2 ^ 21 + 1 / 2 ^ 100"
    by (simp; linarith)
  then show ?thesis
    by (simp add: add_divide_distrib)
qed

lemma tol_diff:
  fixes p a e1 dc e2 mp ma e3 ba e5 rb :: rat
  assumes "e1 \<le> p / 2 ^ 24 + 2 ^ 32 * (1 / (2 * 2 ^ 149))"
    and "dc \<le> p + e1"
    and "e2 \<le> dc / 2 ^ 24 + 1 / (2 * 2 ^ 149)"
    and "mp \<le> e1 + e2"
    and "ma \<le> mp + p + a"
    and "e3 \<le> ma / 2 ^ 24 + 1 / (2 * 2 ^ 149)"
    and "0 \<le> p" and "0 \<le> a"
    and "ba \<le> p + e5"
    and "e5 \<le> ba / 2 ^ 24 + 1 / (2 * 2 ^ 149)"
    and "0 \<le> e5"
    and "rb \<le> e3 + mp + e5"
  shows "rb \<le> (a + p) / 2 ^ 21 + 1 / 2 ^ 100"
proof -
  have c: "e3 + mp \<le> 5 * p / 2 ^ 24 + a / 2 ^ 24 + 1 / 2 ^ 116"
    using assms(1-8) by (rule tol_common)
  have "e5 \<le> p / 2 ^ 23 + 1 / 2 ^ 149"
    using assms(9,10,11) by (simp; linarith)
  with c assms(7,8,12) have "rb \<le> a / 2 ^ 21 + p / 2 ^ 21 + 1 / 2 ^ 100"
    by (simp; linarith)
  then show ?thesis
    by (simp add: add_divide_distrib)
qed

section \<open>Rounding is monotone\<close>

text \<open>
  Rounding never crosses a number of the format: a number at or below such a number
  \<open>g\<close> rounds to at most \<open>g\<close>, a number at or above it to at least \<open>g\<close>.
\<close>

lemma rhe_le: "t \<le> of_int K \<Longrightarrow> rhe t \<le> K"
proof -
  assume t: "t \<le> of_int K"
  have f: "of_int \<lfloor>t\<rfloor> \<le> t" by simp
  from rhe_cases [of t] consider (a) "rhe t = \<lfloor>t\<rfloor>"
    | (b) "rhe t = \<lfloor>t\<rfloor> + 1" "1 / 2 \<le> t - of_int \<lfloor>t\<rfloor>"
    by blast
  then show ?thesis
  proof cases
    case a
    from f t have "(of_int \<lfloor>t\<rfloor> :: rat) \<le> of_int K" by linarith
    then have "\<lfloor>t\<rfloor> \<le> K" by (simp only: of_int_le_iff)
    with a show ?thesis by simp
  next
    case b
    from b(2) t have "(of_int \<lfloor>t\<rfloor> :: rat) < of_int K" by linarith
    then have "\<lfloor>t\<rfloor> < K" by (simp only: of_int_less_iff)
    with b(1) show ?thesis by simp
  qed
qed

lemma rhe_ge: "of_int K \<le> t \<Longrightarrow> K \<le> rhe t"
proof -
  assume "of_int K \<le> t"
  then have "K \<le> \<lfloor>t\<rfloor>" by (simp add: le_floor_iff)
  with rhe_cases [of t] show ?thesis by auto
qed

lemma bits_mono: "m \<le> n \<Longrightarrow> bits m \<le> bits n"
proof (rule ccontr)
  assume mn: "m \<le> n" and "\<not> bits m \<le> bits n"
  then have lt: "bits n < bits m" by simp
  then have "m \<noteq> 0" by (cases "m = 0") simp_all
  then have "0 < m" by simp
  then have "2 ^ (bits m - 1) \<le> m" by (rule bits_lower)
  moreover from lt have "bits n \<le> bits m - 1" by simp
  then have "(2 :: nat) ^ bits n \<le> 2 ^ (bits m - 1)"
    by (rule power_increasing) simp
  moreover have "n < 2 ^ bits n" by (rule bits_upper)
  ultimately show False using mn by linarith
qed

lemma round_mag_unfold:
  "round_mag p w q =
     of_int (rhe (q * 2 ^ w / 2 ^ (bits (nat \<lfloor>q * 2 ^ w\<rfloor>) - p))) *
       2 ^ (bits (nat \<lfloor>q * 2 ^ w\<rfloor>) - p) / 2 ^ w"
  by (simp add: round_mag_def Let_def)

lemma below_bits:
  fixes x :: rat
  assumes "0 \<le> x"
  shows "x < 2 ^ bits (nat \<lfloor>x\<rfloor>)"
proof -
  let ?n = "nat \<lfloor>x\<rfloor>"
  have "?n < 2 ^ bits ?n" by (rule bits_upper)
  then have "Suc ?n \<le> 2 ^ bits ?n" by (rule Suc_leI)
  then have "(of_nat (Suc ?n) :: rat) \<le> of_nat (2 ^ bits ?n)"
    by (simp only: of_nat_le_iff)
  then have "(of_nat ?n :: rat) + 1 \<le> 2 ^ bits ?n" by simp
  moreover have "(of_nat ?n :: rat) = of_int \<lfloor>x\<rfloor>"
    using assms by simp
  moreover have "x < of_int \<lfloor>x\<rfloor> + 1" by linarith
  ultimately show ?thesis by linarith
qed

lemma above_bits:
  fixes x :: rat
  assumes "0 \<le> x" and "0 < bits (nat \<lfloor>x\<rfloor>)"
  shows "2 ^ (bits (nat \<lfloor>x\<rfloor>) - 1) \<le> x"
proof -
  let ?n = "nat \<lfloor>x\<rfloor>"
  from assms(2) have "?n \<noteq> 0" by (cases "?n = 0") simp_all
  then have "0 < ?n" by simp
  then have "2 ^ (bits ?n - 1) \<le> ?n" by (rule bits_lower)
  then have "(of_nat (2 ^ (bits ?n - 1)) :: rat) \<le> of_nat ?n"
    by (simp only: of_nat_le_iff)
  then have "(2 :: rat) ^ (bits ?n - 1) \<le> of_nat ?n" by simp
  moreover have "(of_nat ?n :: rat) = of_int \<lfloor>x\<rfloor>"
    using assms(1) by simp
  moreover have "of_int \<lfloor>x\<rfloor> \<le> x" by simp
  ultimately show ?thesis by linarith
qed

lemma round_mag_le_grid:
  assumes q: "0 \<le> q" and le: "q \<le> g" and g: "round_mag p w g = g"
  shows "round_mag p w q \<le> g"
proof -
  define x where "x = q * 2 ^ w"
  define y where "y = g * 2 ^ w"
  define Lq where "Lq = bits (nat \<lfloor>x\<rfloor>)"
  define Lg where "Lg = bits (nat \<lfloor>y\<rfloor>)"
  have x0: "0 \<le> x" using q by (simp add: x_def)
  have xy: "x \<le> y" using le by (simp add: x_def y_def)
  then have y0: "0 \<le> y" using x0 by linarith
  have rq: "round_mag p w q = of_int (rhe (x / 2 ^ (Lq - p))) * 2 ^ (Lq - p) / 2 ^ w"
    by (simp add: round_mag_unfold x_def Lq_def)
  have rg: "g = of_int (rhe (y / 2 ^ (Lg - p))) * 2 ^ (Lg - p) / 2 ^ w"
    using g by (simp add: round_mag_unfold y_def Lg_def)
  from xy have "\<lfloor>x\<rfloor> \<le> \<lfloor>y\<rfloor>" by (rule floor_mono)
  then have "nat \<lfloor>x\<rfloor> \<le> nat \<lfloor>y\<rfloor>" by simp
  then have L: "Lq \<le> Lg" unfolding Lq_def Lg_def by (rule bits_mono)
  show ?thesis
  proof (cases "Lq - p = Lg - p")
    case True
    define k where "k = rhe (y / 2 ^ (Lg - p))"
    have "y = g * 2 ^ w" by (simp add: y_def)
    also have "g * 2 ^ w = of_int k * 2 ^ (Lg - p)"
      by (subst rg) (simp add: k_def)
    finally have "y / 2 ^ (Lg - p) = of_int k" by simp
    moreover have "x / 2 ^ (Lg - p) \<le> y / 2 ^ (Lg - p)"
      using xy by (simp add: divide_right_mono)
    ultimately have "x / 2 ^ (Lg - p) \<le> of_int k" by simp
    then have "rhe (x / 2 ^ (Lg - p)) \<le> k" by (rule rhe_le)
    then have "(of_int (rhe (x / 2 ^ (Lg - p))) :: rat) \<le> of_int k"
      by (simp only: of_int_le_iff)
    then have "of_int (rhe (x / 2 ^ (Lg - p))) * 2 ^ (Lg - p) / 2 ^ w \<le>
               of_int k * 2 ^ (Lg - p) / (2 ^ w :: rat)"
      by (intro divide_right_mono mult_right_mono) simp_all
    then show ?thesis
      unfolding rq True by (subst rg) (simp add: k_def)
  next
    case False
    with L have lt: "Lq < Lg" by linarith
    have s: "Lq - p \<le> Lq" by simp
    have "x < 2 ^ Lq" unfolding Lq_def using x0 by (rule below_bits)
    also have "(2 :: rat) ^ Lq = 2 ^ (Lq - p) * 2 ^ (Lq - (Lq - p))"
      using s by (simp add: power_add [symmetric])
    finally have "x / 2 ^ (Lq - p) < 2 ^ (Lq - (Lq - p))"
      by (simp add: pos_divide_less_eq mult.commute)
    then have "x / 2 ^ (Lq - p) \<le> of_int (2 ^ (Lq - (Lq - p)))" by simp
    then have "rhe (x / 2 ^ (Lq - p)) \<le> 2 ^ (Lq - (Lq - p))" by (rule rhe_le)
    then have "(of_int (rhe (x / 2 ^ (Lq - p))) :: rat) \<le> of_int (2 ^ (Lq - (Lq - p)))"
      by (simp only: of_int_le_iff)
    then have "of_int (rhe (x / 2 ^ (Lq - p))) * 2 ^ (Lq - p) / 2 ^ w \<le>
               of_int (2 ^ (Lq - (Lq - p))) * 2 ^ (Lq - p) / (2 ^ w :: rat)"
      by (intro divide_right_mono mult_right_mono) simp_all
    also have "of_int (2 ^ (Lq - (Lq - p))) * 2 ^ (Lq - p) / (2 ^ w :: rat) = 2 ^ Lq / 2 ^ w"
      using s by (simp add: power_add [symmetric])
    finally have a: "round_mag p w q \<le> 2 ^ Lq / 2 ^ w"
      unfolding rq .
    from lt have "0 < Lg" by simp
    then have "2 ^ (Lg - 1) \<le> y"
      unfolding Lg_def using y0 by (intro above_bits) simp_all
    moreover from lt have "Lq \<le> Lg - 1" by simp
    then have "(2 :: rat) ^ Lq \<le> 2 ^ (Lg - 1)"
      by (rule power_increasing) simp
    ultimately have "2 ^ Lq \<le> y" by linarith
    then have "2 ^ Lq / 2 ^ w \<le> y / 2 ^ w"
      by (rule divide_right_mono) simp
    also have "y / 2 ^ w = g" by (simp add: y_def)
    finally show ?thesis using a by linarith
  qed
qed

lemma round_mag_ge_grid:
  assumes g0: "0 \<le> g" and le: "g \<le> q" and g: "round_mag p w g = g" and p: "0 < p"
  shows "g \<le> round_mag p w q"
proof -
  define x where "x = q * 2 ^ w"
  define y where "y = g * 2 ^ w"
  define Lq where "Lq = bits (nat \<lfloor>x\<rfloor>)"
  define Lg where "Lg = bits (nat \<lfloor>y\<rfloor>)"
  have y0: "0 \<le> y" using g0 by (simp add: y_def)
  have yx: "y \<le> x" using le by (simp add: x_def y_def)
  then have x0: "0 \<le> x" using y0 by linarith
  have rq: "round_mag p w q = of_int (rhe (x / 2 ^ (Lq - p))) * 2 ^ (Lq - p) / 2 ^ w"
    by (simp add: round_mag_unfold x_def Lq_def)
  have rg: "g = of_int (rhe (y / 2 ^ (Lg - p))) * 2 ^ (Lg - p) / 2 ^ w"
    using g by (simp add: round_mag_unfold y_def Lg_def)
  from yx have "\<lfloor>y\<rfloor> \<le> \<lfloor>x\<rfloor>" by (rule floor_mono)
  then have "nat \<lfloor>y\<rfloor> \<le> nat \<lfloor>x\<rfloor>" by simp
  then have L: "Lg \<le> Lq" unfolding Lq_def Lg_def by (rule bits_mono)
  show ?thesis
  proof (cases "Lq - p = Lg - p")
    case True
    define k where "k = rhe (y / 2 ^ (Lg - p))"
    have "y = g * 2 ^ w" by (simp add: y_def)
    also have "g * 2 ^ w = of_int k * 2 ^ (Lg - p)"
      by (subst rg) (simp add: k_def)
    finally have "y / 2 ^ (Lg - p) = of_int k" by simp
    moreover have "y / 2 ^ (Lg - p) \<le> x / 2 ^ (Lg - p)"
      using yx by (simp add: divide_right_mono)
    ultimately have "of_int k \<le> x / 2 ^ (Lg - p)" by simp
    then have "k \<le> rhe (x / 2 ^ (Lg - p))" by (rule rhe_ge)
    then have "(of_int k :: rat) \<le> of_int (rhe (x / 2 ^ (Lg - p)))"
      by (simp only: of_int_le_iff)
    then have "of_int k * 2 ^ (Lg - p) / (2 ^ w :: rat) \<le>
               of_int (rhe (x / 2 ^ (Lg - p))) * 2 ^ (Lg - p) / 2 ^ w"
      by (intro divide_right_mono mult_right_mono) simp_all
    then show ?thesis
      unfolding rq True by (subst rg) (simp add: k_def)
  next
    case False
    with L have lt: "Lg < Lq" and sp: "0 < Lq - p" by linarith+
    from sp have e: "Lq - 1 = (Lq - p) + (p - 1)" using p by simp
    from lt have "0 < Lq" by simp
    then have "2 ^ (Lq - 1) \<le> x"
      unfolding Lq_def using x0 by (intro above_bits) simp_all
    moreover have pw: "(2 :: rat) ^ (Lq - 1) = 2 ^ (Lq - p) * 2 ^ (p - 1)"
      by (subst e) (rule power_add)
    ultimately have "2 ^ (Lq - p) * 2 ^ (p - 1) \<le> x"
      by (simp only:)
    then have "of_int (2 ^ (p - 1)) \<le> x / 2 ^ (Lq - p)"
      by (simp add: pos_le_divide_eq mult.commute)
    then have "2 ^ (p - 1) \<le> rhe (x / 2 ^ (Lq - p))" by (rule rhe_ge)
    then have "(of_int (2 ^ (p - 1)) :: rat) \<le> of_int (rhe (x / 2 ^ (Lq - p)))"
      by (simp only: of_int_le_iff)
    then have "of_int (2 ^ (p - 1)) * 2 ^ (Lq - p) / (2 ^ w :: rat) \<le>
               of_int (rhe (x / 2 ^ (Lq - p))) * 2 ^ (Lq - p) / 2 ^ w"
      by (intro divide_right_mono mult_right_mono) simp_all
    moreover have "of_int (2 ^ (p - 1)) * 2 ^ (Lq - p) / (2 ^ w :: rat) = 2 ^ (Lq - 1) / 2 ^ w"
      by (simp only: pw) simp
    ultimately have a: "2 ^ (Lq - 1) / 2 ^ w \<le> round_mag p w q"
      unfolding rq by simp
    have "y < 2 ^ Lg" unfolding Lg_def using y0 by (rule below_bits)
    moreover from lt have "Lg \<le> Lq - 1" by simp
    then have "(2 :: rat) ^ Lg \<le> 2 ^ (Lq - 1)"
      by (rule power_increasing) simp
    ultimately have "y \<le> 2 ^ (Lq - 1)" by linarith
    then have "y / 2 ^ w \<le> 2 ^ (Lq - 1) / 2 ^ w"
      by (rule divide_right_mono) simp
    moreover have "y / 2 ^ w = g" by (simp add: y_def)
    ultimately show ?thesis using a by linarith
  qed
qed

text \<open>
  Adding a negative number to a finite number \<open>a\<close> of the format gives \<open>-infinity\<close> or
  a finite number that is not above \<open>a\<close> (it is \<open>a\<close> itself when the negative number is
  small against \<open>a\<close>).
\<close>

lemma fadd_negative:
  assumes n: "is_negative x" and a: "is_float p w emax a" "is_finite a" and p: "0 < p"
  shows "fadd p w emax x a = Infinite True \<or>
         is_finite (fadd p w emax x a) \<and> val (fadd p w emax x a) \<le> val a"
proof -
  from a obtain t ma where A: "a = Finite t ma" and ma: "0 \<le> ma" "ma < 2 ^ emax"
    and g: "round_mag p w ma = ma"
    by (cases a) (simp_all add: is_float_def is_finite_def)
  show ?thesis
  proof (cases x)
    case NaN
    with n show ?thesis by (simp add: is_negative_def)
  next
    case (Infinite s)
    with n show ?thesis by (simp add: is_negative_def A fadd.simps)
  next
    case (Finite s mo)
    with n have s: "s" and mo: "0 < mo" by (simp_all add: is_negative_def)
    define v where "v = - mo + val a"
    define r where "r = round_mag p w \<bar>v\<bar>"
    have r0: "0 \<le> r" unfolding r_def by (rule round_mag_nonneg) simp
    have res: "fadd p w emax x a =
        (if v = 0 then Finite t 0
         else if 2 ^ emax \<le> r then Infinite (v < 0) else Finite (v < 0) r)"
      by (simp add: Finite s A fadd.simps Let_def v_def r_def val_def round_val_def round_to_def)
    consider (zero) "v = 0" | (neg) "v < 0" | (pos) "0 < v" by linarith
    then show ?thesis
    proof cases
      case zero
      then have "0 \<le> val a" using mo by (simp add: v_def)
      with zero show ?thesis unfolding res by (simp add: is_finite_def val_def)
    next
      case neg
      have "- r \<le> val a"
      proof (cases t)
        case False
        with r0 ma show ?thesis by (simp add: A val_def)
      next
        case True
        then have "\<bar>v\<bar> = mo + ma" using mo ma by (simp add: v_def A val_def)
        then have "ma \<le> \<bar>v\<bar>" using mo by simp
        with ma(1) have "ma \<le> r" unfolding r_def using g p by (rule round_mag_ge_grid)
        with True show ?thesis by (simp add: A val_def)
      qed
      with neg show ?thesis unfolding res by (simp add: is_finite_def val_def)
    next
      case pos
      then have t: "\<not> t" using mo ma by (cases t) (simp_all add: v_def A val_def)
      then have "\<bar>v\<bar> = ma - mo" using pos by (simp add: v_def A val_def)
      then have "\<bar>v\<bar> \<le> ma" using mo by simp
      have "r \<le> ma" unfolding r_def by (rule round_mag_le_grid [OF _ \<open>\<bar>v\<bar> \<le> ma\<close> g]) simp
      with ma(2) t pos show ?thesis unfolding res by (simp add: is_finite_def val_def A)
    qed
  qed
qed

section \<open>Evaluating the arithmetic on concrete numbers\<close>

text \<open>
  Rounding a concrete number is checked, not searched: given the integer part \<open>n\<close> of
  the number in units of \<open>2^-w\<close>, its number of digits \<open>L\<close>, the shift \<open>s\<close>, and the
  integer part \<open>f\<close> of the shifted number, what is left are comparisons of numerals.
\<close>

lemma round_mag_eval':
  assumes "of_int n \<le> q * 2 ^ w" and "q * 2 ^ w < of_int n + 1"
    and "2 ^ (L - 1) \<le> nat n" and "nat n < 2 ^ L" and "0 < L" and "L - p = s"
    and "of_int f \<le> q * 2 ^ w / 2 ^ s" and "q * 2 ^ w / 2 ^ s < of_int f + 1"
    and "q * 2 ^ w / 2 ^ s - of_int f < 1 / 2 \<and> k = f \<or>
         1 / 2 < q * 2 ^ w / 2 ^ s - of_int f \<and> k = f + 1 \<or>
         q * 2 ^ w / 2 ^ s - of_int f = 1 / 2 \<and> k = (if even f then f else f + 1)"
    and "y = of_int k * 2 ^ s / 2 ^ w"
  shows "round_mag p w q = y"
proof -
  have "bits (nat n) = L"
    using assms(3-5) by (rule bits_eqI)
  with assms(6) have "bits (nat n) - p = s"
    by simp
  with assms(1,2) show ?thesis
    using assms(7-10) by (rule round_mag_eval)
qed

lemma round_to_overflow:
  fixes y :: rat
  assumes "of_int n \<le> q * 2 ^ w" and "q * 2 ^ w < of_int n + 1"
    and "2 ^ (L - 1) \<le> nat n" and "nat n < 2 ^ L" and "0 < L" and "L - p = s"
    and "of_int f \<le> q * 2 ^ w / 2 ^ s" and "q * 2 ^ w / 2 ^ s < of_int f + 1"
    and "q * 2 ^ w / 2 ^ s - of_int f < 1 / 2 \<and> k = f \<or>
         1 / 2 < q * 2 ^ w / 2 ^ s - of_int f \<and> k = f + 1 \<or>
         q * 2 ^ w / 2 ^ s - of_int f = 1 / 2 \<and> k = (if even f then f else f + 1)"
    and "y = of_int k * 2 ^ s / 2 ^ w"
    and "2 ^ emax \<le> y"
  shows "round_to p w emax sg q = Infinite sg"
  using round_mag_eval' [OF assms(1-10)] assms(11) by (simp add: round_to_def Let_def)

lemma round_to_zero [simp]: "round_to p w emax sg 0 = Finite sg 0"
  by (simp add: round_to_def not_le)

lemma ieee_ops:
  "f_add ieee = fadd 24 149 128" "f_sub ieee = fsub 24 149 128" "f_mul ieee = fmul 24 149 128"
  "f_div ieee = fdiv 24 149 128" "f_of_int ieee = fof_int 24 149 128" "f_nan ieee = NaN"
  "d_of_f ieee x = x" "d_mul ieee = fmul 53 1074 1024" "d_lit ieee = round_val 53 1074 1024"
  "f_of_d ieee = narrow 24 149 128"
  by (simp_all add: ieee_def)

lemma binary32_floats_ieee: "binary32_floats ieee"
  by (simp add: binary32_floats_def ieee_def)

declare fadd.simps [simp del] fmul.simps [simp del] fdiv.simps [simp del]

section \<open>The numbers of the examples\<close>

text \<open>
  The roundings and operations that the examples below need, each checked with the
  numbers of its rounding.
\<close>

lemma rounded_1:
  "round_to 24 149 128 False 25 = Finite False 25"
  apply (rule round_to_eval' [where n = 17840596158824498513228574618118689204784332800 and L = 154 and s = 130
        and f = 13107200 and k = 13107200])
            apply simp_all
  done

lemma computed_2:
  "fsub 24 149 128 (Finite False 25) (Finite False 0) = Finite False 25"
  by (simp add: fsub_def fadd.simps val_def round_val_def Let_def rounded_1)

lemma rounded_3:
  "round_to 24 149 128 False 13421772 = Finite False 13421772"
  apply (rule round_to_eval' [where n = 9578096559512728282355716496375044617819064960548864 and L = 173 and s = 149
        and f = 13421772 and k = 13421772])
            apply simp_all
  done

lemma computed_4:
  "fof_int 24 149 128 13421772 = Finite False 13421772"
  by (simp add: fof_int_def round_val_def rounded_3)

lemma rounded_5:
  "round_to 24 149 128 False (25 / 13421772) = Finite False (16384001 / 8796093022208)"
  apply (rule round_to_eval' [where n = 1329228075013083109534908998462996481000 and L = 130 and s = 106
        and f = 16384000 and k = 16384001])
            apply simp_all
  done

lemma computed_6:
  "fdiv 24 149 128 (Finite False 25) (Finite False 13421772) = Finite False (16384001 / 8796093022208)"
  by (simp add: fdiv.simps val_def round_val_def Let_def rounded_5)

lemma computed_7:
  "is_float32 (Finite False 0)"
  by (simp add: is_float32_def is_float_def)

lemma rounded_8:
  "round_mag 24 149 25 = 25"
  apply (rule round_mag_eval' [where n = 17840596158824498513228574618118689204784332800 and L = 154 and s = 130
        and f = 13107200 and k = 13107200])
           apply simp_all
  done

lemma computed_9:
  "is_float32 (Finite False 25)"
  by (simp add: is_float32_def is_float_def rounded_8)

lemma rounded_10:
  "round_mag 24 149 (16384001 / 8796093022208) = 16384001 / 8796093022208"
  apply (rule round_mag_eval' [where n = 1329228076914554287510488756069349720064 and L = 130 and s = 106
        and f = 16384001 and k = 16384001])
           apply simp_all
  done

lemma computed_11:
  "is_float32 (Finite False (16384001 / 8796093022208))"
  by (simp add: is_float32_def is_float_def rounded_10)

lemma rounded_12:
  "round_to 24 149 128 False 13399494 = Finite False 13399494"
  apply (rule round_to_eval' [where n = 9562198447463676595240608248961346691494897545904128 and L = 173 and s = 149
        and f = 13399494 and k = 13399494])
            apply simp_all
  done

lemma computed_13:
  "fof_int 24 149 128 13399494 = Finite False 13399494"
  by (simp add: fof_int_def round_val_def rounded_12)

lemma rounded_14:
  "round_to 24 149 128 False (25 / 13399494) = Finite False (16411241 / 8796093022208)"
  apply (rule round_to_eval' [where n = 1331438049737139216841216139812345839685 and L = 130 and s = 106
        and f = 16411241 and k = 16411241])
            apply simp_all
  done

lemma computed_15:
  "fdiv 24 149 128 (Finite False 25) (Finite False 13399494) = Finite False (16411241 / 8796093022208)"
  by (simp add: fdiv.simps val_def round_val_def Let_def rounded_14)

lemma rounded_16:
  "round_to 24 149 128 False 4294967295 = Finite False 4294967296"
  apply (rule round_to_eval' [where n = 3064991081018153870363714113771475382512730676175831040 and L = 181 and s = 157
        and f = 16777215 and k = 16777216])
            apply simp_all
  done

lemma computed_17:
  "fof_int 24 149 128 4294967295 = Finite False 4294967296"
  by (simp add: fof_int_def round_val_def rounded_16)

lemma rounded_18:
  "round_to 24 149 128 False (25 / 4294967296) = Finite False (25 / 4294967296)"
  apply (rule round_to_eval' [where n = 4153837486827862102824397063376076800 and L = 122 and s = 98
        and f = 13107200 and k = 13107200])
            apply simp_all
  done

lemma computed_19:
  "fdiv 24 149 128 (Finite False 25) (Finite False 4294967296) = Finite False (25 / 4294967296)"
  by (simp add: fdiv.simps val_def round_val_def Let_def rounded_18)

lemma rounded_20:
  "round_to 24 149 128 True 629146 = Finite True 629146"
  apply (rule round_to_eval' [where n = 448973588437591917664148192267636033537329753751552 and L = 169 and s = 145
        and f = 10066336 and k = 10066336])
            apply simp_all
  done

lemma computed_21:
  "fof_int 24 149 128 (- 629146) = Finite True 629146"
  by (simp add: fof_int_def round_val_def rounded_20)

lemma rounded_22:
  "round_to 24 149 128 True (5153964346573 / 4398046511104) = Finite True (9830407 / 8388608)"
  apply (rule round_to_eval' [where n = 836278527678484171770073958926007098979385344 and L = 150 and s = 126
        and f = 9830406 and k = 9830407])
            apply simp_all
  done

lemma computed_23:
  "fmul 24 149 128 (Finite True 629146) (Finite False (16384001 / 8796093022208)) = Finite True (9830407 / 8388608)"
  by (simp add: fmul.simps val_def round_val_def Let_def rounded_22)

lemma rounded_24:
  "round_to 24 149 128 True (9830407 / 8388608) = Finite True (9830407 / 8388608)"
  apply (rule round_to_eval' [where n = 836278540439040479449900496129876562068635648 and L = 150 and s = 126
        and f = 9830407 and k = 9830407])
            apply simp_all
  done

lemma computed_25:
  "fadd 24 149 128 (Finite True (9830407 / 8388608)) (Finite False 0) = Finite True (9830407 / 8388608)"
  by (simp add: fadd.simps val_def round_val_def Let_def rounded_24)

lemma rounded_26:
  "round_to 24 149 128 False 2162583141 = Finite False 2162583040"
  apply (rule round_to_eval' [where n = 1543270899138528754499507237944159616451411786168532992 and L = 181 and s = 157
        and f = 8447590 and k = 8447590])
            apply simp_all
  done

lemma computed_27:
  "fof_int 24 149 128 2162583141 = Finite False 2162583040"
  by (simp add: fof_int_def round_val_def rounded_26)

lemma rounded_28:
  "round_to 24 149 128 False (5 / 432516608) = Finite False (3253921 / 281474976710656)"
  apply (rule round_to_eval' [where n = 8249669875717002993433525964449757825 and L = 123 and s = 99
        and f = 13015684 and k = 13015684])
            apply simp_all
  done

lemma computed_29:
  "fdiv 24 149 128 (Finite False 25) (Finite False 2162583040) = Finite False (3253921 / 281474976710656)"
  by (simp add: fdiv.simps val_def round_val_def Let_def rounded_28)

lemma rounded_30:
  "round_to 24 149 128 False 2147483647 = Finite False 2147483648"
  apply (rule round_to_eval' [where n = 1532495540152265012005367086621166198893991553992228864 and L = 180 and s = 156
        and f = 16777215 and k = 16777216])
            apply simp_all
  done

lemma computed_31:
  "fof_int 24 149 128 2147483647 = Finite False 2147483648"
  by (simp add: fof_int_def round_val_def rounded_30)

lemma rounded_32:
  "round_to 24 149 128 False (3253921 / 131072) = Finite False (3253921 / 131072)"
  apply (rule round_to_eval' [where n = 17716031034459952095539317855823786406225903616 and L = 154 and s = 130
        and f = 13015684 and k = 13015684])
            apply simp_all
  done

lemma computed_33:
  "fmul 24 149 128 (Finite False 2147483648) (Finite False (3253921 / 281474976710656)) = Finite False (3253921 / 131072)"
  by (simp add: fmul.simps val_def round_val_def Let_def rounded_32)

lemma computed_34:
  "fadd 24 149 128 (Finite False (3253921 / 131072)) (Finite False 0) = Finite False (3253921 / 131072)"
  by (simp add: fadd.simps val_def round_val_def Let_def rounded_32)

lemma rounded_35:
  "round_to 24 149 128 True 6710886 = Finite True 6710886"
  apply (rule round_to_eval' [where n = 4789048279756364141177858248187522308909532480274432 and L = 172 and s = 148
        and f = 13421772 and k = 13421772])
            apply simp_all
  done

lemma computed_36:
  "fmul 24 149 128 (Finite True (1 / 2)) (Finite False 13421772) = Finite True 6710886"
  by (simp add: fmul.simps val_def round_val_def Let_def rounded_35)

lemma computed_37:
  "fadd 24 149 128 (Finite False 0) (Finite True 6710886) = Finite True 6710886"
  by (simp add: fadd.simps val_def round_val_def Let_def rounded_35)

lemma rounded_38:
  "round_to 24 149 128 True 1677722 = Finite True 1677722"
  apply (rule round_to_eval' [where n = 1197262426751014211784434826618372939601167215755264 and L = 170 and s = 146
        and f = 13421776 and k = 13421776])
            apply simp_all
  done

lemma computed_39:
  "fof_int 24 149 128 (- 1677722) = Finite True 1677722"
  by (simp add: fof_int_def round_val_def rounded_38)

lemma rounded_40:
  "round_to 24 149 128 False 838861 = Finite False 838861"
  apply (rule round_to_eval' [where n = 598631213375507105892217413309186469800583607877632 and L = 169 and s = 145
        and f = 13421776 and k = 13421776])
            apply simp_all
  done

lemma computed_41:
  "fmul 24 149 128 (Finite True 1677722) (Finite True (1 / 2)) = Finite False 838861"
  by (simp add: fmul.simps val_def round_val_def Let_def rounded_40)

lemma computed_42:
  "fadd 24 149 128 (Finite False 838861) (Finite False 0) = Finite False 838861"
  by (simp add: fadd.simps val_def round_val_def Let_def rounded_40)

lemma rounded_43:
  "round_mag 24 149 (1 / 2) = 1 / 2"
  apply (rule round_mag_eval' [where n = 356811923176489970264571492362373784095686656 and L = 149 and s = 125
        and f = 8388608 and k = 8388608])
           apply simp_all
  done

lemma computed_44:
  "is_float32 (Finite True (1 / 2))"
  by (simp add: is_float32_def is_float_def rounded_43)

lemma rounded_45:
  "round_to 24 149 128 False 6710886 = Finite False 6710886"
  apply (rule round_to_eval' [where n = 4789048279756364141177858248187522308909532480274432 and L = 172 and s = 148
        and f = 13421772 and k = 13421772])
            apply simp_all
  done

lemma computed_46:
  "fof_int 24 149 128 6710886 = Finite False 6710886"
  by (simp add: fof_int_def round_val_def rounded_45)

lemma rounded_47:
  "round_to 24 149 128 False (54975581467443 / 4398046511104) = Finite False (25 / 2)"
  apply (rule round_to_eval' [where n = 8920298092172805564294113846263214065481416704 and L = 153 and s = 129
        and f = 13107200 and k = 13107200])
            apply simp_all
  done

lemma computed_48:
  "fmul 24 149 128 (Finite False 6710886) (Finite False (16384001 / 8796093022208)) = Finite False (25 / 2)"
  by (simp add: fmul.simps val_def round_val_def Let_def rounded_47)

lemma rounded_49:
  "round_to 24 149 128 False (25 / 2) = Finite False (25 / 2)"
  apply (rule round_to_eval' [where n = 8920298079412249256614287309059344602392166400 and L = 153 and s = 129
        and f = 13107200 and k = 13107200])
            apply simp_all
  done

lemma computed_50:
  "fadd 24 149 128 (Finite False (25 / 2)) (Finite False 0) = Finite False (25 / 2)"
  by (simp add: fadd.simps val_def round_val_def Let_def rounded_49)

lemma rounded_51:
  "round_to 53 1074 1024 False (68947573 / 10000) = Finite False (7580865822043459 / 1099511627776)"
  apply (rule round_to_eval' [where n = 1395514413527029029253381265006286150876272172724862148778709643639538933977914764349376166836284634604199919970666748438781836937694482490921221768439226408672504688108053138952096172763223720649242179251454011912506901598997028984053868023516539089945561425051998166589968542452287198516460166550427864799786540094170883144495 and L = 1087 and s = 1034
        and f = 7580865822043458 and k = 7580865822043459])
            apply simp_all
  done

lemma computed_52:
  "round_val 53 1074 1024 (68947573 / 10000) = Finite False (7580865822043459 / 1099511627776)"
  by (simp add: round_val_def rounded_51)

lemma rounded_53:
  "round_to 53 1074 1024 False (189521645551086475 / 2199023255552) = Finite False (1480637855867863 / 17179869184)"
  apply (rule round_to_eval' [where n = 17443930169087863406873570221687954803307105677241407063827547917949284235821599684590886558462537501359332487380565999228143003906803017969761398507420437120473069387325884123634111388703331861539937483370616261167009682216497829734056268526881791074423371882942824196871120227241716010711332814429843028682462102890640257843200 and L = 1091 and s = 1038
        and f = 5922551423471452 and k = 5922551423471452])
            apply simp_all
  done

lemma computed_54:
  "fmul 53 1074 1024 (Finite False (25 / 2)) (Finite False (7580865822043459 / 1099511627776)) = Finite False (1480637855867863 / 17179869184)"
  by (simp add: fmul.simps val_def round_val_def Let_def rounded_53)

lemma rounded_55:
  "round_to 24 149 128 False (1480637855867863 / 17179869184) = Finite False (2757903 / 32)"
  apply (rule round_to_eval' [where n = 61503290301203583609925935977289431200800161398784 and L = 166 and s = 142
        and f = 11031611 and k = 11031612])
            apply simp_all
  done

lemma computed_56:
  "narrow 24 149 128 (Finite False (1480637855867863 / 17179869184)) = Finite False (2757903 / 32)"
  by (simp add: narrow_def rounded_55)

lemma rounded_57:
  "round_to 53 1074 1024 False (172369 / 25000) = Finite False (3881404820851125 / 562949953421312)"
  apply (rule round_to_eval' [where n = 1395514960013112958992050816743722291953001206527816511962429207273205608039831597936812775129320628484436056975776982094173997690178073432563609309375406248666481476205098685681271856823874624300926300598826743788918586716417234230724154292395599342676363545239150749958646333752506659638817003453512138144003451024981784096 and L = 1077 and s = 1024
        and f = 7762809641702250 and k = 7762809641702250])
            apply simp_all
  done

lemma computed_58:
  "round_val 53 1074 1024 (172369 / 25000) = Finite False (3881404820851125 / 562949953421312)"
  by (simp add: round_val_def rounded_57)

lemma rounded_59:
  "round_to 53 1074 1024 False (97035120521278125 / 1125899906842624) = Finite False (6064695032579883 / 70368744177664)"
  apply (rule round_to_eval' [where n = 17443937000163911425082222624364112711685851402790769723827166077761574149208601112822349769509495176943333647706439602113458754889507495150350719515697382950704255412288672517357927577319194859488235844787551891712238859833317382958316594287721098533054334543781786527522681750520392350930227247604349125275048538747699200000 and L = 1081 and s = 1028
        and f = 6064695032579882 and k = 6064695032579883])
            apply simp_all
  done

lemma computed_60:
  "fmul 53 1074 1024 (Finite False (25 / 2)) (Finite False (3881404820851125 / 562949953421312)) = Finite False (6064695032579883 / 70368744177664)"
  by (simp add: fmul.simps val_def round_val_def Let_def rounded_59)

lemma rounded_61:
  "round_to 24 149 128 False (6064695032579883 / 70368744177664) = Finite False (11296375 / 131072)"
  apply (rule round_to_eval' [where n = 61503314386008399603404285152403325095000408064 and L = 156 and s = 132
        and f = 11296374 and k = 11296375])
            apply simp_all
  done

lemma computed_62:
  "narrow 24 149 128 (Finite False (6064695032579883 / 70368744177664)) = Finite False (11296375 / 131072)"
  by (simp add: narrow_def rounded_61)

lemma rounded_63:
  "round_to 53 1074 1024 False (517149 / 10000) = Finite False (909778142068369 / 17592186044416)"
  apply (rule round_to_eval' [where n = 10467212289562237897037461606034136642337117186887633236615318040252757267724922564983042047081450749556150213045357496316332819873032571076829911276595297966740281444720201721327269687191576473765580461515450163946177360804559640439765353227060721540209357991530982531521967303485183915401762708476877349306331775059875973405 and L = 1080 and s = 1027
        and f = 7278225136546951 and k = 7278225136546952])
            apply simp_all
  done

lemma computed_64:
  "round_val 53 1074 1024 (517149 / 10000) = Finite False (909778142068369 / 17592186044416)"
  by (simp add: round_val_def rounded_63)

lemma rounded_65:
  "round_to 53 1074 1024 False (22744453551709225 / 35184372088832) = Finite False (2843056693963653 / 4398046511104)"
  apply (rule round_to_eval' [where n = 130840153619527973943072991337803144218565029257090581360792528807774707156552035944185850619559367179318728635748614810987906014648290636263624795039894501375098229277529400720133774673722527075736596858538127522227163188725802889609899788736611507539225756386396145213113244969835260689654508657215003736518403290167456563200 and L = 1084 and s = 1031
        and f = 5686113387927306 and k = 5686113387927306])
            apply simp_all
  done

lemma computed_66:
  "fmul 53 1074 1024 (Finite False (25 / 2)) (Finite False (909778142068369 / 17592186044416)) = Finite False (2843056693963653 / 4398046511104)"
  by (simp add: fmul.simps val_def round_val_def Let_def rounded_65)

lemma rounded_67:
  "round_to 24 149 128 False (2843056693963653 / 4398046511104) = Finite False (2647803 / 4096)"
  apply (rule round_to_eval' [where n = 461312323146996509609768987253669493188889411584 and L = 159 and s = 135
        and f = 10591211 and k = 10591212])
            apply simp_all
  done

lemma computed_68:
  "narrow 24 149 128 (Finite False (2843056693963653 / 4398046511104)) = Finite False (2647803 / 4096)"
  by (simp add: narrow_def rounded_67)

lemma rounded_69:
  "round_to 53 1074 1024 False (101801 / 50000) = Finite False (4584709456659439 / 2251799813685248)"
  apply (rule round_to_eval' [where n = 412095035778750565178047575826650015499038330052788635817018302971008719967229886178969180423800014214690794273306315387827878385492223234770776622547342420970407906175574643065281913501056630335090991788724078414493618476402342828240430794168801839901016091260292701983941878824901607765582006534153441672219759115021177250 and L = 1076 and s = 1023
        and f = 4584709456659438 and k = 4584709456659439])
            apply simp_all
  done

lemma computed_70:
  "round_val 53 1074 1024 (101801 / 50000) = Finite False (4584709456659439 / 2251799813685248)"
  by (simp add: round_val_def rounded_69)

lemma rounded_71:
  "round_to 53 1074 1024 False (114617736416485975 / 4503599627370496) = Finite False (7163608526030373 / 281474976710656)"
  apply (rule round_to_eval' [where n = 5151187947234382477116399835248394426840589892662131839676647756502736784838979753075873053116709604116881906019216574797389720243629152903898437442113512260722104714148324360915571435404631103025929162617590890206542523038032519067723050220719873099919376721411340827525344995752238259508757264549387224195054409095734886400 and L = 1079 and s = 1026
        and f = 7163608526030373 and k = 7163608526030373])
            apply simp_all
  done

lemma computed_72:
  "fmul 53 1074 1024 (Finite False (25 / 2)) (Finite False (4584709456659439 / 2251799813685248)) = Finite False (7163608526030373 / 281474976710656)"
  by (simp add: fmul.simps val_def round_val_def Let_def rounded_71)

lemma rounded_73:
  "round_to 24 149 128 False (7163608526030373 / 281474976710656) = Finite False (13343261 / 524288)"
  apply (rule round_to_eval' [where n = 18161905295644928076252784509069404004465770496 and L = 154 and s = 130
        and f = 13343260 and k = 13343261])
            apply simp_all
  done

lemma computed_74:
  "narrow 24 149 128 (Finite False (7163608526030373 / 281474976710656)) = Finite False (13343261 / 524288)"
  by (simp add: narrow_def rounded_73)

lemma rounded_75:
  "round_to 53 1074 1024 False (1361 / 20000) = Finite False (1225879818570249 / 18014398509481984)"
  apply (rule round_to_eval' [where n = 13773473337562487578887308344222322744722330016449871154187137413766634607602083355997904110882796321897480648666759050570076484579103246100800261865967255600159260722020340890851973071849443372021366190520070301915644609247050338140961933351925307808992124345666014268036288864566435697315279586963360726218089511781412320 and L = 1071 and s = 1018
        and f = 4903519274280996 and k = 4903519274280996])
            apply simp_all
  done

lemma computed_76:
  "round_val 53 1074 1024 (1361 / 20000) = Finite False (1225879818570249 / 18014398509481984)"
  by (simp add: round_val_def rounded_75)

lemma rounded_77:
  "round_to 53 1074 1024 False (30646995464256225 / 36028797018963968) = Finite False (957718608258007 / 1125899906842624)"
  apply (rule round_to_eval' [where n = 172168416719531093163109861298252615045887083265226747511609361097564681452512831819812888087901526612519331537268547947324959608364098696745592796198445248189575740929855672830180595930545045982622655870597555228731081784844328749428205696402516134715661837088586853171136642316950336616902592875344491410416751013055692800 and L = 1074 and s = 1021
        and f = 7661748866064056 and k = 7661748866064056])
            apply simp_all
  done

lemma computed_78:
  "fmul 53 1074 1024 (Finite False (25 / 2)) (Finite False (1225879818570249 / 18014398509481984)) = Finite False (957718608258007 / 1125899906842624)"
  by (simp add: fmul.simps val_def round_val_def Let_def rounded_77)

lemma rounded_79:
  "round_to 24 149 128 False (957718608258007 / 1125899906842624) = Finite False (14271119 / 16777216)"
  apply (rule round_to_eval' [where n = 607026284304003536559590246816900370258722816 and L = 149 and s = 125
        and f = 14271119 and k = 14271119])
            apply simp_all
  done

lemma computed_80:
  "narrow 24 149 128 (Finite False (957718608258007 / 1125899906842624)) = Finite False (14271119 / 16777216)"
  by (simp add: narrow_def rounded_79)

lemma rounded_81:
  "round_to 53 1074 1024 False (1379 / 20000) = Finite False (4968371108915131 / 72057594037927936)"
  apply (rule round_to_eval' [where n = 13955635365539067135404554156269348321066931001237599060708348635991321913213279168200668456214089733943149018744644181290327312442750460229980573925913920259088626403869250616079993288817327266728481981430695772477350415982132561569718226372009551409698853396527137160633388937720143149594247281721142131855066448748396465 and L = 1071 and s = 1018
        and f = 4968371108915131 and k = 4968371108915131])
            apply simp_all
  done

lemma computed_82:
  "round_val 53 1074 1024 (1379 / 20000) = Finite False (4968371108915131 / 72057594037927936)"
  by (simp add: round_val_def rounded_81)

lemma rounded_83:
  "round_to 53 1074 1024 False (124209277722878275 / 144115188075855872) = Finite False (1940769964419973 / 2251799813685248)"
  apply (rule round_to_eval' [where n = 174445442069238332619741402613024316378064533693098305968126028692083117355378647272907396564047157134635660633782516493924927672736561113475256251796816243343873647292592960138861312763572285419306120597323380913463534764168633596476593506503820288731287563307593355722914314816315259971856911395849649252645614807469260800 and L = 1074 and s = 1021
        and f = 7763079857679892 and k = 7763079857679892])
            apply simp_all
  done

lemma computed_84:
  "fmul 53 1074 1024 (Finite False (25 / 2)) (Finite False (4968371108915131 / 72057594037927936)) = Finite False (1940769964419973 / 2251799813685248)"
  by (simp add: fmul.simps val_def round_val_def Let_def rounded_83)

lemma rounded_85:
  "round_to 24 149 128 False (1940769964419973 / 2251799813685248) = Finite False (14459863 / 16777216)"
  apply (rule round_to_eval' [where n = 615054552575474548214037103112759765433843712 and L = 149 and s = 125
        and f = 14459863 and k = 14459863])
            apply simp_all
  done

lemma computed_86:
  "narrow 24 149 128 (Finite False (1940769964419973 / 2251799813685248)) = Finite False (14459863 / 16777216)"
  by (simp add: narrow_def rounded_85)

lemma rounded_87:
  "round_to 24 149 128 False 8388608 = Finite False 8388608"
  apply (rule round_to_eval' [where n = 5986310706507378352962293074805895248510699696029696 and L = 173 and s = 149
        and f = 8388608 and k = 8388608])
            apply simp_all
  done

lemma computed_88:
  "fof_int 24 149 128 8388608 = Finite False 8388608"
  by (simp add: fof_int_def round_val_def rounded_87)

lemma computed_89:
  "fof_int 24 149 128 0 = Finite False 0"
  by (simp add: fof_int_def round_val_def)

lemma rounded_90:
  "round_mag 24 149 30 = 30"
  apply (rule round_mag_eval' [where n = 21408715390589398215874289541742427045741199360 and L = 154 and s = 130
        and f = 15728640 and k = 15728640])
           apply simp_all
  done

lemma computed_91:
  "is_float32 (Finite False 30)"
  by (simp add: is_float32_def is_float_def rounded_90)

lemma rounded_92:
  "round_to 24 149 128 False 30 = Finite False 30"
  apply (rule round_to_eval' [where n = 21408715390589398215874289541742427045741199360 and L = 154 and s = 130
        and f = 15728640 and k = 15728640])
            apply simp_all
  done

lemma computed_93:
  "fsub 24 149 128 (Finite False 30) (Finite False 0) = Finite False 30"
  by (simp add: fsub_def fadd.simps val_def round_val_def Let_def rounded_92)

lemma rounded_94:
  "round_to 24 149 128 False (5 / 2236962) = Finite False (9830401 / 4398046511104)"
  apply (rule round_to_eval' [where n = 1595073690015699731441890798155595777200 and L = 131 and s = 107
        and f = 9830400 and k = 9830401])
            apply simp_all
  done

lemma computed_95:
  "fdiv 24 149 128 (Finite False 30) (Finite False 13421772) = Finite False (9830401 / 4398046511104)"
  by (simp add: fdiv.simps val_def round_val_def Let_def rounded_94)

lemma computed_96:
  "fmul 24 149 128 (Finite False 0) (Finite False (9830401 / 4398046511104)) = Finite False 0"
  by (simp add: fmul.simps val_def round_val_def Let_def)

lemma computed_97:
  "fadd 24 149 128 (Finite False 0) (Finite False 0) = Finite False 0"
  by (simp add: fadd.simps val_def round_val_def Let_def)

lemma rounded_98:
  "round_to 24 149 128 False (32985350222643 / 1099511627776) = Finite False (15728641 / 524288)"
  apply (rule round_to_eval' [where n = 21408716292337540748939754348994423477518729216 and L = 154 and s = 130
        and f = 15728640 and k = 15728641])
            apply simp_all
  done

lemma computed_99:
  "fmul 24 149 128 (Finite False 13421772) (Finite False (9830401 / 4398046511104)) = Finite False (15728641 / 524288)"
  by (simp add: fmul.simps val_def round_val_def Let_def rounded_98)

lemma rounded_100:
  "round_to 24 149 128 False (15728641 / 524288) = Finite False (15728641 / 524288)"
  apply (rule round_to_eval' [where n = 21408716751718865899628143395240856772814045184 and L = 154 and s = 130
        and f = 15728641 and k = 15728641])
            apply simp_all
  done

lemma computed_101:
  "fadd 24 149 128 (Finite False (15728641 / 524288)) (Finite False 0) = Finite False (15728641 / 524288)"
  by (simp add: fadd.simps val_def round_val_def Let_def rounded_100)

lemma rounded_102:
  "round_to 24 149 128 False (1 / 500000) = Finite False (8796093 / 4398046511104)"
  apply (rule round_to_eval' [where n = 1427247692705959881058285969449495136382 and L = 131 and s = 107
        and f = 8796093 and k = 8796093])
            apply simp_all
  done

lemma rounded_103:
  "round_mag 24 149 (8796093 / 4398046511104) = 8796093 / 4398046511104"
  apply (rule round_mag_eval' [where n = 1427247689102505861235115595249330683904 and L = 131 and s = 107
        and f = 8796093 and k = 8796093])
           apply simp_all
  done

lemma computed_104:
  "is_float32 (Finite False (8796093 / 4398046511104))"
  by (simp add: is_float32_def is_float_def rounded_103)

lemma rounded_105:
  "round_to 24 149 128 False (29514788684199 / 1099511627776) = Finite False (3518437 / 131072)"
  apply (rule round_to_eval' [where n = 19156193070660718298161359913080799591963557888 and L = 154 and s = 130
        and f = 14073747 and k = 14073748])
            apply simp_all
  done

lemma computed_106:
  "fmul 24 149 128 (Finite False (8796093 / 4398046511104)) (Finite False 13421772) = Finite False (3518437 / 131072)"
  by (simp add: fmul.simps val_def round_val_def Let_def rounded_105)

lemma rounded_107:
  "round_to 24 149 128 False (3518437 / 131072) = Finite False (3518437 / 131072)"
  apply (rule round_to_eval' [where n = 19156193123555295433162965818374532009769828352 and L = 154 and s = 130
        and f = 14073748 and k = 14073748])
            apply simp_all
  done

lemma computed_108:
  "fadd 24 149 128 (Finite False 0) (Finite False (3518437 / 131072)) = Finite False (3518437 / 131072)"
  by (simp add: fadd.simps val_def round_val_def Let_def rounded_107)

lemma rounded_109:
  "round_to 24 149 128 False (3518437 / 1756298477568) = Finite False (8810717 / 4398046511104)"
  apply (rule round_to_eval' [where n = 1429620635193783842372179562778604327131 and L = 131 and s = 107
        and f = 8810717 and k = 8810717])
            apply simp_all
  done

lemma computed_110:
  "fdiv 24 149 128 (Finite False (3518437 / 131072)) (Finite False 13399494) = Finite False (8810717 / 4398046511104)"
  by (simp add: fdiv.simps val_def round_val_def Let_def rounded_109)

lemma computed_111:
  "fmul 24 149 128 (Finite False 0) (Finite False (8810717 / 4398046511104)) = Finite False 0"
  by (simp add: fmul.simps val_def round_val_def Let_def)

lemma rounded_112:
  "round_to 24 149 128 False (59029574788599 / 2199023255552) = Finite False (14073747 / 524288)"
  apply (rule round_to_eval' [where n = 19156192233468078088705748584621680865358905344 and L = 154 and s = 130
        and f = 14073747 and k = 14073747])
            apply simp_all
  done

lemma computed_113:
  "fmul 24 149 128 (Finite False 13399494) (Finite False (8810717 / 4398046511104)) = Finite False (14073747 / 524288)"
  by (simp add: fmul.simps val_def round_val_def Let_def rounded_112)

lemma rounded_114:
  "round_to 24 149 128 False (14073747 / 524288) = Finite False (14073747 / 524288)"
  apply (rule round_to_eval' [where n = 19156191762425827749409111964876102282696982528 and L = 154 and s = 130
        and f = 14073747 and k = 14073747])
            apply simp_all
  done

lemma computed_115:
  "fadd 24 149 128 (Finite False (14073747 / 524288)) (Finite False 0) = Finite False (14073747 / 524288)"
  by (simp add: fadd.simps val_def round_val_def Let_def rounded_114)

lemma rounded_116:
  "round_to 24 149 128 True 1 = Finite True 1"
  apply (rule round_to_eval' [where n = 713623846352979940529142984724747568191373312 and L = 150 and s = 126
        and f = 8388608 and k = 8388608])
            apply simp_all
  done

lemma computed_117:
  "fof_int 24 149 128 (- 1) = Finite True 1"
  by (simp add: fof_int_def round_val_def rounded_116)

lemma rounded_118:
  "round_to 24 149 128 True (25 / 4294967296) = Finite True (25 / 4294967296)"
  apply (rule round_to_eval' [where n = 4153837486827862102824397063376076800 and L = 122 and s = 98
        and f = 13107200 and k = 13107200])
            apply simp_all
  done

lemma computed_119:
  "fmul 24 149 128 (Finite True 1) (Finite False (25 / 4294967296)) = Finite True (25 / 4294967296)"
  by (simp add: fmul.simps val_def round_val_def Let_def rounded_118)

lemma computed_120:
  "fadd 24 149 128 (Finite True (25 / 4294967296)) (Finite False 0) = Finite True (25 / 4294967296)"
  by (simp add: fadd.simps val_def round_val_def Let_def rounded_118)

lemma rounded_121:
  "round_to 24 149 128 False 300000000000000000000000000000000000000 = Finite False 300000000549775575777803994281145270272"
  apply (rule round_to_eval' [where n = 214087153905893982158742895417424270457411993600000000000000000000000000000000000000 and L = 277 and s = 253
        and f = 14791141 and k = 14791142])
            apply simp_all
  done

lemma rounded_122:
  "round_mag 24 149 300000000549775575777803994281145270272 = 300000000549775575777803994281145270272"
  apply (rule round_mag_eval' [where n = 214087154298226943176223573292921759842578938440914012958463841004746528021087780864 and L = 277 and s = 253
        and f = 14791142 and k = 14791142])
           apply simp_all
  done

lemma computed_123:
  "is_float32 (Finite False 300000000549775575777803994281145270272)"
  by (simp add: is_float32_def is_float_def rounded_122)

lemma computed_124:
  "is_float32 (Finite True 300000000549775575777803994281145270272)"
  by (simp add: is_float32_def is_float_def rounded_122)

lemma rounded_125:
  "round_to 24 149 128 False 600000001099551151555607988562290540544 = Infinite False"
  apply (rule round_to_overflow [where n = 428174308596453886352447146585843519685157876881828025916927682009493056042175561728 and L = 278 and s = 254
        and f = 14791142 and k = 14791142 and y = "600000001099551151555607988562290540544"])
            apply simp_all
  done

lemma computed_126:
  "fsub 24 149 128 (Finite False 300000000549775575777803994281145270272) (Finite True 300000000549775575777803994281145270272) = Infinite False"
  by (simp add: fsub_def fadd.simps val_def round_val_def Let_def rounded_125)

lemma computed_127:
  "fdiv 24 149 128 (Infinite False) (Finite False 13421772) = Infinite False"
  by (simp add: fdiv.simps val_def round_val_def Let_def)

lemma computed_128:
  "fmul 24 149 128 (Finite False 0) (Infinite False) = NaN"
  by (simp add: fmul.simps val_def round_val_def Let_def)

lemma computed_129:
  "fadd 24 149 128 NaN (Finite True 300000000549775575777803994281145270272) = NaN"
  by (simp add: fadd.simps val_def round_val_def Let_def)

lemma computed_130:
  "fmul 24 149 128 (Finite False 13421772) (Infinite False) = Infinite False"
  by (simp add: fmul.simps val_def round_val_def Let_def)

lemma computed_131:
  "fadd 24 149 128 (Infinite False) (Finite True 300000000549775575777803994281145270272) = Infinite False"
  by (simp add: fadd.simps val_def round_val_def Let_def)

lemma rounded_132:
  "round_to 24 149 128 False 4026531607378962429258407871930835716469161984 = Infinite False"
  apply (rule round_to_overflow [where n = 2873428973119622035568228621762885074445850403755983353533547144209958816890651386742571008 and L = 301 and s = 277
        and f = 11832912 and k = 11832913 and y = "4026531643209542716515790416149266682324451328"])
            apply simp_all
  done

lemma computed_133:
  "fmul 24 149 128 (Finite False 300000000549775575777803994281145270272) (Finite False 13421772) = Infinite False"
  by (simp add: fmul.simps val_def round_val_def Let_def rounded_132)

lemma computed_134:
  "fadd 24 149 128 (Finite False 0) (Infinite False) = Infinite False"
  by (simp add: fadd.simps val_def round_val_def Let_def)

lemma computed_135:
  "fdiv 24 149 128 (Infinite False) (Finite False 13399494) = Infinite False"
  by (simp add: fdiv.simps val_def round_val_def Let_def)

lemma computed_136:
  "fadd 24 149 128 NaN (Finite False 0) = NaN"
  by (simp add: fadd.simps val_def round_val_def Let_def)

lemma computed_137:
  "fsub 24 149 128 (Finite False 25) NaN = NaN"
  by (simp add: fsub_def fadd.simps val_def round_val_def Let_def)

lemma computed_138:
  "fdiv 24 149 128 NaN (Finite False 13421772) = NaN"
  by (simp add: fdiv.simps val_def round_val_def Let_def)

lemma computed_139:
  "fadd 24 149 128 NaN (Finite False (3518437 / 131072)) = NaN"
  by (simp add: fadd.simps val_def round_val_def Let_def)

lemma computed_140:
  "fmul 24 149 128 (Finite False 0) (Finite False (8796093 / 4398046511104)) = Finite False 0"
  by (simp add: fmul.simps val_def round_val_def Let_def)

lemma computed_141:
  "fadd 24 149 128 (Finite False 0) NaN = NaN"
  by (simp add: fadd.simps val_def round_val_def Let_def)

lemma rounded_142:
  "round_mag 24 149 170141183460469231731687303715884105728 = 170141183460469231731687303715884105728"
  apply (rule round_mag_eval' [where n = 121416805764108066932466369176469931665150427440758720078238275608681517825325531136 and L = 277 and s = 253
        and f = 8388608 and k = 8388608])
           apply simp_all
  done

lemma computed_143:
  "is_float32 (Finite False 170141183460469231731687303715884105728)"
  by (simp add: is_float32_def is_float_def rounded_142)

lemma rounded_144:
  "round_mag 24 149 12676506002282294014967032053760 = 12676506002282294014967032053760"
  apply (rule round_mag_eval' [where n = 9046256971665327767466483203803742801036717552003169065582623750618213253120 and L = 253 and s = 229
        and f = 10485760 and k = 10485760])
           apply simp_all
  done

lemma computed_145:
  "is_float32 (Finite False 12676506002282294014967032053760)"
  by (simp add: is_float32_def is_float_def rounded_144)

lemma computed_146:
  "fsub 24 149 128 (Finite False 170141183460469231731687303715884105728) (Finite False 170141183460469231731687303715884105728) = Finite False 0"
  by (simp add: fsub_def fadd.simps val_def round_val_def Let_def)

lemma computed_147:
  "fdiv 24 149 128 (Finite False 0) (Finite False 13421772) = Finite False 0"
  by (simp add: fdiv.simps val_def round_val_def Let_def)

lemma rounded_148:
  "round_to 24 149 128 False 170141173319264429905852091742258462720 = Finite False 170141173319264429905852091742258462720"
  apply (rule round_to_eval' [where n = 121416798527102489600204155203283368622156186611384678475703023142582517330754928640 and L = 276 and s = 252
        and f = 16777215 and k = 16777215])
            apply simp_all
  done

lemma computed_149:
  "fmul 24 149 128 (Finite False 12676506002282294014967032053760) (Finite False 13421772) = Finite False 170141173319264429905852091742258462720"
  by (simp add: fmul.simps val_def round_val_def Let_def rounded_148)

lemma rounded_150:
  "round_to 24 149 128 False 340282356779733661637539395458142568448 = Infinite False"
  apply (rule round_to_overflow [where n = 242833604291210556532670524379753300287306614052143398553941298751264035156080459776 and L = 277 and s = 253
        and f = 16777215 and k = 16777216 and y = "340282366920938463463374607431768211456"])
            apply simp_all
  done

lemma computed_151:
  "fadd 24 149 128 (Finite False 170141183460469231731687303715884105728) (Finite False 170141173319264429905852091742258462720) = Infinite False"
  by (simp add: fadd.simps val_def round_val_def Let_def rounded_150)

lemma rounded_152:
  "round_to 24 149 128 False 13421769 = Finite False 13421769"
  apply (rule round_to_eval' [where n = 9578094418641189223415894908946090443576360386428928 and L = 173 and s = 149
        and f = 13421769 and k = 13421769])
            apply simp_all
  done

lemma computed_153:
  "fof_int 24 149 128 13421769 = Finite False 13421769"
  by (simp add: fof_int_def round_val_def rounded_152)

lemma rounded_154:
  "round_to 24 149 128 False (56713724439754809968617363914086154240 / 4473923) = Finite False 12676508420133933244225381466112"
  apply (rule round_to_eval' [where n = 9046258993661900275604814477382479807405133154309590522359833725538155017476 and L = 253 and s = 229
        and f = 10485762 and k = 10485762])
            apply simp_all
  done

lemma computed_155:
  "fdiv 24 149 128 (Finite False 170141173319264429905852091742258462720) (Finite False 13421769) = Finite False 12676508420133933244225381466112"
  by (simp add: fdiv.simps val_def round_val_def Let_def rounded_154)

lemma rounded_156:
  "round_to 24 149 128 False 170141167741592601065413653975036592128 = Finite False 170141163178059628080016879768632819712"
  apply (rule round_to_eval' [where n = 121416794546742865408430486482432695930440190981049127040785072419000662660728487936 and L = 276 and s = 252
        and f = 16777214 and k = 16777214])
            apply simp_all
  done

lemma computed_157:
  "fmul 24 149 128 (Finite False 13421769) (Finite False 12676508420133933244225381466112) = Finite False 170141163178059628080016879768632819712"
  by (simp add: fmul.simps val_def round_val_def Let_def rounded_156)

lemma rounded_158:
  "round_to 24 149 128 False 340282346638528859811704183484516925440 = Finite False 340282346638528859811704183484516925440"
  apply (rule round_to_eval' [where n = 242833597054204979200408310406566737244312373222769356951406046285165034661509857280 and L = 277 and s = 253
        and f = 16777215 and k = 16777215])
            apply simp_all
  done

lemma computed_159:
  "fadd 24 149 128 (Finite False 170141163178059628080016879768632819712) (Finite False 170141183460469231731687303715884105728) = Finite False 340282346638528859811704183484516925440"
  by (simp add: fadd.simps val_def round_val_def Let_def rounded_158)

lemmas computed = computed_2 computed_4 computed_6 computed_7 computed_9 computed_11
  computed_13 computed_15 computed_17 computed_19 computed_21 computed_23 computed_25
  computed_27 computed_29 computed_31 computed_33 computed_34 computed_36 computed_37
  computed_39 computed_41 computed_42 computed_44 computed_46 computed_48 computed_50
  computed_52 computed_54 computed_56 computed_58 computed_60 computed_62 computed_64
  computed_66 computed_68 computed_70 computed_72 computed_74 computed_76 computed_78
  computed_80 computed_82 computed_84 computed_86 computed_88 computed_89 computed_91
  computed_93 computed_95 computed_96 computed_97 computed_99 computed_101 computed_104
  computed_106 computed_108 computed_110 computed_111 computed_113 computed_115 computed_117
  computed_119 computed_120 computed_123 computed_124 computed_126 computed_127 computed_128
  computed_129 computed_130 computed_131 computed_133 computed_134 computed_135 computed_136
  computed_137 computed_138 computed_139 computed_140 computed_141 computed_143 computed_145
  computed_146 computed_147 computed_149 computed_151 computed_153 computed_155 computed_157
  computed_159

section \<open>Auxiliary facts\<close>

declare read_counts.simps [simp del]

lemma default_sensor_fields:
  "minPsi default_sensor = Finite False 0" "maxPsi default_sensor = Finite False 25"
  "deltaPsi default_sensor = Finite False 25" "calFactor default_sensor = Finite False (16384001 / 8796093022208)"
  "minCounts default_sensor = 1677722" "maxCounts default_sensor = 15099494"
  "deltaCounts default_sensor = 13421772" "eoc default_sensor = - 1"
  by (simp_all add: default_sensor_def SparkFun_MicroPressure_def select_counts_def ieee_ops
      Let_def computed)

text \<open>The three masks of the header select bits 2, 0 and 5 of the status byte.\<close>

lemma flag_bits:
  "(s AND INTEGRITY_FLAG \<noteq> 0) = bit s 2"
  "(s AND MATH_SAT_FLAG \<noteq> 0) = bit s 0"
  "(s AND BUSY_FLAG \<noteq> 0) = bit s 5"
  for s :: "8 word"
  by (simp_all add: INTEGRITY_FLAG_def MATH_SAT_FLAG_def BUSY_FLAG_def
      and_exp_eq_0_iff_not_bit [where n = 2, simplified]
      and_exp_eq_0_iff_not_bit [where n = 0, simplified]
      and_exp_eq_0_iff_not_bit [where n = 5, simplified])

lemma be24_take: "take_bit 24 (be24 m d l) = be24 m d l"
  by (rule bit_word_eqI) (auto simp add: be24_def bit_simps dest: bit_imp_le_length)

lemma be24_less: "uint (be24 m d l) < 2 ^ 24"
proof -
  have "uint (take_bit 24 (be24 m d l)) < 2 ^ 24"
    using take_bit_int_less_exp [of 24 "uint (be24 m d l)"] by (simp add: unsigned_take_bit_eq)
  then show ?thesis by (simp only: be24_take)
qed

text \<open>The loop of lines 187--192 on a buffer that holds three bytes.\<close>

lemma read_counts_be24:
  "rxbuf b = m # d # l # rest \<Longrightarrow> read_counts 0 0 b = (be24 m d l, b\<lparr>rxbuf := rest\<rparr>)"
  apply (subst read_counts.simps)
  apply (simp add: wire_read_def)
  apply (subst read_counts.simps)
  apply (simp add: wire_read_def)
  apply (subst read_counts.simps)
  apply (simp add: wire_read_def)
  apply (subst read_counts.simps)
  apply (simp add: be24_def push_bit_or ac_simps)
  done

lemma fetch_flagged:
  "bit (frame_status b) 2 \<or> bit (frame_status b) 0 \<Longrightarrow>
   fst (fetch_pressure A st units b) = f_nan A"
  by (auto simp add: fetch_pressure_def frame_status_def flag_bits split: prod.splits)

lemma fetch_valid:
  assumes "take 4 (replies b (requests b)) = [s, m, d, l]" and "\<not> bit s 2" and "\<not> bit s 0"
  shows "fst (fetch_pressure A st units b) =
           (if units = RAW then f_of_int A (uint (be24 m d l))
            else convert_units A units (counts_to_pressure A st (be24 m d l)))"
  using assms
  by (simp add: fetch_pressure_def requestFrom_def wire_read_def flag_bits read_counts_be24)

lemma readPressure_fetch:
  "wait_ready st (transmit [0xAA, 0x00, 0x00] b) = Some bw \<Longrightarrow>
   map_option fst (readPressure A st units b) = Some (fst (fetch_pressure A st units bw))"
  by (simp add: readPressure_def)

lemma wait_status_done:
  "\<not> (bit status 5 \<and> status \<noteq> 0xFF) \<Longrightarrow> wait_status status b = Some b"
  by (subst wait_status.simps) (auto simp add: flag_bits)

lemma wait_status_step:
  "bit status 5 \<Longrightarrow> status \<noteq> 0xFF \<Longrightarrow>
   wait_status status b =
     wait_status (fst (readStatus (delay 1 b))) (snd (readStatus (delay 1 b)))"
  by (subst wait_status.simps) (simp add: flag_bits)

lemma wait_eoc_done: "eoc_level b (samples b) \<Longrightarrow> wait_eoc b = Some (snd (digitalRead b))"
  by (subst wait_eoc.simps) (simp add: digitalRead_def)

lemma wait_eoc_step:
  "\<not> eoc_level b (samples b) \<Longrightarrow> wait_eoc b = wait_eoc (delay 1 (snd (digitalRead b)))"
  by (subst wait_eoc.simps) (simp add: digitalRead_def)

lemma readStatus_polled: "fst (readStatus b) = polled b 0"
  by (simp add: readStatus_def requestFrom_def wire_read_def polled_def
      split: list.splits prod.splits)

section \<open>Calibration\<close>

text \<open>
  C2. Whatever selector the constructor is given, the calibration constants are those
  of the table: \<open>'A'\<close> gives 1677722 and 15099494, \<open>'B'\<close> gives 419430 and 3774874,
  \<open>'C'\<close> gives 3355443 and 13421773, any other character gives the constants of
  \<open>'A'\<close>. The count span, the pressure span and the scale factor, the quotient of the
  two spans, are derived from them.
\<close>

theorem constructor_calibration:
  fixes A :: "('f, 'd) arith" and eoc_pin rst_pin lo hi tf
  defines "st \<equiv> SparkFun_MicroPressure A eoc_pin rst_pin lo hi tf"
  shows "(tf = CHR ''A'' \<longrightarrow> minCounts st = 1677722 \<and> maxCounts st = 15099494) \<and>
         (tf = CHR ''B'' \<longrightarrow> minCounts st = 419430 \<and> maxCounts st = 3774874) \<and>
         (tf = CHR ''C'' \<longrightarrow> minCounts st = 3355443 \<and> maxCounts st = 13421773) \<and>
         (tf \<noteq> CHR ''A'' \<and> tf \<noteq> CHR ''B'' \<and> tf \<noteq> CHR ''C'' \<longrightarrow>
            minCounts st = 1677722 \<and> maxCounts st = 15099494) \<and>
         minPsi st = lo \<and> maxPsi st = hi \<and>
         deltaCounts st = maxCounts st - minCounts st \<and>
         deltaPsi st = f_sub A (maxPsi st) (minPsi st) \<and>
         calFactor st = f_div A (deltaPsi st) (f_of_int A (uint (deltaCounts st)))"
  by (simp add: st_def SparkFun_MicroPressure_def select_counts_def Let_def)

theorem constructor_calibration_witness:
  "minCounts (SparkFun_MicroPressure ieee (- 1) (- 1) (Finite False 0) (Finite False 25) CHR ''A'') = 1677722 \<and>
   maxCounts (SparkFun_MicroPressure ieee (- 1) (- 1) (Finite False 0) (Finite False 25) CHR ''A'') = 15099494 \<and>
   minCounts (SparkFun_MicroPressure ieee (- 1) (- 1) (Finite False 0) (Finite False 25) CHR ''B'') = 419430 \<and>
   maxCounts (SparkFun_MicroPressure ieee (- 1) (- 1) (Finite False 0) (Finite False 25) CHR ''B'') = 3774874 \<and>
   minCounts (SparkFun_MicroPressure ieee (- 1) (- 1) (Finite False 0) (Finite False 25) CHR ''C'') = 3355443 \<and>
   maxCounts (SparkFun_MicroPressure ieee (- 1) (- 1) (Finite False 0) (Finite False 25) CHR ''C'') = 13421773 \<and>
   minCounts (SparkFun_MicroPressure ieee (- 1) (- 1) (Finite False 0) (Finite False 25) CHR ''x'') = 1677722 \<and>
   maxCounts (SparkFun_MicroPressure ieee (- 1) (- 1) (Finite False 0) (Finite False 25) CHR ''x'') = 15099494 \<and>
   deltaCounts (SparkFun_MicroPressure ieee (- 1) (- 1) (Finite False 0) (Finite False 25) CHR ''A'') = 13421772 \<and>
   deltaPsi (SparkFun_MicroPressure ieee (- 1) (- 1) (Finite False 0) (Finite False 25) CHR ''A'') =
     Finite False 25 \<and>
   calFactor (SparkFun_MicroPressure ieee (- 1) (- 1) (Finite False 0) (Finite False 25) CHR ''A'') =
     Finite False (16384001 / 8796093022208)"
  using
    constructor_calibration [where A = ieee and eoc_pin = "- 1" and rst_pin = "- 1"
      and lo = "Finite False 0" and hi = "Finite False 25" and tf = "CHR ''A''"]
    constructor_calibration [where A = ieee and eoc_pin = "- 1" and rst_pin = "- 1"
      and lo = "Finite False 0" and hi = "Finite False 25" and tf = "CHR ''B''"]
    constructor_calibration [where A = ieee and eoc_pin = "- 1" and rst_pin = "- 1"
      and lo = "Finite False 0" and hi = "Finite False 25" and tf = "CHR ''C''"]
    constructor_calibration [where A = ieee and eoc_pin = "- 1" and rst_pin = "- 1"
      and lo = "Finite False 0" and hi = "Finite False 25" and tf = "CHR ''x''"]
  by (simp add: ieee_ops computed)

text \<open>
  C6. In every calibration state and for every argument \<open>z\<close>, \<open>setZero z\<close> makes \<open>z\<close>
  the minimum count and recomputes the count span, maximum minus minimum count, and the
  scale factor, pressure span by count span. The two pressure bounds, the pressure span
  and the maximum count stay as they were.
\<close>

theorem setZero_frame:
  fixes A :: "('f, 'd) arith" and z st
  defines "st' \<equiv> setZero A z st"
  shows "minCounts st' = z \<and>
         deltaCounts st' = maxCounts st' - minCounts st' \<and>
         calFactor st' = f_div A (deltaPsi st') (f_of_int A (uint (deltaCounts st'))) \<and>
         minPsi st' = minPsi st \<and> maxPsi st' = maxPsi st \<and>
         deltaPsi st' = deltaPsi st \<and> maxCounts st' = maxCounts st"
  by (simp add: st'_def setZero_def Let_def)

theorem setZero_frame_witness:
  "minCounts (setZero ieee 1700000 default_sensor) = 1700000 \<and>
   deltaCounts (setZero ieee 1700000 default_sensor) = 13399494 \<and>
   calFactor (setZero ieee 1700000 default_sensor) = Finite False (16411241 / 8796093022208) \<and>
   minPsi (setZero ieee 1700000 default_sensor) = Finite False 0 \<and>
   maxPsi (setZero ieee 1700000 default_sensor) = Finite False 25 \<and>
   deltaPsi (setZero ieee 1700000 default_sensor) = Finite False 25 \<and>
   maxCounts (setZero ieee 1700000 default_sensor) = 15099494"
  using setZero_frame [where A = ieee and z = 1700000 and st = default_sensor]
  by (simp add: default_sensor_fields ieee_ops computed)

text \<open>
  C7. In every calibration state and for every argument \<open>f\<close>, \<open>setCalFac f\<close> makes
  \<open>f\<close> the scale factor and recomputes the pressure span, \<open>f\<close> times the count span, and
  the maximum pressure, minimum pressure plus pressure span. The two count bounds, the
  count span and the minimum pressure stay as they were.
\<close>

theorem setCalFac_frame:
  fixes A :: "('f, 'd) arith" and f st
  defines "st' \<equiv> setCalFac A f st"
  shows "calFactor st' = f \<and>
         deltaPsi st' = f_mul A f (f_of_int A (uint (deltaCounts st'))) \<and>
         maxPsi st' = f_add A (minPsi st') (deltaPsi st') \<and>
         minCounts st' = minCounts st \<and> maxCounts st' = maxCounts st \<and>
         deltaCounts st' = deltaCounts st \<and> minPsi st' = minPsi st"
  by (simp add: st'_def setCalFac_def Let_def)

theorem setCalFac_frame_witness:
  "calFactor (setCalFac ieee (Finite False (8796093 / 4398046511104)) default_sensor) = Finite False (8796093 / 4398046511104) \<and>
   deltaPsi (setCalFac ieee (Finite False (8796093 / 4398046511104)) default_sensor) = Finite False (3518437 / 131072) \<and>
   maxPsi (setCalFac ieee (Finite False (8796093 / 4398046511104)) default_sensor) = Finite False (3518437 / 131072) \<and>
   minCounts (setCalFac ieee (Finite False (8796093 / 4398046511104)) default_sensor) = 1677722 \<and>
   maxCounts (setCalFac ieee (Finite False (8796093 / 4398046511104)) default_sensor) = 15099494 \<and>
   deltaCounts (setCalFac ieee (Finite False (8796093 / 4398046511104)) default_sensor) = 13421772 \<and>
   minPsi (setCalFac ieee (Finite False (8796093 / 4398046511104)) default_sensor) = Finite False 0"
  using setCalFac_frame [where A = ieee and f = "Finite False (8796093 / 4398046511104)" and st = default_sensor]
  by (simp add: default_sensor_fields ieee_ops computed)

text \<open>
  C10. \<open>setZero\<close> does not compare its argument with the maximum count. It accepts
  every \<open>z\<close>, and the count span it stores is \<open>(maxCounts - z) mod 2^32\<close>: for \<open>z\<close> above
  the maximum count that is \<open>2^32 - (z - maxCounts)\<close>, a positive span larger than the
  maximum count itself, and the scale factor is the pressure span divided by it. With
  the default sensor and \<open>z = maxCounts + 1\<close> the span is 4294967295, which \<open>float\<close>
  rounds to \<open>2^32\<close>, and the scale factor is \<open>25 / 2^32\<close>.
\<close>

theorem setZero_unsigned_span:
  fixes A :: "('f, 'd) arith" and z st
  defines "st' \<equiv> setZero A z st"
  shows "minCounts st' = z \<and>
         uint (deltaCounts st') = (uint (maxCounts st) - uint z) mod 2 ^ 32 \<and>
         calFactor st' =
           f_div A (deltaPsi st) (f_of_int A ((uint (maxCounts st) - uint z) mod 2 ^ 32)) \<and>
         (maxCounts st < z \<longrightarrow>
            uint (deltaCounts st') = 2 ^ 32 - (uint z - uint (maxCounts st)) \<and>
            uint (maxCounts st) < uint (deltaCounts st'))"
proof -
  have d: "uint (maxCounts st - z) = (uint (maxCounts st) - uint z) mod 2 ^ 32"
    by (simp add: uint_word_ariths)
  have b: "uint z < 2 ^ 32"
    using uint_bounded [of z] by simp
  have w: "(uint (maxCounts st) - uint z) mod 2 ^ 32 = 2 ^ 32 - (uint z - uint (maxCounts st))"
    if "maxCounts st < z"
  proof -
    from that have lt: "uint (maxCounts st) < uint z"
      by (simp add: word_less_def)
    have nn: "0 \<le> uint (maxCounts st)"
      by simp
    have "(uint (maxCounts st) - uint z) mod 2 ^ 32 =
          (uint (maxCounts st) - uint z + 2 ^ 32) mod 2 ^ 32"
      by simp
    also have "\<dots> = uint (maxCounts st) - uint z + 2 ^ 32"
      using lt b nn by (intro mod_pos_pos_trivial) linarith+
    finally show ?thesis by simp
  qed
  show ?thesis
    using w b by (auto simp add: st'_def setZero_def Let_def d word_less_def)
qed

theorem setZero_unsigned_span_witness:
  "(15099494 :: 32 word) < 15099495 \<and>
   minCounts (setZero ieee 15099495 default_sensor) = 15099495 \<and>
   uint (deltaCounts (setZero ieee 15099495 default_sensor)) = 4294967295 \<and>
   calFactor (setZero ieee 15099495 default_sensor) = Finite False (25 / 4294967296)"
  using setZero_unsigned_span [where A = ieee and z = 15099495 and st = default_sensor]
  by (simp add: default_sensor_fields ieee_ops computed)

section \<open>Auxiliary facts on reading\<close>

lemma sint_small:
  fixes w :: "32 word"
  assumes "uint w < 2 ^ 31"
  shows "sint w = uint w"
proof -
  have "- (2 ^ 31) \<le> (0 :: int)" by simp
  also have "0 \<le> uint w" by simp
  finally have "signed_take_bit 31 (uint w) = uint w"
    using assms by (rule signed_take_bit_int_eq_self)
  then show ?thesis by (simp add: sint_uint)
qed

lemma int32_sub_exact:
  "- (2 ^ 31) \<le> a - b \<Longrightarrow> a - b < 2 ^ 31 \<Longrightarrow> int32_sub a b = a - b"
  by (simp add: int32_sub_def signed_take_bit_int_eq_self)

lemma int32_sub_sint: "int32_sub (sint a) (sint b) = sint (a - b)" for a b :: "32 word"
  by (simp add: int32_sub_def sint_word_ariths)

lemma counts_difference:
  fixes r c :: "32 word"
  assumes "uint r < 2 ^ 24" and "uint c < 2 ^ 31"
  shows "int32_sub (sint r) (sint c) = uint r - uint c"
proof -
  have r: "sint r = uint r" using assms(1) by (intro sint_small) simp
  have c: "sint c = uint c" using assms(2) by (rule sint_small)
  have nn: "0 \<le> uint r" "0 \<le> uint c" by simp_all
  have bd: "uint r < 16777216" "uint c < 2147483648" using assms by simp_all
  from nn bd have "- 2147483648 \<le> uint r - uint c" "uint r - uint c < 2147483648"
    by linarith+
  then show ?thesis
    unfolding r c by (intro int32_sub_exact) simp_all
qed

lemma readStatus_bus [simp]:
  "replies (snd (readStatus b)) = replies b"
  "requests (snd (readStatus b)) = Suc (requests b)"
  "slept (snd (readStatus b)) = slept b"
  by (simp_all add: readStatus_def requestFrom_def wire_read_def split: list.splits prod.splits)

lemma delay_bus [simp]:
  "replies (delay n b) = replies b" "requests (delay n b) = requests b"
  "slept (delay n b) = slept b + n"
  by (simp_all add: delay_def)

lemma transmit_bus [simp]:
  "replies (transmit xs b) = replies b" "requests (transmit xs b) = requests b"
  "slept (transmit xs b) = slept b"
  by (simp_all add: transmit_def)

lemma sensor_bus_fields [simp]:
  "replies (sensor_bus frames n) = script frames" "requests (sensor_bus frames n) = 0"
  "slept (sensor_bus frames n) = 0" "samples (sensor_bus frames n) = 0"
  "eoc_level (sensor_bus frames n) k = (n \<le> k)"
  by (simp_all add: sensor_bus_def)

lemma polled_simps [simp]:
  "polled (delay n b) k = polled b k" "polled (transmit xs b) k = polled b k"
  "polled (snd (readStatus b)) k = polled b (Suc k)"
  by (simp_all add: polled_def)

lemma digitalRead_bus [simp]:
  "replies (snd (digitalRead b)) = replies b" "requests (snd (digitalRead b)) = requests b"
  "rxbuf (snd (digitalRead b)) = rxbuf b" "samples (snd (digitalRead b)) = Suc (samples b)"
  "eoc_level (snd (digitalRead b)) = eoc_level b"
  by (simp_all add: digitalRead_def)

lemma bus_pins [simp]:
  "samples (delay n b) = samples b" "eoc_level (delay n b) = eoc_level b"
  "samples (transmit xs b) = samples b" "eoc_level (transmit xs b) = eoc_level b"
  by (simp_all add: delay_def transmit_def)

lemma wait_ready_idle:
  "eoc st = - 1 \<Longrightarrow> \<not> (bit (polled b 0) 5 \<and> polled b 0 \<noteq> 0xFF) \<Longrightarrow>
   wait_ready st b = Some (snd (readStatus b))"
  by (simp add: wait_ready_def split_def wait_status_done readStatus_polled)

section \<open>Reading\<close>

text \<open>
  C1, as amended. When \<open>readPressure\<close> has read the count \<open>r\<close> from a frame whose
  status byte passes validation, and the unit is not \<open>RAW\<close>, the pressure it converts
  to the unit is \<open>float(int32_t(r) - int32_t(minCounts)) * calFactor + minPsi\<close>. The
  count \<open>r\<close> has 24 bits. Whenever \<open>minCounts\<close> is below \<open>2^31\<close>, as with every table
  value and every 24-bit zero count, the difference of the two casts is the difference
  of the counts in the integers, so a count \<open>r < minCounts\<close> gives a negative number of
  counts and not a wrapped one. When moreover \<open>float\<close> is binary32 and the scale factor
  is a positive value of binary32 (a positive number or \<open>+infinity\<close>), the offset
  \<open>float(int32_t(r) - int32_t(minCounts)) * calFactor\<close> that is added to \<open>minPsi\<close> is
  negative (a negative number or \<open>-infinity\<close>: the product does not round to zero and
  is not \<open>NaN\<close>), and with a finite \<open>minPsi\<close> the pressure is \<open>-infinity\<close> or a finite
  number that is not above \<open>minPsi\<close>.
\<close>

theorem base_pressure_signed:
  fixes A :: "(fval, 'd) arith" and st units b bw s m d l
  defines "r \<equiv> be24 m d l"
  defines "n \<equiv> int32_sub (sint r) (sint (minCounts st))"
  defines "off \<equiv> f_mul A (f_of_int A n) (calFactor st)"
  defines "pressure \<equiv> f_add A off (minPsi st)"
  assumes "wait_ready st (transmit [0xAA, 0x00, 0x00] b) = Some bw"
    and "take 4 (replies bw (requests bw)) = [s, m, d, l]"
    and "\<not> bit s 2" and "\<not> bit s 0"
    and "units \<noteq> RAW"
  shows "map_option fst (readPressure A st units b) = Some (convert_units A units pressure) \<and>
         uint r < 2 ^ 24 \<and>
         (uint (minCounts st) < 2 ^ 31 \<longrightarrow>
            n = uint r - uint (minCounts st) \<and>
            (r < minCounts st \<longrightarrow>
               n < 0 \<and>
               (binary32_floats A \<and> is_float32 (calFactor st) \<and> is_positive (calFactor st) \<longrightarrow>
                  is_negative off \<and>
                  (is_float32 (minPsi st) \<and> is_finite (minPsi st) \<longrightarrow>
                     pressure = Infinite True \<or>
                     is_finite pressure \<and> val pressure \<le> val (minPsi st)))))"
proof -
  have r: "uint r < 2 ^ 24"
    unfolding r_def by (rule be24_less)
  have n: "n = uint r - uint (minCounts st)" if "uint (minCounts st) < 2 ^ 31"
    unfolding n_def using r that by (rule counts_difference)
  have neg: "is_negative off"
    if c: "uint (minCounts st) < 2 ^ 31" and lt: "r < minCounts st"
      and A: "binary32_floats A" and f: "is_float32 (calFactor st)"
      and p: "is_positive (calFactor st)"
  proof -
    have "0 \<le> uint r" by simp
    moreover from c have "uint (minCounts st) < 2147483648" by simp
    moreover from lt have "uint r < uint (minCounts st)"
      by (simp add: word_less_def)
    ultimately have "n < 0" "- 2147483648 < n"
      unfolding n [OF c] by linarith+
    then have "n < 0" "- (2 ^ 31) < n"
      by simp_all
    then have "is_negative (fmul 24 149 128 (fof_int 24 149 128 n) (calFactor st))"
      using f p unfolding is_float32_def by (rule negative_offset)
    with A show ?thesis
      by (simp add: binary32_floats_def off_def)
  qed
  have below: "pressure = Infinite True \<or> is_finite pressure \<and> val pressure \<le> val (minPsi st)"
    if "is_negative off" and A: "binary32_floats A"
      and "is_float32 (minPsi st)" and "is_finite (minPsi st)"
  proof -
    from that(1,3,4) have "fadd 24 149 128 off (minPsi st) = Infinite True \<or>
        is_finite (fadd 24 149 128 off (minPsi st)) \<and>
        val (fadd 24 149 128 off (minPsi st)) \<le> val (minPsi st)"
      unfolding is_float32_def by (rule fadd_negative) simp
    with A show ?thesis
      by (simp add: binary32_floats_def pressure_def)
  qed
  have fetch: "map_option fst (readPressure A st units b) =
           Some (convert_units A units pressure)"
    using assms(5-9)
    by (simp add: readPressure_fetch fetch_valid counts_to_pressure_def r_def n_def off_def
        pressure_def)
  have lt: "n < 0" if "uint (minCounts st) < 2 ^ 31" and "r < minCounts st"
    using that by (simp add: n word_less_def)
  show ?thesis
    using fetch r n lt neg below by blast
qed

theorem base_pressure_signed_witness:
  "map_option fst (readPressure ieee default_sensor PSI
      (sensor_bus [[0x40], [0x40, 0x10, 0x00, 0x00]] 0)) = Some (Finite True (9830407 / 8388608)) \<and>
   be24 0x10 0x00 0x00 = 1048576 \<and> be24 0x10 0x00 0x00 < minCounts default_sensor \<and>
   int32_sub (sint (be24 0x10 0x00 0x00)) (sint (minCounts default_sensor)) = - 629146 \<and>
   is_float32 (calFactor default_sensor) \<and> is_positive (calFactor default_sensor) \<and>
   f_mul ieee (f_of_int ieee (- 629146)) (calFactor default_sensor) = Finite True (9830407 / 8388608) \<and>
   is_negative (Finite True (9830407 / 8388608)) \<and>
   minPsi default_sensor = Finite False 0 \<and>
   val (Finite True (9830407 / 8388608)) \<le> val (Finite False 0)"
proof -
  let ?b = "sensor_bus [[0x40], [0x40, 0x10, 0x00, 0x00]] 0"
  let ?bw = "snd (readStatus (transmit [0xAA, 0x00, 0x00] ?b))"
  have w: "wait_ready default_sensor (transmit [0xAA, 0x00, 0x00] ?b) = Some ?bw"
    by (rule wait_ready_idle) (simp_all add: default_sensor_fields polled_def script_def)
  have f: "take 4 (replies ?bw (requests ?bw)) = [0x40, 0x10, 0x00, 0x00]"
    by (simp add: script_def)
  have u: "PSI \<noteq> RAW"
    by (simp add: units_defs)
  have c: "uint (minCounts default_sensor) < 2 ^ 31"
    by (simp add: default_sensor_fields)
  have v: "be24 0x10 0x00 0x00 = 1048576"
    by (simp add: be24_def)
  have p: "is_float32 (calFactor default_sensor)" "is_positive (calFactor default_sensor)"
    "is_float32 (minPsi default_sensor)" "is_finite (minPsi default_sensor)"
    by (simp_all add: default_sensor_fields computed is_positive_def is_finite_def)
  show ?thesis
    using base_pressure_signed [where A = ieee, OF w f _ _ u] c p binary32_floats_ieee
    by (simp add: v default_sensor_fields ieee_ops convert_units_def int32_sub_def computed
        is_negative_def is_finite_def val_def)
qed

text \<open>
  The claim as stated is about every calibration state. After \<open>setZero(0x80000001)\<close>
  the cast of \<open>minCounts\<close> is \<open>-2147483647\<close>: the count 0 is below \<open>minCounts\<close>, and
  the difference is \<open>+2147483647\<close>, so the offset is positive and the pressure returned
  lies above \<open>minPsi\<close>. And after \<open>setCalFac(-0.5)\<close> on the default sensor, where
  \<open>minCounts\<close> is the table value, the count 0 gives the difference \<open>-1677722\<close>, the
  offset \<open>+838861\<close> and the pressure \<open>+838861\<close>, above \<open>minPsi = 0\<close>.
\<close>

theorem base_pressure_counterexample:
  "be24 0x00 0x00 0x00 < minCounts (setZero ieee 0x80000001 default_sensor) \<and>
   int32_sub (sint (be24 0x00 0x00 0x00))
     (sint (minCounts (setZero ieee 0x80000001 default_sensor))) = 2147483647 \<and>
   minPsi (setZero ieee 0x80000001 default_sensor) = Finite False 0 \<and>
   calFactor (setZero ieee 0x80000001 default_sensor) = Finite False (3253921 / 281474976710656) \<and>
   map_option fst (readPressure ieee (setZero ieee 0x80000001 default_sensor) PSI
      (sensor_bus [[0x40], [0x40, 0x00, 0x00, 0x00]] 0)) = Some (Finite False (3253921 / 131072)) \<and>
   be24 0x00 0x00 0x00 < minCounts (setCalFac ieee (Finite True (1 / 2)) default_sensor) \<and>
   uint (minCounts (setCalFac ieee (Finite True (1 / 2)) default_sensor)) < 2 ^ 31 \<and>
   int32_sub (sint (be24 0x00 0x00 0x00))
     (sint (minCounts (setCalFac ieee (Finite True (1 / 2)) default_sensor))) = - 1677722 \<and>
   minPsi (setCalFac ieee (Finite True (1 / 2)) default_sensor) = Finite False 0 \<and>
   calFactor (setCalFac ieee (Finite True (1 / 2)) default_sensor) = Finite True (1 / 2) \<and>
   f_mul ieee (f_of_int ieee (- 1677722)) (Finite True (1 / 2)) = Finite False 838861 \<and>
   map_option fst (readPressure ieee (setCalFac ieee (Finite True (1 / 2)) default_sensor) PSI
      (sensor_bus [[0x40], [0x40, 0x00, 0x00, 0x00]] 0)) = Some (Finite False 838861)"
proof -
  let ?st = "setZero ieee 0x80000001 default_sensor"
  let ?sc = "setCalFac ieee (Finite True (1 / 2)) default_sensor"
  let ?b = "sensor_bus [[0x40], [0x40, 0x00, 0x00, 0x00]] 0"
  let ?bw = "snd (readStatus (transmit [0xAA, 0x00, 0x00] ?b))"
  have st: "minCounts ?st = 0x80000001" "minPsi ?st = Finite False 0" "eoc ?st = - 1"
    "calFactor ?st = Finite False (3253921 / 281474976710656)"
    by (simp_all add: setZero_def Let_def default_sensor_fields ieee_ops computed)
  have sc: "minCounts ?sc = 1677722" "minPsi ?sc = Finite False 0" "eoc ?sc = - 1"
    "calFactor ?sc = Finite True (1 / 2)"
    by (simp_all add: setCalFac_def Let_def default_sensor_fields)
  have w: "wait_ready ?st (transmit [0xAA, 0x00, 0x00] ?b) = Some ?bw"
    by (rule wait_ready_idle) (simp_all add: st polled_def script_def)
  have w': "wait_ready ?sc (transmit [0xAA, 0x00, 0x00] ?b) = Some ?bw"
    by (rule wait_ready_idle) (simp_all add: sc polled_def script_def)
  have f: "take 4 (replies ?bw (requests ?bw)) = [0x40, 0x00, 0x00, 0x00]"
    by (simp add: script_def)
  have v: "be24 0x00 0x00 0x00 = 0"
    by (simp add: be24_def)
  have "fst (fetch_pressure ieee ?st PSI ?bw) = Finite False (3253921 / 131072)"
    using fetch_valid [OF f, of ieee ?st PSI]
    by (simp add: v st units_defs convert_units_def counts_to_pressure_def int32_sub_def
        ieee_ops computed)
  then have 1: "map_option fst (readPressure ieee ?st PSI ?b) = Some (Finite False (3253921 / 131072))"
    using readPressure_fetch [OF w, of ieee PSI] by simp
  have "fst (fetch_pressure ieee ?sc PSI ?bw) = Finite False 838861"
    using fetch_valid [OF f, of ieee ?sc PSI]
    by (simp add: v sc units_defs convert_units_def counts_to_pressure_def int32_sub_def
        ieee_ops computed)
  then have 2: "map_option fst (readPressure ieee ?sc PSI ?b) = Some (Finite False 838861)"
    using readPressure_fetch [OF w', of ieee PSI] by simp
  show ?thesis
    using 1 2 by (simp add: v st sc int32_sub_def ieee_ops computed)
qed

text \<open>
  C4. Whatever status byte the four-byte read fetches: when its bit 2 (memory
  integrity) or its bit 0 (math saturation) is set, \<open>readPressure\<close> returns \<open>NAN\<close>,
  whatever the unit and whatever the three count bytes are (they are never read). The
  value returned is the only result of the call: there is no other error channel.
\<close>

theorem flagged_status_gives_nan:
  fixes A :: "('f, 'd) arith"
  assumes "wait_ready st (transmit [0xAA, 0x00, 0x00] b) = Some bw"
    and "bit (frame_status bw) 2 \<or> bit (frame_status bw) 0"
  shows "map_option fst (readPressure A st units b) = Some (f_nan A)"
  using assms by (simp add: readPressure_fetch fetch_flagged)

theorem flagged_status_gives_nan_witness:
  "map_option fst (readPressure ieee default_sensor PSI
      (sensor_bus [[0x60], [0x40], [0x44, 0x80, 0x00, 0x00]] 0)) = Some NaN \<and>
   map_option fst (readPressure ieee default_sensor KPA
      (sensor_bus [[0x40], [0x41, 0x12, 0x34, 0x56]] 0)) = Some NaN \<and>
   map_option fst
     (readPressure ieee
       (SparkFun_MicroPressure ieee 5 (- 1) (Finite False 0) (Finite False 25) CHR ''B'') PA
       (sensor_bus [[0x44, 0x80, 0x00, 0x00]] 1)) = Some NaN"
proof -
  let ?st = "SparkFun_MicroPressure ieee 5 (- 1) (Finite False 0) (Finite False 25) CHR ''B''"
  let ?b3 = "sensor_bus [[0x44, 0x80, 0x00, 0x00]] 1"
  let ?t3 = "transmit [0xAA, 0x00, 0x00] ?b3"
  let ?bw3 = "snd (digitalRead (delay 1 (snd (digitalRead ?t3))))"
  have e: "eoc ?st \<noteq> - 1"
    by (simp add: SparkFun_MicroPressure_def Let_def)
  have "wait_eoc ?t3 = wait_eoc (delay 1 (snd (digitalRead ?t3)))"
    by (rule wait_eoc_step) simp
  also have "\<dots> = Some ?bw3"
    by (rule wait_eoc_done) simp
  finally have w3: "wait_ready ?st ?t3 = Some ?bw3"
    using e by (simp add: wait_ready_def)
  have f3: "bit (frame_status ?bw3) 2 \<or> bit (frame_status ?bw3) 0"
    by (simp add: frame_status_def requestFrom_def wire_read_def script_def)
  let ?b1 = "sensor_bus [[0x60], [0x40], [0x44, 0x80, 0x00, 0x00]] 0"
  let ?t1 = "transmit [0xAA, 0x00, 0x00] ?b1"
  let ?bw1 = "snd (readStatus (delay 1 (snd (readStatus ?t1))))"
  let ?b2 = "sensor_bus [[0x40], [0x41, 0x12, 0x34, 0x56]] 0"
  let ?bw2 = "snd (readStatus (transmit [0xAA, 0x00, 0x00] ?b2))"
  have p0: "fst (readStatus ?t1) = 0x60"
    by (simp add: readStatus_polled polled_def script_def)
  have p1: "fst (readStatus (delay 1 (snd (readStatus ?t1)))) = 0x40"
    by (simp add: readStatus_polled polled_def script_def)
  have "wait_ready default_sensor ?t1 = wait_status 0x60 (snd (readStatus ?t1))"
    by (simp add: wait_ready_def split_def default_sensor_fields p0)
  also have "\<dots> = wait_status 0x40 ?bw1"
    using p1 by (subst wait_status_step) simp_all
  also have "\<dots> = Some ?bw1"
    by (rule wait_status_done) simp
  finally have w1: "wait_ready default_sensor ?t1 = Some ?bw1" .
  have f1: "bit (frame_status ?bw1) 2 \<or> bit (frame_status ?bw1) 0"
    by (simp add: frame_status_def requestFrom_def wire_read_def script_def)
  have w2: "wait_ready default_sensor (transmit [0xAA, 0x00, 0x00] ?b2) = Some ?bw2"
    by (rule wait_ready_idle) (simp_all add: default_sensor_fields polled_def script_def)
  have f2: "bit (frame_status ?bw2) 2 \<or> bit (frame_status ?bw2) 0"
    by (simp add: frame_status_def requestFrom_def wire_read_def script_def)
  show ?thesis
    using flagged_status_gives_nan [where A = ieee and units = PSI, OF w1 f1]
      flagged_status_gives_nan [where A = ieee and units = KPA, OF w2 f2]
      flagged_status_gives_nan [where A = ieee and units = PA, OF w3 f3]
    by (simp add: ieee_ops)
qed

text \<open>
  C9. The status check comes before the branch on the unit: a status byte with bit 2 or
  bit 0 set makes \<open>readPressure\<close> return \<open>NAN\<close> also when the unit is \<open>RAW\<close>.
\<close>

theorem raw_does_not_bypass_validation:
  fixes A :: "('f, 'd) arith"
  assumes "wait_ready st (transmit [0xAA, 0x00, 0x00] b) = Some bw"
    and "bit (frame_status bw) 2 \<or> bit (frame_status bw) 0"
  shows "map_option fst (readPressure A st RAW b) = Some (f_nan A)"
  using assms by (simp add: readPressure_fetch fetch_flagged)

theorem raw_does_not_bypass_validation_witness:
  "map_option fst (readPressure ieee default_sensor RAW
      (sensor_bus [[0x40], [0x45, 0x80, 0x00, 0x00]] 0)) = Some NaN"
proof -
  let ?b = "sensor_bus [[0x40], [0x45, 0x80, 0x00, 0x00]] 0"
  let ?bw = "snd (readStatus (transmit [0xAA, 0x00, 0x00] ?b))"
  have w: "wait_ready default_sensor (transmit [0xAA, 0x00, 0x00] ?b) = Some ?bw"
    by (rule wait_ready_idle) (simp_all add: default_sensor_fields polled_def script_def)
  have f: "bit (frame_status ?bw) 2 \<or> bit (frame_status ?bw) 0"
    by (simp add: frame_status_def requestFrom_def wire_read_def script_def)
  show ?thesis
    using raw_does_not_bypass_validation [where A = ieee, OF w f]
    by (simp add: ieee_ops)
qed

text \<open>
  C5. For a reading that passes validation, with \<open>p\<close> the pressure in PSI computed
  from the count: \<open>PSI\<close> returns \<open>p\<close>, \<open>PA\<close> returns \<open>p * 6894.7573\<close>, \<open>KPA\<close>
  \<open>p * 6.89476\<close>, \<open>TORR\<close> \<open>p * 51.7149\<close>, \<open>INHG\<close> \<open>p * 2.03602\<close>, \<open>ATM\<close>
  \<open>p * 0.06805\<close>, \<open>BAR\<close> \<open>p * 0.06895\<close>, each one multiplication in \<open>double\<close>.
  \<open>RAW\<close> returns the 24-bit count itself converted to \<open>float\<close>, with no field of
  the calibration involved. A unit that is none of the eight returns \<open>p\<close>, as \<open>PSI\<close>
  does, and so does a call that names no unit.
\<close>

theorem unit_conversion:
  fixes A :: "('f, 'd) arith" and st units b bw s m d l
  defines "p \<equiv> counts_to_pressure A st (be24 m d l)"
  defines "x \<equiv> map_option fst (readPressure A st units b)"
  assumes "wait_ready st (transmit [0xAA, 0x00, 0x00] b) = Some bw"
    and "take 4 (replies bw (requests bw)) = [s, m, d, l]"
    and "\<not> bit s 2" and "\<not> bit s 0"
  shows "(units = PSI \<longrightarrow> x = Some p) \<and>
         (units = PA \<longrightarrow> x = Some (f_of_d A (d_mul A (d_of_f A p) (d_lit A (68947573 / 10000))))) \<and>
         (units = KPA \<longrightarrow> x = Some (f_of_d A (d_mul A (d_of_f A p) (d_lit A (689476 / 100000))))) \<and>
         (units = TORR \<longrightarrow> x = Some (f_of_d A (d_mul A (d_of_f A p) (d_lit A (517149 / 10000))))) \<and>
         (units = INHG \<longrightarrow> x = Some (f_of_d A (d_mul A (d_of_f A p) (d_lit A (203602 / 100000))))) \<and>
         (units = ATM \<longrightarrow> x = Some (f_of_d A (d_mul A (d_of_f A p) (d_lit A (6805 / 100000))))) \<and>
         (units = BAR \<longrightarrow> x = Some (f_of_d A (d_mul A (d_of_f A p) (d_lit A (6895 / 100000))))) \<and>
         (units = RAW \<longrightarrow> x = Some (f_of_int A (uint (be24 m d l)))) \<and>
         (units \<notin> {PSI, PA, KPA, TORR, INHG, ATM, BAR, RAW} \<longrightarrow> x = Some p) \<and>
         map_option fst (readPressure_default A st b) = Some p \<and>
         uint (be24 m d l) < 2 ^ 24"
  using assms(3-6) be24_less [of m d l]
  by (simp add: x_def p_def readPressure_default_def readPressure_fetch fetch_valid
      convert_units_def times_lit_def units_defs)

theorem unit_conversion_witness:
  "map_option fst (readPressure ieee default_sensor PSI
      (sensor_bus [[0x40], [0x40, 0x80, 0x00, 0x00]] 0)) = Some (Finite False (25 / 2)) \<and>
   map_option fst (readPressure ieee default_sensor PA
      (sensor_bus [[0x40], [0x40, 0x80, 0x00, 0x00]] 0)) = Some (Finite False (2757903 / 32)) \<and>
   map_option fst (readPressure ieee default_sensor KPA
      (sensor_bus [[0x40], [0x40, 0x80, 0x00, 0x00]] 0)) = Some (Finite False (11296375 / 131072)) \<and>
   map_option fst (readPressure ieee default_sensor TORR
      (sensor_bus [[0x40], [0x40, 0x80, 0x00, 0x00]] 0)) = Some (Finite False (2647803 / 4096)) \<and>
   map_option fst (readPressure ieee default_sensor INHG
      (sensor_bus [[0x40], [0x40, 0x80, 0x00, 0x00]] 0)) = Some (Finite False (13343261 / 524288)) \<and>
   map_option fst (readPressure ieee default_sensor ATM
      (sensor_bus [[0x40], [0x40, 0x80, 0x00, 0x00]] 0)) = Some (Finite False (14271119 / 16777216)) \<and>
   map_option fst (readPressure ieee default_sensor BAR
      (sensor_bus [[0x40], [0x40, 0x80, 0x00, 0x00]] 0)) = Some (Finite False (14459863 / 16777216)) \<and>
   map_option fst (readPressure ieee default_sensor RAW
      (sensor_bus [[0x40], [0x40, 0x80, 0x00, 0x00]] 0)) = Some (Finite False 8388608) \<and>
   map_option fst (readPressure ieee default_sensor 8
      (sensor_bus [[0x40], [0x40, 0x80, 0x00, 0x00]] 0)) = Some (Finite False (25 / 2)) \<and>
   map_option fst (readPressure_default ieee default_sensor
      (sensor_bus [[0x40], [0x40, 0x80, 0x00, 0x00]] 0)) = Some (Finite False (25 / 2))"
proof -
  let ?b = "sensor_bus [[0x40], [0x40, 0x80, 0x00, 0x00]] 0"
  let ?bw = "snd (readStatus (transmit [0xAA, 0x00, 0x00] ?b))"
  have w: "wait_ready default_sensor (transmit [0xAA, 0x00, 0x00] ?b) = Some ?bw"
    by (rule wait_ready_idle) (simp_all add: default_sensor_fields polled_def script_def)
  have f: "take 4 (replies ?bw (requests ?bw)) = [0x40, 0x80, 0x00, 0x00]"
    by (simp add: script_def)
  have s: "\<not> bit (0x40 :: 8 word) 2" "\<not> bit (0x40 :: 8 word) 0"
    by simp_all
  have v: "be24 0x80 0x00 0x00 = 8388608"
    by (simp add: be24_def)
  have p: "counts_to_pressure ieee default_sensor 8388608 = Finite False (25 / 2)"
    by (simp add: counts_to_pressure_def int32_sub_def default_sensor_fields ieee_ops computed)
  note u = unit_conversion [where A = ieee, OF w f s]
  show ?thesis
    using u [where units = PSI] u [where units = PA] u [where units = KPA]
      u [where units = TORR] u [where units = INHG] u [where units = ATM]
      u [where units = BAR] u [where units = RAW] u [where units = 8]
    by (simp add: v p ieee_ops units_defs computed)
qed

section \<open>Waiting for the conversion\<close>

text \<open>
  The wait without an end-of-conversion pin reads the status byte and then, as long as
  the byte has bit 5 set and is not \<open>0xFF\<close>, sleeps one millisecond and reads it again.
\<close>

lemma wait_status_run:
  "\<forall>k<n. bit (polled b k) 5 \<and> polled b k \<noteq> 0xFF \<Longrightarrow>
   \<not> (bit (polled b n) 5 \<and> polled b n \<noteq> 0xFF) \<Longrightarrow>
   bit s 5 \<and> s \<noteq> 0xFF \<Longrightarrow>
   \<exists>b'. wait_status s b = Some b' \<and> requests b' = requests b + n + 1 \<and>
        slept b' = slept b + n + 1 \<and> replies b' = replies b"
proof (induction n arbitrary: s b)
  case 0
  let ?b1 = "snd (readStatus (delay 1 b))"
  have "wait_status s b = wait_status (polled b 0) ?b1"
    using 0(3) by (simp add: wait_status_step readStatus_polled)
  also have "\<dots> = Some ?b1"
    using 0(2) by (intro wait_status_done) simp
  finally show ?case by simp
next
  case (Suc n)
  let ?b1 = "snd (readStatus (delay 1 b))"
  have step: "wait_status s b = wait_status (polled b 0) ?b1"
    using Suc.prems(3) by (simp add: wait_status_step readStatus_polled)
  have a: "\<forall>k<n. bit (polled ?b1 k) 5 \<and> polled ?b1 k \<noteq> 0xFF"
    using Suc.prems(1) by simp
  have b: "\<not> (bit (polled ?b1 n) 5 \<and> polled ?b1 n \<noteq> 0xFF)"
    using Suc.prems(2) by simp
  have c: "bit (polled b 0) 5 \<and> polled b 0 \<noteq> 0xFF"
    using Suc.prems(1) by simp
  from Suc.IH [OF a b c] obtain b' where
    "wait_status (polled b 0) ?b1 = Some b'" "requests b' = requests ?b1 + n + 1"
    "slept b' = slept ?b1 + n + 1" "replies b' = replies ?b1"
    by blast
  then show ?case
    using step by simp
qed

lemma wait_status_returns:
  assumes "wait_status s b = Some b'"
  shows "\<not> (bit s 5 \<and> s \<noteq> 0xFF) \<or> (\<exists>k. \<not> (bit (polled b k) 5 \<and> polled b k \<noteq> 0xFF))"
proof (rule wait_status.raw_induct
    [where P = "\<lambda>s b b'. \<not> (bit s 5 \<and> s \<noteq> 0xFF) \<or>
                  (\<exists>k. \<not> (bit (polled b k) 5 \<and> polled b k \<noteq> 0xFF))", OF _ assms])
  fix w :: "8 word \<Rightarrow> bus \<Rightarrow> bus option" and t c c'
  assume IH: "\<And>s b y. w s b = Some y \<Longrightarrow>
      \<not> (bit s 5 \<and> s \<noteq> 0xFF) \<or> (\<exists>k. \<not> (bit (polled b k) 5 \<and> polled b k \<noteq> 0xFF))"
    and eq: "(if t AND BUSY_FLAG \<noteq> 0 \<and> t \<noteq> 0xFF
              then w (fst (readStatus (delay 1 c))) (snd (readStatus (delay 1 c)))
              else Some c) = Some c'"
  show "\<not> (bit t 5 \<and> t \<noteq> 0xFF) \<or> (\<exists>k. \<not> (bit (polled c k) 5 \<and> polled c k \<noteq> 0xFF))"
  proof (cases "bit t 5 \<and> t \<noteq> 0xFF")
    case False
    then show ?thesis by blast
  next
    case True
    let ?c1 = "snd (readStatus (delay 1 c))"
    from True eq have "w (polled c 0) ?c1 = Some c'"
      by (simp add: flag_bits readStatus_polled)
    from IH [OF this]
    have "\<not> (bit (polled c 0) 5 \<and> polled c 0 \<noteq> 0xFF) \<or>
          (\<exists>k. \<not> (bit (polled c (Suc k)) 5 \<and> polled c (Suc k) \<noteq> 0xFF))"
      by simp
    then show ?thesis by blast
  qed
qed

text \<open>
  C8. Without an end-of-conversion pin, the wait goes on exactly while the status byte
  polled has the busy bit (bit 5) set and is not \<open>0xFF\<close>: when the status bytes
  polled at positions \<open>0, \<dots>, n - 1\<close> are all busy and not \<open>0xFF\<close>, and the byte at
  position \<open>n\<close> has the busy bit clear or is \<open>0xFF\<close>, the wait ends there, after
  exactly \<open>n + 1\<close> status reads and \<open>n\<close> sleeps of one millisecond. When every
  status byte is busy and not \<open>0xFF\<close>, the wait never ends.
\<close>

theorem status_poll_wait:
  assumes "eoc st = - 1"
  shows "((\<forall>k<n. bit (polled b k) 5 \<and> polled b k \<noteq> 0xFF) \<and>
          (\<not> bit (polled b n) 5 \<or> polled b n = 0xFF) \<longrightarrow>
            (\<exists>b'. wait_ready st b = Some b' \<and> requests b' = requests b + n + 1 \<and>
                  slept b' = slept b + n)) \<and>
         ((\<forall>k. bit (polled b k) 5 \<and> polled b k \<noteq> 0xFF) \<longrightarrow> wait_ready st b = None)"
proof (intro conjI impI)
  let ?b0 = "snd (readStatus b)"
  have wr: "wait_ready st b = wait_status (polled b 0) ?b0"
    using assms by (simp add: wait_ready_def split_def readStatus_polled)
  {
    assume h: "(\<forall>k<n. bit (polled b k) 5 \<and> polled b k \<noteq> 0xFF) \<and>
               (\<not> bit (polled b n) 5 \<or> polled b n = 0xFF)"
    show "\<exists>b'. wait_ready st b = Some b' \<and> requests b' = requests b + n + 1 \<and>
               slept b' = slept b + n"
    proof (cases n)
      case 0
      with h have "wait_status (polled b 0) ?b0 = Some ?b0"
        by (intro wait_status_done) auto
      with 0 wr show ?thesis by simp
    next
      case (Suc j)
      have a: "\<forall>k<j. bit (polled ?b0 k) 5 \<and> polled ?b0 k \<noteq> 0xFF"
        using h Suc by simp
      have b: "\<not> (bit (polled ?b0 j) 5 \<and> polled ?b0 j \<noteq> 0xFF)"
        using h Suc by auto
      have c: "bit (polled b 0) 5 \<and> polled b 0 \<noteq> 0xFF"
        using h Suc by simp
      from wait_status_run [OF a b c] wr Suc show ?thesis
        by auto
    qed
  }
  {
    assume h: "\<forall>k. bit (polled b k) 5 \<and> polled b k \<noteq> 0xFF"
    show "wait_ready st b = None"
    proof (cases "wait_ready st b")
      case None
      then show ?thesis .
    next
      case (Some b')
      with wr have "wait_status (polled b 0) ?b0 = Some b'" by simp
      from wait_status_returns [OF this] h show ?thesis by simp
    qed
  }
qed


theorem status_poll_wait_witness:
  "map_option requests (wait_ready default_sensor (sensor_bus [[0x60], [0x60], [0x40]] 0)) = Some 3 \<and>
   map_option slept (wait_ready default_sensor (sensor_bus [[0x60], [0x60], [0x40]] 0)) = Some 2 \<and>
   map_option requests (wait_ready default_sensor (sensor_bus [[0x60], []] 0)) = Some 2 \<and>
   map_option slept (wait_ready default_sensor (sensor_bus [[0x60], []] 0)) = Some 1 \<and>
   wait_ready default_sensor (sensor_bus [[0x60]] 0) = None"
proof -
  let ?b1 = "sensor_bus [[0x60], [0x60], [0x40]] 0"
  let ?b2 = "sensor_bus [[0x60], []] 0"
  let ?b3 = "sensor_bus [[0x60]] 0"
  have e: "eoc default_sensor = - 1"
    by (simp add: default_sensor_fields)
  have p1: "polled ?b1 0 = 0x60" "polled ?b1 1 = 0x60" "polled ?b1 2 = 0x40"
    by (simp_all add: polled_def script_def)
  have p2: "polled ?b2 0 = 0x60" "polled ?b2 1 = 0xFF"
    by (simp_all add: polled_def script_def)
  have p3: "polled ?b3 k = 0x60" for k
    by (simp add: polled_def script_def)
  have "bit (polled ?b1 k) 5 \<and> polled ?b1 k \<noteq> 0xFF" if "k < 2" for k
  proof -
    from that consider "k = 0" | "k = 1"
      by linarith
    then show ?thesis
      using p1 by cases simp_all
  qed
  then have h1: "(\<forall>k<2. bit (polled ?b1 k) 5 \<and> polled ?b1 k \<noteq> 0xFF) \<and>
                 (\<not> bit (polled ?b1 2) 5 \<or> polled ?b1 2 = 0xFF)"
    by (simp add: p1)
  have h2: "(\<forall>k<1. bit (polled ?b2 k) 5 \<and> polled ?b2 k \<noteq> 0xFF) \<and>
            (\<not> bit (polled ?b2 1) 5 \<or> polled ?b2 1 = 0xFF)"
    using p2 by simp
  have h3: "\<forall>k. bit (polled ?b3 k) 5 \<and> polled ?b3 k \<noteq> 0xFF"
    by (simp add: p3)
  show ?thesis
    using status_poll_wait [OF e, of 2 ?b1] status_poll_wait [OF e, of 1 ?b2]
      status_poll_wait [OF e, of 0 ?b3] h1 h2 h3
    by auto
qed

section \<open>The endpoints of the calibration\<close>

lemma uint_all_ones: "uint (- 1 :: 32 word) = 4294967295"
proof -
  have "(- 1 :: 32 word) = 4294967295" by simp
  then show ?thesis by (simp only: uint_bintrunc) simp
qed

lemma derived_constructed:
  "is_float32 lo \<Longrightarrow> derived A (SparkFun_MicroPressure A eoc_pin rst_pin lo hi tf)"
  by (simp add: derived_def SparkFun_MicroPressure_def Let_def)

lemma derived_setZero: "derived A st \<Longrightarrow> derived A (setZero A z st)"
  by (auto simp add: derived_def setZero_def Let_def)

lemma derived_setCalFac: "derived A st \<Longrightarrow> derived A (setCalFac A f st)"
  by (simp add: derived_def setCalFac_def Let_def)

lemma reachable_derived: "reachable A st \<Longrightarrow> derived A st"
  by (induction rule: reachable.induct)
    (simp_all add: derived_constructed derived_setZero derived_setCalFac)

text \<open>The minimum count converts to zero counts: the offset is a zero.\<close>

lemma min_endpoint:
  assumes "binary32_floats A" and "is_float32 (minPsi st)" and "is_finite (calFactor st)"
    and "minPsi st \<noteq> NaN"
  shows "f_eq (counts_to_pressure A st (minCounts st)) (minPsi st)"
  using assms zero_offset [of "calFactor st" "minPsi st"]
  by (simp add: counts_to_pressure_def int32_sub_def binary32_floats_def is_float32_def)

text \<open>A count span below \<open>2^31\<close> converts to a positive \<open>float\<close>.\<close>

lemma fof_int_span:
  assumes "0 < n" and "n < 2 ^ 31"
  shows "\<exists>d. fof_int 24 149 128 n = Finite False d \<and> 0 < d \<and> d \<le> 2 ^ 32"
proof -
  from assms have "\<bar>n\<bar> < 2 ^ 31" by simp
  from fof_int_small [OF this] assms(1) obtain d where
    d: "fof_int 24 149 128 n = Finite False d"
    and e: "\<bar>d - of_int n\<bar> \<le> of_int n / 2 ^ 24 + 1 / (2 * 2 ^ 149)"
    by auto
  have "1 \<le> n" using assms(1) by simp
  then have l: "(1 :: rat) \<le> of_int n"
    by (simp only: of_int_1_le_iff)
  have "n < 2147483648" using assms(2) by simp
  then have "(of_int n :: rat) < of_int 2147483648"
    by (simp only: of_int_less_iff)
  then have u: "(of_int n :: rat) < 2147483648" by simp
  from e l u have "0 < d" "d \<le> 2 ^ 32"
    by (simp_all add: abs_le_iff; linarith)+
  with d show ?thesis by blast
qed

text \<open>
  The maximum count, when the scale factor is the quotient of the spans: the product
  of count span and scale factor is the pressure span up to two roundings, the sum
  with the minimum pressure adds a third, and the maximum pressure is itself the
  pressure span plus the minimum pressure up to one rounding.
\<close>

lemma max_endpoint_quotient:
  assumes FD: "FD = Finite False d" "0 < d" "d \<le> 2 ^ 32"
    and cal: "cal = fdiv 24 149 128 P FD"
    and conv: "fadd 24 149 128 (fmul 24 149 128 FD cal) a = Finite s m"
    and b: "b = fadd 24 149 128 a P \<or> P = fsub 24 149 128 b a"
    and fb: "is_finite b"
  shows "is_finite a \<and> is_finite P \<and>
         \<bar>val (Finite s m) - val b\<bar> \<le> (\<bar>val a\<bar> + \<bar>val P\<bar>) / 2 ^ 21 + 1 / 2 ^ 100"
proof -
  let ?M = "fmul 24 149 128 FD cal"
  from fadd_finite [OF conv] have fM: "is_finite ?M" and fa: "is_finite a"
    and e3: "\<bar>val (Finite s m) - (val ?M + val a)\<bar> \<le>
             \<bar>val ?M + val a\<bar> / 2 ^ 24 + 1 / (2 * 2 ^ 149)"
    by simp_all
  from fM obtain sM mM where M: "?M = Finite sM mM"
    by (cases ?M) (simp_all add: is_finite_def)
  from fmul_finite [OF M] have fc: "is_finite cal"
    and e2': "\<bar>val (Finite sM mM) - val FD * val cal\<bar> \<le>
              \<bar>val FD * val cal\<bar> / 2 ^ 24 + 1 / (2 * 2 ^ 149)"
    by simp_all
  have vd: "val FD = d"
    by (simp add: FD(1) val_def)
  define x where "x = d * val cal"
  have e2: "\<bar>val ?M - x\<bar> \<le> \<bar>x\<bar> / 2 ^ 24 + 1 / (2 * 2 ^ 149)"
    using e2' by (simp add: M vd x_def)
  from fc obtain sc mc where c: "fdiv 24 149 128 P FD = Finite sc mc"
    unfolding cal by (cases "fdiv 24 149 128 P FD") (simp_all add: is_finite_def)
  have "is_finite FD" "val FD \<noteq> 0"
    using FD(2) by (simp_all add: FD(1) is_finite_def val_def)
  from fdiv_finite [OF c this] have fP: "is_finite P"
    and q: "\<bar>val cal - val P / d\<bar> \<le> \<bar>val P / d\<bar> / 2 ^ 24 + 1 / (2 * 2 ^ 149)"
    by (simp_all add: cal c vd)
  from scale_back [OF FD(2) q]
  have "\<bar>x - val P\<bar> \<le> \<bar>val P\<bar> / 2 ^ 24 + d * (1 / (2 * 2 ^ 149))"
    by (simp add: x_def)
  moreover have "d * (1 / (2 * 2 ^ 149)) \<le> 2 ^ 32 * (1 / (2 * 2 ^ 149))"
    using FD(3) by (intro mult_right_mono) simp_all
  ultimately have e1: "\<bar>x - val P\<bar> \<le> \<bar>val P\<bar> / 2 ^ 24 + 2 ^ 32 * (1 / (2 * 2 ^ 149))"
    by linarith
  have t1: "\<bar>x\<bar> \<le> \<bar>val P\<bar> + \<bar>x - val P\<bar>"
    by linarith
  have t2: "\<bar>val ?M - val P\<bar> \<le> \<bar>x - val P\<bar> + \<bar>val ?M - x\<bar>"
    by linarith
  have t3: "\<bar>val ?M + val a\<bar> \<le> \<bar>val ?M - val P\<bar> + \<bar>val P\<bar> + \<bar>val a\<bar>"
    by linarith
  from fb obtain sb mb where bF: "b = Finite sb mb"
    by (cases b) (simp_all add: is_finite_def)
  from b have "\<bar>val (Finite s m) - val b\<bar> \<le> (\<bar>val a\<bar> + \<bar>val P\<bar>) / 2 ^ 21 + 1 / 2 ^ 100"
  proof
    assume "b = fadd 24 149 128 a P"
    then have "fadd 24 149 128 a P = Finite sb mb"
      by (simp add: bF)
    from fadd_finite [OF this]
    have e4: "\<bar>val b - (val a + val P)\<bar> \<le> \<bar>val a + val P\<bar> / 2 ^ 24 + 1 / (2 * 2 ^ 149)"
      by (simp add: bF)
    have t4: "\<bar>val a + val P\<bar> \<le> \<bar>val a\<bar> + \<bar>val P\<bar>"
      by linarith
    have t5: "\<bar>val (Finite s m) - val b\<bar> \<le>
              \<bar>val (Finite s m) - (val ?M + val a)\<bar> + \<bar>val ?M - val P\<bar> +
              \<bar>val b - (val a + val P)\<bar>"
      by linarith
    show ?thesis
      by (rule tol_sum [OF e1 t1 e2 t2 t3 e3 _ _ t4 e4 t5]) simp_all
  next
    assume "P = fsub 24 149 128 b a"
    moreover from fP obtain sp mp where pF: "P = Finite sp mp"
      by (cases P) (simp_all add: is_finite_def)
    ultimately have "fadd 24 149 128 b (fneg a) = Finite sp mp"
      by (simp add: fsub_def)
    from fadd_finite [OF this]
    have e5: "\<bar>val P - (val b - val a)\<bar> \<le> \<bar>val b - val a\<bar> / 2 ^ 24 + 1 / (2 * 2 ^ 149)"
      by (simp add: pF val_fneg [OF fa])
    have t4: "\<bar>val b - val a\<bar> \<le> \<bar>val P\<bar> + \<bar>val P - (val b - val a)\<bar>"
      by linarith
    have t5: "\<bar>val (Finite s m) - val b\<bar> \<le>
              \<bar>val (Finite s m) - (val ?M + val a)\<bar> + \<bar>val ?M - val P\<bar> +
              \<bar>val P - (val b - val a)\<bar>"
      by linarith
    show ?thesis
      by (rule tol_diff [OF e1 t1 e2 t2 t3 e3 _ _ t4 e5 _ t5]) simp_all
  qed
  with fa fP show ?thesis by blast
qed

text \<open>
  The maximum count, when the pressure span is the product of scale factor and count
  span: the conversion repeats the computation of the maximum pressure.
\<close>

lemma max_endpoint_product:
  assumes P: "P = fmul 24 149 128 cal FD"
    and b: "b = fadd 24 149 128 a P"
    and fb: "is_finite b"
  shows "is_finite a \<and> is_finite P \<and> fadd 24 149 128 (fmul 24 149 128 FD cal) a = b"
proof -
  from fb obtain sb mb where "fadd 24 149 128 a P = Finite sb mb"
    unfolding b by (cases "fadd 24 149 128 a P") (simp_all add: is_finite_def)
  from fadd_finite [OF this] have "is_finite a" "is_finite P"
    by simp_all
  moreover have "fadd 24 149 128 (fmul 24 149 128 FD cal) a = b"
    unfolding b P by (simp add: fadd_commute [of _ _ _ a] fmul_commute [of _ _ _ cal])
  ultimately show ?thesis by blast
qed

lemma max_endpoint:
  assumes A: "binary32_floats A" and inv: "derived A st" and nz: "deltaCounts st \<noteq> 0"
    and span: "uint (deltaCounts st) < 2 ^ 31"
    and fb: "is_finite (maxPsi st)"
    and fc: "is_finite (counts_to_pressure A st (maxCounts st))"
  shows "is_finite (minPsi st) \<and> is_finite (deltaPsi st) \<and>
         \<bar>val (counts_to_pressure A st (maxCounts st)) - val (maxPsi st)\<bar> \<le>
           (\<bar>val (minPsi st)\<bar> + \<bar>val (deltaPsi st)\<bar>) / 2 ^ 21 + 1 / 2 ^ 100"
proof -
  let ?D = "uint (deltaCounts st)"
  let ?FD = "fof_int 24 149 128 ?D"
  let ?a = "minPsi st" and ?b = "maxPsi st" and ?P = "deltaPsi st" and ?c = "calFactor st"
  from A have ops: "f_add A = fadd 24 149 128" "f_sub A = fsub 24 149 128"
    "f_mul A = fmul 24 149 128" "f_div A = fdiv 24 149 128" "f_of_int A = fof_int 24 149 128"
    by (simp_all add: binary32_floats_def)
  from inv have d: "deltaCounts st = maxCounts st - minCounts st"
    by (simp add: derived_def)
  have "int32_sub (sint (maxCounts st)) (sint (minCounts st)) = sint (deltaCounts st)"
    by (simp add: int32_sub_sint d)
  also have "\<dots> = ?D"
    using span by (rule sint_small)
  finally have conv: "counts_to_pressure A st (maxCounts st) =
      fadd 24 149 128 (fmul 24 149 128 ?FD ?c) ?a"
    by (simp add: counts_to_pressure_def ops)
  from fc obtain s m where cF: "fadd 24 149 128 (fmul 24 149 128 ?FD ?c) ?a = Finite s m"
    unfolding conv
    by (cases "fadd 24 149 128 (fmul 24 149 128 ?FD ?c) ?a") (simp_all add: is_finite_def)
  from nz have "?D \<noteq> 0"
    by (simp add: uint_0_iff)
  moreover have "0 \<le> ?D" by simp
  ultimately have "0 < ?D" by linarith
  from fof_int_span [OF this span] obtain dd where
    FD: "?FD = Finite False dd" "0 < dd" "dd \<le> 2 ^ 32"
    by blast
  from inv have "?c = fdiv 24 149 128 ?P ?FD \<and> ?P = fsub 24 149 128 ?b ?a \<or>
      ?c = fdiv 24 149 128 ?P ?FD \<and> ?b = fadd 24 149 128 ?a ?P \<or>
      ?P = fmul 24 149 128 ?c ?FD \<and> ?b = fadd 24 149 128 ?a ?P"
    unfolding derived_def ops by blast
  then consider
    (quotient) "?c = fdiv 24 149 128 ?P ?FD"
      "?b = fadd 24 149 128 ?a ?P \<or> ?P = fsub 24 149 128 ?b ?a"
    | (product) "?P = fmul 24 149 128 ?c ?FD" "?b = fadd 24 149 128 ?a ?P"
    by blast
  then show ?thesis
  proof cases
    case quotient
    from max_endpoint_quotient [OF FD quotient(1) cF quotient(2) fb]
    show ?thesis
      by (simp add: conv cF)
  next
    case product
    from max_endpoint_product [OF product fb]
    show ?thesis
      by (simp add: conv)
  qed
qed

text \<open>
  C3, as amended. With \<open>float\<close> binary32, in every state reached from the constructor
  by calls of \<open>setZero\<close> and \<open>setCalFac\<close> (pressure bounds and factors being any values
  of binary32) whose count span is not zero:

  \<^item> when the scale factor is finite and \<open>minPsi\<close> is not \<open>NaN\<close>, converting \<open>minCounts\<close>
    gives a value that compares equal (\<open>==\<close>) to \<open>minPsi\<close>;

  \<^item> when the count span is below \<open>2^31\<close> (as it is whenever \<open>minCounts < maxCounts\<close>),
    \<open>maxPsi\<close> is finite and the conversion of \<open>maxCounts\<close> is finite, then \<open>minPsi\<close> and
    the pressure span are finite and the conversion of \<open>maxCounts\<close> differs from
    \<open>maxPsi\<close> by at most \<open>(|minPsi| + |deltaPsi|) / 2^21 + 2^-100\<close>: four roundings of
    numbers not larger than about twice \<open>|minPsi| + |deltaPsi|\<close>.
\<close>

theorem endpoints_within_tolerance:
  fixes A :: "(fval, 'd) arith"
  assumes "binary32_floats A" and "reachable A st" and "deltaCounts st \<noteq> 0"
  shows "(is_finite (calFactor st) \<and> minPsi st \<noteq> NaN \<longrightarrow>
            f_eq (counts_to_pressure A st (minCounts st)) (minPsi st)) \<and>
         (uint (deltaCounts st) < 2 ^ 31 \<and> is_finite (maxPsi st) \<and>
          is_finite (counts_to_pressure A st (maxCounts st)) \<longrightarrow>
            is_finite (minPsi st) \<and> is_finite (deltaPsi st) \<and>
            \<bar>val (counts_to_pressure A st (maxCounts st)) - val (maxPsi st)\<bar> \<le>
              (\<bar>val (minPsi st)\<bar> + \<bar>val (deltaPsi st)\<bar>) / 2 ^ 21 + 1 / 2 ^ 100)"
proof -
  from assms(2) have inv: "derived A st"
    by (rule reachable_derived)
  then have "is_float32 (minPsi st)"
    by (simp add: derived_def)
  with assms(1) have "f_eq (counts_to_pressure A st (minCounts st)) (minPsi st)"
    if "is_finite (calFactor st)" "minPsi st \<noteq> NaN"
    using that by (rule min_endpoint)
  moreover note max_endpoint [OF assms(1) inv assms(3)]
  ultimately show ?thesis by blast
qed

theorem endpoints_within_tolerance_witness:
  "reachable ieee
     (SparkFun_MicroPressure ieee (- 1) (- 1) (Finite False 0) (Finite False 30) CHR ''A'') \<and>
   deltaCounts
     (SparkFun_MicroPressure ieee (- 1) (- 1) (Finite False 0) (Finite False 30) CHR ''A'') =
     13421772 \<and>
   calFactor
     (SparkFun_MicroPressure ieee (- 1) (- 1) (Finite False 0) (Finite False 30) CHR ''A'') =
     Finite False (9830401 / 4398046511104) \<and>
   counts_to_pressure ieee
     (SparkFun_MicroPressure ieee (- 1) (- 1) (Finite False 0) (Finite False 30) CHR ''A'')
     1677722 = Finite False 0 \<and>
   counts_to_pressure ieee
     (SparkFun_MicroPressure ieee (- 1) (- 1) (Finite False 0) (Finite False 30) CHR ''A'')
     15099494 = Finite False (15728641 / 524288) \<and>
   \<bar>val (Finite False (15728641 / 524288)) - val (Finite False 30)\<bar> \<le>
     (\<bar>val (Finite False 0)\<bar> + \<bar>val (Finite False 30)\<bar>) / 2 ^ 21 + 1 / 2 ^ 100 \<and>
   reachable ieee (setZero ieee 1700000 (setCalFac ieee (Finite False (8796093 / 4398046511104)) default_sensor)) \<and>
   deltaCounts (setZero ieee 1700000 (setCalFac ieee (Finite False (8796093 / 4398046511104)) default_sensor)) = 13399494 \<and>
   calFactor (setZero ieee 1700000 (setCalFac ieee (Finite False (8796093 / 4398046511104)) default_sensor)) = Finite False (8810717 / 4398046511104) \<and>
   minPsi (setZero ieee 1700000 (setCalFac ieee (Finite False (8796093 / 4398046511104)) default_sensor)) = Finite False 0 \<and>
   deltaPsi (setZero ieee 1700000 (setCalFac ieee (Finite False (8796093 / 4398046511104)) default_sensor)) = Finite False (3518437 / 131072) \<and>
   maxPsi (setZero ieee 1700000 (setCalFac ieee (Finite False (8796093 / 4398046511104)) default_sensor)) = Finite False (3518437 / 131072) \<and>
   counts_to_pressure ieee (setZero ieee 1700000 (setCalFac ieee (Finite False (8796093 / 4398046511104)) default_sensor))
     1700000 = Finite False 0 \<and>
   counts_to_pressure ieee (setZero ieee 1700000 (setCalFac ieee (Finite False (8796093 / 4398046511104)) default_sensor))
     15099494 = Finite False (14073747 / 524288) \<and>
   \<bar>val (Finite False (14073747 / 524288)) - val (Finite False (3518437 / 131072))\<bar> \<le>
     (\<bar>val (Finite False 0)\<bar> + \<bar>val (Finite False (3518437 / 131072))\<bar>) / 2 ^ 21 + 1 / 2 ^ 100"
proof -
  let ?s1 = "SparkFun_MicroPressure ieee (- 1) (- 1) (Finite False 0) (Finite False 30) CHR ''A''"
  let ?s2 = "setZero ieee 1700000 (setCalFac ieee (Finite False (8796093 / 4398046511104)) default_sensor)"
  have r1: "reachable ieee ?s1"
    by (intro reachable.intros) (simp_all add: computed)
  have r2: "reachable ieee ?s2"
    unfolding default_sensor_def by (intro reachable.intros) (simp_all add: computed)
  have f1: "minCounts ?s1 = 1677722" "maxCounts ?s1 = 15099494" "deltaCounts ?s1 = 13421772"
    "minPsi ?s1 = Finite False 0" "maxPsi ?s1 = Finite False 30"
    "deltaPsi ?s1 = Finite False 30" "calFactor ?s1 = Finite False (9830401 / 4398046511104)"
    by (simp_all add: SparkFun_MicroPressure_def select_counts_def Let_def ieee_ops computed)
  have f2: "minCounts ?s2 = 1700000" "maxCounts ?s2 = 15099494" "deltaCounts ?s2 = 13399494"
    "minPsi ?s2 = Finite False 0" "maxPsi ?s2 = Finite False (3518437 / 131072)"
    "deltaPsi ?s2 = Finite False (3518437 / 131072)" "calFactor ?s2 = Finite False (8810717 / 4398046511104)"
    by (simp_all add: setCalFac_def setZero_def Let_def default_sensor_fields ieee_ops computed)
  have c1: "counts_to_pressure ieee ?s1 1677722 = Finite False 0"
    "counts_to_pressure ieee ?s1 15099494 = Finite False (15728641 / 524288)"
    by (simp_all add: counts_to_pressure_def int32_sub_def f1 ieee_ops computed)
  have c2: "counts_to_pressure ieee ?s2 1700000 = Finite False 0"
    "counts_to_pressure ieee ?s2 15099494 = Finite False (14073747 / 524288)"
    by (simp_all add: counts_to_pressure_def int32_sub_def f2 ieee_ops computed)
  have d: "deltaCounts ?s1 \<noteq> 0" "deltaCounts ?s2 \<noteq> 0"
    by (simp_all add: f1 f2)
  from endpoints_within_tolerance [OF binary32_floats_ieee r1 d(1)]
  have 1: "\<bar>val (Finite False (15728641 / 524288)) - val (Finite False 30)\<bar> \<le>
     (\<bar>val (Finite False 0)\<bar> + \<bar>val (Finite False 30)\<bar>) / 2 ^ 21 + 1 / 2 ^ 100"
    by (simp add: f1 c1 is_finite_def)
  from endpoints_within_tolerance [OF binary32_floats_ieee r2 d(2)]
  have 2: "\<bar>val (Finite False (14073747 / 524288)) - val (Finite False (3518437 / 131072))\<bar> \<le>
     (\<bar>val (Finite False 0)\<bar> + \<bar>val (Finite False (3518437 / 131072))\<bar>) / 2 ^ 21 + 1 / 2 ^ 100"
    by (simp add: f2 c2 is_finite_def)
  from r1 r2 f1 f2 c1 c2 1 2 show ?thesis
    by (simp only: simp_thms)
qed

text \<open>
  The claim as stated covers every state with a nonzero count span.

  \<^item> After \<open>setZero(maxCounts + 1)\<close> on the default sensor the span is the unsigned
    \<open>4294967295\<close> and the scale factor \<open>25 / 2^32\<close>; the conversion, which subtracts
    as \<open>int32_t\<close>, multiplies it by \<open>-1\<close>: \<open>maxCounts\<close> converts to \<open>-25 / 2^32\<close>, while
    \<open>maxPsi\<close> is 25.

  \<^item> With the pressure bounds \<open>-3e38\<close> and \<open>3e38\<close> the pressure span overflows: the
    scale factor is \<open>+infinity\<close>, \<open>minCounts\<close> converts to \<open>0 * infinity + minPsi\<close>, which
    is \<open>NaN\<close>, and \<open>maxCounts\<close> to \<open>+infinity\<close>, while \<open>maxPsi\<close> is finite. The same
    happens after \<open>setCalFac(3e38)\<close> and \<open>setZero(1700000)\<close> on the default sensor.

  \<^item> With \<open>minPsi = NAN\<close> and a finite scale factor, \<open>minCounts\<close> converts to \<open>NaN\<close>,
    which compares equal to nothing.

  \<^item> With \<open>minPsi = 2^127\<close>, after \<open>setCalFac\<close> with a factor for which \<open>maxPsi\<close>
    overflows to \<open>+infinity\<close>, and \<open>setZero(1677725)\<close>, the conversion of \<open>maxCounts\<close>
    is the largest finite number of binary32.
\<close>

theorem endpoints_counterexample:
  "reachable ieee (setZero ieee 15099495 default_sensor) \<and>
   deltaCounts (setZero ieee 15099495 default_sensor) = 4294967295 \<and>
   calFactor (setZero ieee 15099495 default_sensor) = Finite False (25 / 4294967296) \<and>
   minPsi (setZero ieee 15099495 default_sensor) = Finite False 0 \<and>
   maxPsi (setZero ieee 15099495 default_sensor) = Finite False 25 \<and>
   counts_to_pressure ieee (setZero ieee 15099495 default_sensor)
     (maxCounts (setZero ieee 15099495 default_sensor)) = Finite True (25 / 4294967296) \<and>
   reachable ieee (SparkFun_MicroPressure ieee (- 1) (- 1) (Finite True 300000000549775575777803994281145270272) (Finite False 300000000549775575777803994281145270272) CHR ''A'') \<and>
   deltaCounts (SparkFun_MicroPressure ieee (- 1) (- 1) (Finite True 300000000549775575777803994281145270272) (Finite False 300000000549775575777803994281145270272) CHR ''A'') = 13421772 \<and>
   calFactor (SparkFun_MicroPressure ieee (- 1) (- 1) (Finite True 300000000549775575777803994281145270272) (Finite False 300000000549775575777803994281145270272) CHR ''A'') = Infinite False \<and>
   counts_to_pressure ieee (SparkFun_MicroPressure ieee (- 1) (- 1) (Finite True 300000000549775575777803994281145270272) (Finite False 300000000549775575777803994281145270272) CHR ''A'')
     (minCounts (SparkFun_MicroPressure ieee (- 1) (- 1) (Finite True 300000000549775575777803994281145270272) (Finite False 300000000549775575777803994281145270272) CHR ''A'')) = NaN \<and>
   counts_to_pressure ieee (SparkFun_MicroPressure ieee (- 1) (- 1) (Finite True 300000000549775575777803994281145270272) (Finite False 300000000549775575777803994281145270272) CHR ''A'')
     (maxCounts (SparkFun_MicroPressure ieee (- 1) (- 1) (Finite True 300000000549775575777803994281145270272) (Finite False 300000000549775575777803994281145270272) CHR ''A'')) = Infinite False \<and>
   reachable ieee (setZero ieee 1700000 (setCalFac ieee (Finite False 300000000549775575777803994281145270272) default_sensor)) \<and>
   deltaCounts (setZero ieee 1700000 (setCalFac ieee (Finite False 300000000549775575777803994281145270272) default_sensor)) = 13399494 \<and>
   minPsi (setZero ieee 1700000 (setCalFac ieee (Finite False 300000000549775575777803994281145270272) default_sensor)) = Finite False 0 \<and>
   calFactor (setZero ieee 1700000 (setCalFac ieee (Finite False 300000000549775575777803994281145270272) default_sensor)) = Infinite False \<and>
   counts_to_pressure ieee (setZero ieee 1700000 (setCalFac ieee (Finite False 300000000549775575777803994281145270272) default_sensor))
     (minCounts (setZero ieee 1700000 (setCalFac ieee (Finite False 300000000549775575777803994281145270272) default_sensor))) = NaN \<and>
   reachable ieee
     (setCalFac ieee (Finite False (8796093 / 4398046511104)) (SparkFun_MicroPressure ieee (- 1) (- 1) NaN (Finite False 25) CHR ''A'')) \<and>
   deltaCounts
     (setCalFac ieee (Finite False (8796093 / 4398046511104)) (SparkFun_MicroPressure ieee (- 1) (- 1) NaN (Finite False 25) CHR ''A'')) =
     13421772 \<and>
   calFactor
     (setCalFac ieee (Finite False (8796093 / 4398046511104)) (SparkFun_MicroPressure ieee (- 1) (- 1) NaN (Finite False 25) CHR ''A'')) =
     Finite False (8796093 / 4398046511104) \<and>
   counts_to_pressure ieee
     (setCalFac ieee (Finite False (8796093 / 4398046511104)) (SparkFun_MicroPressure ieee (- 1) (- 1) NaN (Finite False 25) CHR ''A''))
     (minCounts
       (setCalFac ieee (Finite False (8796093 / 4398046511104)) (SparkFun_MicroPressure ieee (- 1) (- 1) NaN (Finite False 25) CHR ''A''))) =
     NaN \<and>
   reachable ieee
     (setZero ieee 1677725
       (setCalFac ieee (Finite False 12676506002282294014967032053760) (SparkFun_MicroPressure ieee (- 1) (- 1) (Finite False 170141183460469231731687303715884105728) (Finite False 170141183460469231731687303715884105728) CHR ''A''))) \<and>
   deltaCounts
     (setZero ieee 1677725
       (setCalFac ieee (Finite False 12676506002282294014967032053760) (SparkFun_MicroPressure ieee (- 1) (- 1) (Finite False 170141183460469231731687303715884105728) (Finite False 170141183460469231731687303715884105728) CHR ''A''))) =
     13421769 \<and>
   maxPsi
     (setZero ieee 1677725
       (setCalFac ieee (Finite False 12676506002282294014967032053760) (SparkFun_MicroPressure ieee (- 1) (- 1) (Finite False 170141183460469231731687303715884105728) (Finite False 170141183460469231731687303715884105728) CHR ''A''))) =
     Infinite False \<and>
   counts_to_pressure ieee
     (setZero ieee 1677725
       (setCalFac ieee (Finite False 12676506002282294014967032053760) (SparkFun_MicroPressure ieee (- 1) (- 1) (Finite False 170141183460469231731687303715884105728) (Finite False 170141183460469231731687303715884105728) CHR ''A'')))
     (maxCounts
       (setZero ieee 1677725
         (setCalFac ieee (Finite False 12676506002282294014967032053760) (SparkFun_MicroPressure ieee (- 1) (- 1) (Finite False 170141183460469231731687303715884105728) (Finite False 170141183460469231731687303715884105728) CHR ''A'')))) =
     Finite False 340282346638528859811704183484516925440"
proof -
  let ?s1 = "setZero ieee 15099495 default_sensor"
  let ?s2 = "SparkFun_MicroPressure ieee (- 1) (- 1) (Finite True 300000000549775575777803994281145270272) (Finite False 300000000549775575777803994281145270272) CHR ''A''"
  let ?s3 = "setZero ieee 1700000 (setCalFac ieee (Finite False 300000000549775575777803994281145270272) default_sensor)"
  let ?s4 = "setCalFac ieee (Finite False (8796093 / 4398046511104))
    (SparkFun_MicroPressure ieee (- 1) (- 1) NaN (Finite False 25) CHR ''A'')"
  let ?s5 = "setZero ieee 1677725
    (setCalFac ieee (Finite False 12676506002282294014967032053760) (SparkFun_MicroPressure ieee (- 1) (- 1) (Finite False 170141183460469231731687303715884105728) (Finite False 170141183460469231731687303715884105728) CHR ''A''))"
  have n: "is_float32 NaN"
    by (simp add: is_float32_def is_float_def)
  have r: "reachable ieee ?s1" "reachable ieee ?s2" "reachable ieee ?s3" "reachable ieee ?s4"
    "reachable ieee ?s5"
    unfolding default_sensor_def by (intro reachable.intros; simp add: computed n)+
  have f1: "minCounts ?s1 = 15099495" "maxCounts ?s1 = 15099494" "deltaCounts ?s1 = 4294967295"
    "minPsi ?s1 = Finite False 0" "maxPsi ?s1 = Finite False 25" "calFactor ?s1 = Finite False (25 / 4294967296)"
    by (simp_all add: setZero_def Let_def default_sensor_fields ieee_ops uint_all_ones computed)
  have f2: "minCounts ?s2 = 1677722" "maxCounts ?s2 = 15099494" "deltaCounts ?s2 = 13421772"
    "minPsi ?s2 = Finite True 300000000549775575777803994281145270272" "calFactor ?s2 = Infinite False"
    by (simp_all add: SparkFun_MicroPressure_def select_counts_def Let_def ieee_ops computed)
  have f3: "minCounts ?s3 = 1700000" "deltaCounts ?s3 = 13399494"
    "minPsi ?s3 = Finite False 0" "calFactor ?s3 = Infinite False"
    by (simp_all add: setCalFac_def setZero_def Let_def default_sensor_fields ieee_ops computed)
  have f4: "minCounts ?s4 = 1677722" "deltaCounts ?s4 = 13421772"
    "minPsi ?s4 = NaN" "calFactor ?s4 = Finite False (8796093 / 4398046511104)"
    by (simp_all add: setCalFac_def SparkFun_MicroPressure_def select_counts_def Let_def)
  have f5: "minCounts ?s5 = 1677725" "maxCounts ?s5 = 15099494" "deltaCounts ?s5 = 13421769"
    "minPsi ?s5 = Finite False 170141183460469231731687303715884105728" "maxPsi ?s5 = Infinite False" "calFactor ?s5 = Finite False 12676508420133933244225381466112"
    by (simp_all add: setCalFac_def setZero_def SparkFun_MicroPressure_def select_counts_def
        Let_def ieee_ops computed)
  have c: "counts_to_pressure ieee ?s1 15099494 = Finite True (25 / 4294967296)"
    "counts_to_pressure ieee ?s2 1677722 = NaN"
    "counts_to_pressure ieee ?s2 15099494 = Infinite False"
    "counts_to_pressure ieee ?s3 1700000 = NaN"
    "counts_to_pressure ieee ?s4 1677722 = NaN"
    "counts_to_pressure ieee ?s5 15099494 = Finite False 340282346638528859811704183484516925440"
    by (simp_all add: counts_to_pressure_def int32_sub_def f1 f2 f3 f4 f5 ieee_ops computed)
  from r c show ?thesis
    by (simp add: f1 f2 f3 f4 f5)
qed

end
